(* ===== verification/Prelude.thy ===== *)
theory Prelude
  imports Main "HOL-Library.Word"
begin

text \<open>
  What every component of the development shares: the integers of Go at their widths,
  results with errors as values, sequences of fallible storage calls, and the few
  relational-table operations that the SQL statements of the gateway are made of.
\<close>

named_theorems go_simps \<open>unfolding rules of the Go-level helpers\<close>
named_theorems keeps_intros \<open>rules that walk a handler and keep a relation on its state\<close>

section \<open>Integers at their width\<close>

text \<open>
  A Go \<^verbatim>\<open>int32\<close> or \<^verbatim>\<open>int64\<close> is an \<^typ>\<open>int\<close> in its range; an operation that may leave
  the range is wrapped explicitly. Unsigned integers are machine words.
\<close>

type_synonym byte = "8 word"

text \<open>A UUID is an opaque identifier.\<close>

type_synonym uuid = nat

definition MaxInt32 :: int where "MaxInt32 = 2147483647"

definition MaxInt64 :: int where "MaxInt64 = 9223372036854775807"

definition wrap32 :: "int \<Rightarrow> int" where
  "wrap32 x = (x + 2 ^ 31) mod 2 ^ 32 - 2 ^ 31"

definition wrap64 :: "int \<Rightarrow> int" where
  "wrap64 x = (x + 2 ^ 63) mod 2 ^ 64 - 2 ^ 63"

text \<open>Go's integer division truncates towards zero; it is only used with a non-zero divisor.\<close>

definition go_quot :: "int \<Rightarrow> int \<Rightarrow> int" where
  "go_quot a b = sgn a * sgn b * (\<bar>a\<bar> div \<bar>b\<bar>)"

lemma wrap32_id [simp]: "- (2 ^ 31) \<le> x \<Longrightarrow> x \<le> MaxInt32 \<Longrightarrow> wrap32 x = x"
  by (simp add: wrap32_def MaxInt32_def mod_pos_pos_trivial)

lemma wrap64_id [simp]: "- (2 ^ 63) \<le> x \<Longrightarrow> x \<le> MaxInt64 \<Longrightarrow> wrap64 x = x"
  by (simp add: wrap64_def MaxInt64_def mod_pos_pos_trivial)

lemma wrap32_range: "- (2 ^ 31) \<le> wrap32 x \<and> wrap32 x \<le> MaxInt32"
  by (simp add: wrap32_def MaxInt32_def)

lemma go_quot_nonneg [simp]: "0 \<le> a \<Longrightarrow> 0 < b \<Longrightarrow> go_quot a b = a div b"
  by (cases "a = 0") (auto simp: go_quot_def)

section \<open>Results and sequences of fallible calls\<close>

text \<open>
  A Go function that returns \<^verbatim>\<open>(T, error)\<close> is a function into \<open>'e + 'a\<close>. One that also
  changes state returns the new state beside the result; \<open>bindE\<close> is the early return
  \<^verbatim>\<open>if err != nil { return err }\<close>.
\<close>

type_synonym ('s, 'e, 'a) op = "'s \<Rightarrow> ('e + 'a) \<times> 's"

definition returnE :: "'a \<Rightarrow> ('s, 'e, 'a) op" where
  "returnE a s = (Inr a, s)"

definition failE :: "'e \<Rightarrow> ('s, 'e, 'a) op" where
  "failE e s = (Inl e, s)"

definition bindE :: "('s, 'e, 'a) op \<Rightarrow> ('a \<Rightarrow> ('s, 'e, 'b) op) \<Rightarrow> ('s, 'e, 'b) op" where
  "bindE m k s = (case m s of (Inl e, s') \<Rightarrow> (Inl e, s') | (Inr a, s') \<Rightarrow> k a s')"

text \<open>A call whose error is logged and dropped.\<close>

definition ignoreE :: "('s, 'e, 'a) op \<Rightarrow> ('s, 'e, unit) op" where
  "ignoreE m s = (Inr (), snd (m s))"

text \<open>A call whose error is inspected by the caller.\<close>

definition catchE :: "('s, 'e, 'a) op \<Rightarrow> ('e \<Rightarrow> ('s, 'f, 'b) op) \<Rightarrow> ('a \<Rightarrow> ('s, 'f, 'b) op)
    \<Rightarrow> ('s, 'f, 'b) op" where
  "catchE m h k s = (case m s of (Inl e, s') \<Rightarrow> h e s' | (Inr a, s') \<Rightarrow> k a s')"

text \<open>A call whose error is wrapped by the caller.\<close>

definition wrapE :: "('e \<Rightarrow> 'f) \<Rightarrow> ('s, 'e, 'a) op \<Rightarrow> ('s, 'f, 'a) op" where
  "wrapE f m s = (case m s of (Inl e, s') \<Rightarrow> (Inl (f e), s') | (Inr a, s') \<Rightarrow> (Inr a, s'))"

lemmas op_defs [go_simps] = returnE_def failE_def bindE_def ignoreE_def catchE_def wrapE_def

text \<open>
  \<open>keeps R m\<close>: whatever \<open>m\<close> returns, the state it leaves is related to the state it
  found. With a reflexive and transitive \<open>R\<close> the rules below walk any handler.
\<close>

definition keeps :: "('s \<Rightarrow> 's \<Rightarrow> bool) \<Rightarrow> ('s, 'e, 'a) op \<Rightarrow> bool" where
  "keeps R m \<longleftrightarrow> (\<forall>s. R s (snd (m s)))"

lemma keepsD: "keeps R m \<Longrightarrow> m s = (r, s') \<Longrightarrow> R s s'"
  by (metis keeps_def snd_conv)

locale state_order =
  fixes R :: "'s \<Rightarrow> 's \<Rightarrow> bool"
  assumes R_refl: "R s s"
    and R_trans: "R s t \<Longrightarrow> R t u \<Longrightarrow> R s u"
begin

lemma keeps_returnE [keeps_intros]: "keeps R (returnE a)"
  by (simp add: keeps_def returnE_def R_refl)

lemma keeps_failE [keeps_intros]: "keeps R (failE e)"
  by (simp add: keeps_def failE_def R_refl)

lemma keeps_bindE [keeps_intros]:
  assumes "keeps R m" and "\<And>a. keeps R (k a)"
  shows "keeps R (bindE m k)"
  unfolding keeps_def
proof
  fix s
  obtain r s' where m: "m s = (r, s')" by (cases "m s")
  have 1: "R s s'" using assms(1) m by (rule keepsD)
  show "R s (snd (bindE m k s))"
  proof (cases r)
    case (Inl e)
    then show ?thesis using m 1 by (simp add: bindE_def)
  next
    case (Inr a)
    have "R s' (snd (k a s'))" using assms(2) by (simp add: keeps_def)
    then show ?thesis using m 1 Inr by (simp add: bindE_def R_trans [OF 1])
  qed
qed

lemma keeps_ignoreE [keeps_intros]: "keeps R m \<Longrightarrow> keeps R (ignoreE m)"
  by (simp add: keeps_def ignoreE_def)

lemma keeps_catchE [keeps_intros]:
  assumes "keeps R m" and "\<And>e. keeps R (h e)" and "\<And>a. keeps R (k a)"
  shows "keeps R (catchE m h k)"
  unfolding keeps_def
proof
  fix s
  obtain r s' where m: "m s = (r, s')" by (cases "m s")
  have 1: "R s s'" using assms(1) m by (rule keepsD)
  have 2: "R s' (snd (h e s'))" for e using assms(2) by (simp add: keeps_def)
  have 3: "R s' (snd (k a s'))" for a using assms(3) by (simp add: keeps_def)
  show "R s (snd (catchE m h k s))"
    by (cases r) (simp_all add: catchE_def m R_trans [OF 1 2] R_trans [OF 1 3])
qed

lemma keeps_wrapE [keeps_intros]: "keeps R m \<Longrightarrow> keeps R (wrapE f m)"
  by (auto simp: keeps_def wrapE_def split: prod.split sum.split) (metis snd_conv)+

lemma keeps_if [keeps_intros]:
  "(b \<Longrightarrow> keeps R m) \<Longrightarrow> (\<not> b \<Longrightarrow> keeps R n) \<Longrightarrow> keeps R (if b then m else n)"
  by simp

lemma keeps_option [keeps_intros]:
  "keeps R m \<Longrightarrow> (\<And>x. keeps R (f x)) \<Longrightarrow> keeps R (case x of None \<Rightarrow> m | Some y \<Rightarrow> f y)"
  by (simp split: option.split)

lemma keeps_sum [keeps_intros]:
  "(\<And>x. keeps R (f x)) \<Longrightarrow> (\<And>x. keeps R (g x)) \<Longrightarrow> keeps R (case x of Inl y \<Rightarrow> f y | Inr y \<Rightarrow> g y)"
  by (simp split: sum.split)

lemma keeps_prod [keeps_intros]:
  "(\<And>x y. keeps R (f x y)) \<Longrightarrow> keeps R (case p of (x, y) \<Rightarrow> f x y)"
  by (simp split: prod.split)

end

section \<open>Services\<close>

text \<open>
  A storage service with its data and a count of the calls made to it. Each call runs as one
  atomic step; a schedule says what the network does to it: the call works, it never arrives,
  or it takes effect and the answer is lost. A failed SQL statement changes nothing.
\<close>

datatype fault = Fine | Refused | ReplyLost

record 't svc =
  svc_data :: 't
  svc_calls :: nat

definition call :: "(nat \<Rightarrow> fault) \<Rightarrow> 'e \<Rightarrow> ('t \<Rightarrow> ('e + 'a) \<times> 't) \<Rightarrow> ('t svc, 'e, 'a) op" where
  "call F err f s =
    (let (r, t) = f (svc_data s); s' = s\<lparr>svc_calls := Suc (svc_calls s)\<rparr>
     in case F (svc_calls s) of
          Fine \<Rightarrow> (r, s'\<lparr>svc_data := t\<rparr>)
        | Refused \<Rightarrow> (Inl err, s')
        | ReplyLost \<Rightarrow> (Inl err, s'\<lparr>svc_data := t\<rparr>))"

lemma call_cases:
  assumes "call F err f s = (r, s')"
  obtains (worked) "r = fst (f (svc_data s))" and "svc_data s' = snd (f (svc_data s))"
  | (refused) "r = Inl err" and "svc_data s' = svc_data s"
  | (lost) "r = Inl err" and "svc_data s' = snd (f (svc_data s))"
  using assms by (cases "F (svc_calls s)") (auto simp: call_def Let_def split: prod.splits)

lemma call_ok:
  assumes "call F err f s = (Inr a, s')"
  shows "f (svc_data s) = (Inr a, svc_data s')"
  using assms by (cases "F (svc_calls s)") (auto simp: call_def Let_def split: prod.splits)

lemma call_data: "svc_data (snd (call F err f s)) = svc_data s \<or> svc_data (snd (call F err f s)) = snd (f (svc_data s))"
  by (cases "F (svc_calls s)") (auto simp: call_def Let_def split: prod.splits)

lemma call_fine: "F (svc_calls s) = Fine \<Longrightarrow> call F err f s = (fst (f (svc_data s)), \<lparr>svc_data = snd (f (svc_data s)), svc_calls = Suc (svc_calls s)\<rparr>)"
  by (cases s) (simp add: call_def Let_def split: prod.split)

text \<open>
  A transaction: \<^verbatim>\<open>begin\<close>, the statements, \<^verbatim>\<open>commit\<close>. Any failure before the commit, or a commit that
  never arrives, leaves the data as it was; the deferred rollback is a no-op after a commit.
\<close>

definition in_tx :: "(nat \<Rightarrow> fault) \<Rightarrow> 'e \<Rightarrow> ('t svc, 'e, 'a) op \<Rightarrow> ('t svc, 'e, 'a) op" where
  "in_tx F err m s =
    (case call F err (\<lambda>d. (Inr (), d)) s of
       (Inl e, s1) \<Rightarrow> (Inl e, s1)
     | (Inr _, s1) \<Rightarrow>
         (case m s1 of
            (Inl e, s2) \<Rightarrow> (Inl e, s2\<lparr>svc_data := svc_data s1\<rparr>)
          | (Inr a, s2) \<Rightarrow>
              (let s3 = s2\<lparr>svc_calls := Suc (svc_calls s2)\<rparr>
               in case F (svc_calls s2) of
                    Fine \<Rightarrow> (Inr a, s3)
                  | Refused \<Rightarrow> (Inl err, s3\<lparr>svc_data := svc_data s1\<rparr>)
                  | ReplyLost \<Rightarrow> (Inl err, s3))))"

lemma in_tx_atomic:
  assumes "in_tx F err m s = (r, s')"
  obtains (rolled_back) e where "r = Inl e" and "svc_data s' = svc_data s"
  | (committed) a s1 s2 where "svc_data s1 = svc_data s" and "m s1 = (Inr a, s2)" and "svc_data s' = svc_data s2"
      and "r = Inr a \<or> r = Inl err"
  using assms
  by (auto simp: in_tx_def Let_def split: prod.splits sum.splits fault.splits elim!: call_cases)

section \<open>Tables\<close>

text \<open>
  A table is the list of its rows. \<open>sql_update w f\<close> is \<^verbatim>\<open>update \<dots> set \<dots> where \<dots>\<close>: it
  rewrites the rows that satisfy \<open>w\<close> and reports how many there were, which is what
  the \<^verbatim>\<open>:execrows\<close> queries return.
\<close>

definition sql_update :: "('r \<Rightarrow> bool) \<Rightarrow> ('r \<Rightarrow> 'r) \<Rightarrow> 'r list \<Rightarrow> 'r list" where
  "sql_update w f rows = map (\<lambda>r. if w r then f r else r) rows"

definition sql_affected :: "('r \<Rightarrow> bool) \<Rightarrow> 'r list \<Rightarrow> nat" where
  "sql_affected w rows = length (filter w rows)"

lemma sql_affected_pos [simp]: "0 < sql_affected w rows \<longleftrightarrow> (\<exists>r \<in> set rows. w r)"
  by (auto simp: sql_affected_def filter_empty_conv)

lemma sql_update_map_id:
  "(\<And>r. g (f r) = g r) \<Longrightarrow> map g (sql_update w f rows) = map g rows"
  by (induction rows) (auto simp: sql_update_def)

lemma in_sql_update: "y \<in> set (sql_update w f rows) \<longleftrightarrow> (\<exists>x \<in> set rows. y = (if w x then f x else x))"
  by (auto simp: sql_update_def)

lemma length_sql_update [simp]: "length (sql_update w f rows) = length rows"
  by (simp add: sql_update_def)

lemma sql_update_no_match: "\<not> (\<exists>r \<in> set rows. w r) \<Longrightarrow> sql_update w f rows = rows"
  by (auto simp: sql_update_def intro: map_idI)

lemma find_sql_update_key:
  assumes "\<And>r. key (f r) = key r"
  shows "find (\<lambda>r. key r = k) (sql_update w f rows)
    = map_option (\<lambda>r. if w r then f r else r) (find (\<lambda>r. key r = k) rows)"
  using assms by (induction rows) (auto simp: sql_update_def)

lemma find_append: "find P (xs @ ys) = (case find P xs of None \<Rightarrow> find P ys | Some x \<Rightarrow> Some x)"
  by (induction xs) auto

lemma find_None_key: "find (\<lambda>r. key r = k) rows = None \<longleftrightarrow> (\<forall>r \<in> set rows. key r \<noteq> k)"
  by (induction rows) auto

lemma find_SomeD: "find P xs = Some x \<Longrightarrow> x \<in> set xs \<and> P x"
  by (induction xs) (auto split: if_splits)

lemma find_unique_key: "distinct (map key rows) \<Longrightarrow> x \<in> set rows \<Longrightarrow> find (\<lambda>r. key r = key x) rows = Some x"
  by (induction rows) auto

lemma filter_unique_key: "distinct (map key rows) \<Longrightarrow> x \<in> set rows \<Longrightarrow> filter (\<lambda>r. key r = key x) rows = [x]"
  by (induction rows) (auto simp: filter_empty_conv rev_image_eqI dest!: image_eqI [of "key x" key, OF sym])

end
