(* ===== verification/Audio.thy ===== *)
theory Audio
  imports Prelude
begin

text \<open>
  Package \<^verbatim>\<open>internal/audio\<close> (\<^verbatim>\<open>wav.go\<close>): the RIFF header the gateway puts in front of the
  worker's PCM16, and the arithmetic on PCM sizes. Sizes that the header holds are 32-bit
  words, the rest are Go integers. The writer is a parameter.
\<close>

section \<open>Model\<close>

definition HeaderSize :: int where "HeaderSize = 44"

definition bitsPerSample :: int where "bitsPerSample = 16"

definition channels :: int where "channels = 1"

definition pcmFormatCode :: int where "pcmFormatCode = 1"

definition UnknownSize :: "32 word" where "UnknownSize = 0xFFFFFFFF"

lemmas wav_consts [go_simps] =
  HeaderSize_def bitsPerSample_def channels_def pcmFormatCode_def UnknownSize_def

datatype audio_error = BadSampleRate int | TooLarge int | NegativeSize int | WriteFailed

text \<open>\<^verbatim>\<open>binary.LittleEndian.AppendUint16\<close> and \<^verbatim>\<open>AppendUint32\<close>, and a string literal as bytes.\<close>

definition le16 :: "16 word \<Rightarrow> byte list" where
  "le16 x = [ucast x, ucast (drop_bit 8 x)]"

definition le32 :: "32 word \<Rightarrow> byte list" where
  "le32 x = [ucast x, ucast (drop_bit 8 x), ucast (drop_bit 16 x), ucast (drop_bit 24 x)]"

definition ascii :: "string \<Rightarrow> byte list" where
  "ascii s = map of_char s"

text \<open>The bytes \<^verbatim>\<open>WriteHeader\<close> builds before it writes them.\<close>

definition wav_header :: "int \<Rightarrow> 32 word \<Rightarrow> audio_error + byte list" where
  "wav_header sampleRate dataSize =
    (if sampleRate \<le> 0 then Inl (BadSampleRate sampleRate)
     else
       let byteRate = (word_of_int sampleRate * word_of_int channels * word_of_int bitsPerSample) div 8 :: 32 word;
           blockAlign = word_of_int (channels * bitsPerSample div 8) :: 16 word
       in if dataSize \<noteq> UnknownSize \<and> dataSize > 0xFFFFFFFF - word_of_int HeaderSize
          then Inl (TooLarge (uint dataSize))
          else
            let riffSize = (if dataSize \<noteq> UnknownSize then dataSize + word_of_int HeaderSize - 8
                            else UnknownSize)
            in Inr (ascii ''RIFF'' @ le32 riffSize @ ascii ''WAVE'' @ ascii ''fmt ''
                 @ le32 16 @ le16 (word_of_int pcmFormatCode) @ le16 (word_of_int channels)
                 @ le32 (word_of_int sampleRate) @ le32 byteRate @ le16 blockAlign
                 @ le16 (word_of_int bitsPerSample) @ ascii ''data'' @ le32 dataSize))"

definition WriteHeader :: "(byte list \<Rightarrow> 'w \<Rightarrow> bool \<times> 'w) \<Rightarrow> int \<Rightarrow> 32 word
    \<Rightarrow> ('w, audio_error, unit) op" where
  "WriteHeader write sampleRate dataSize w =
    (case wav_header sampleRate dataSize of
       Inl e \<Rightarrow> (Inl e, w)
     | Inr header \<Rightarrow> (case write header w of
           (True, w') \<Rightarrow> (Inr (), w')
         | (False, w') \<Rightarrow> (Inl WriteFailed, w')))"

definition DurationMS :: "int \<Rightarrow> int \<Rightarrow> int" where
  "DurationMS pcmBytes sampleRate =
    (if sampleRate \<le> 0 \<or> pcmBytes \<le> 0 then 0
     else
       let samples = go_quot pcmBytes (bitsPerSample div 8);
           ms = go_quot (wrap64 (samples * 1000)) sampleRate
       in if ms > MaxInt32 then MaxInt32 else wrap32 ms)"

definition PCMSize :: "int \<Rightarrow> audio_error + 32 word" where
  "PCMSize pcmBytes =
    (if pcmBytes < 0 then Inl (NegativeSize pcmBytes)
     else if pcmBytes > 0xFFFFFFFF - HeaderSize then Inl (TooLarge pcmBytes)
     else Inr (word_of_int pcmBytes))"

section \<open>Lemmas\<close>

lemma length_le [simp]: "length (le16 x) = 2" "length (le32 y) = 4"
  by (simp_all add: le16_def le32_def)

lemma length_ascii [simp]: "length (ascii s) = length s"
  by (simp add: ascii_def)

text \<open>A reader of little-endian fields, to say what a header means.\<close>

definition rd16 :: "byte list \<Rightarrow> nat \<Rightarrow> 16 word" where
  "rd16 bs i = or (ucast (bs ! i)) (push_bit 8 (ucast (bs ! (i + 1))))"

definition rd32 :: "byte list \<Rightarrow> nat \<Rightarrow> 32 word" where
  "rd32 bs i = or (or (ucast (bs ! i)) (push_bit 8 (ucast (bs ! (i + 1)))))
     (or (push_bit 16 (ucast (bs ! (i + 2)))) (push_bit 24 (ucast (bs ! (i + 3)))))"

lemma le16_join:
  "or (ucast (ucast x :: byte)) (push_bit 8 (ucast (ucast (drop_bit 8 x) :: byte))) = x"
  for x :: "16 word"
  by (rule bit_word_eqI) (auto simp: bit_simps)

lemma le32_join:
  "or (or (ucast (ucast x :: byte)) (push_bit 8 (ucast (ucast (drop_bit 8 x) :: byte))))
     (or (push_bit 16 (ucast (ucast (drop_bit 16 x) :: byte)))
       (push_bit 24 (ucast (ucast (drop_bit 24 x) :: byte)))) = x"
  for x :: "32 word"
proof (rule bit_word_eqI)
  fix n
  assume "n < LENGTH(32)"
  then consider "n < 8" | "8 \<le> n" "n < 16" | "16 \<le> n" "n < 24" | "24 \<le> n" "n < 32"
    by fastforce
  then show "bit (or (or (ucast (ucast x :: byte)) (push_bit 8 (ucast (ucast (drop_bit 8 x) :: byte))))
     (or (push_bit 16 (ucast (ucast (drop_bit 16 x) :: byte)))
       (push_bit 24 (ucast (ucast (drop_bit 24 x) :: byte)))) :: 32 word) n = bit x n"
    by cases (auto simp: bit_simps)
qed

lemma wav_header_ok_iff:
  "(\<exists>h. wav_header r n = Inr h) \<longleftrightarrow> 0 < r \<and> (n = UnknownSize \<or> uint n \<le> 0xFFFFFFFF - HeaderSize)"
  by (auto simp: wav_header_def Let_def wav_consts word_less_def word_le_def not_less)

lemma length_wav_header: "wav_header r n = Inr h \<Longrightarrow> length h = 44"
  by (auto simp: wav_header_def Let_def split: if_splits)

lemma wav_header_eq:
  assumes "wav_header r n = Inr h"
  shows "h = ascii ''RIFF'' @ le32 (if n = UnknownSize then UnknownSize else n + 36)
      @ ascii ''WAVE'' @ ascii ''fmt '' @ le32 16 @ le16 1 @ le16 1
      @ le32 (word_of_int r) @ le32 ((word_of_int r * 16) div 8)
      @ le16 2 @ le16 16 @ ascii ''data'' @ le32 n"
  using assms by (auto simp: wav_header_def wav_consts Let_def add.commute split: if_splits)

lemma wav_header_fields:
  assumes "wav_header r n = Inr h"
  shows "rd32 h 4 = (if n = UnknownSize then UnknownSize else n + 36)"
    and "rd16 h 22 = 1" and "rd32 h 24 = word_of_int r"
    and "rd32 h 28 = (word_of_int r * 16) div 8" and "rd16 h 34 = 16" and "rd32 h 40 = n"
  unfolding wav_header_eq [OF assms]
  by (simp_all add: rd32_def rd16_def le32_def le16_def ascii_def le32_join
      le32_join [where x = n, simplified])

lemma byte_rate_exact: "0 < r \<Longrightarrow> r < 2 ^ 28 \<Longrightarrow> uint ((word_of_int r * 16) div 8 :: 32 word) = 2 * r"
  by (simp add: uint_div uint_word_ariths take_bit_eq_mod unsigned_of_int zmod_trivial_iff)

section \<open>Properties\<close>



text \<open>
  \<^verbatim>\<open>DurationMS\<close> is the exact number of milliseconds, rounded down, clamped to the
  int32 range and never negative; no intermediate product wraps for any buffer of up to
  \<open>2 ^ 53\<close> bytes.
\<close>

theorem DurationMS_exact:
  assumes "0 \<le> pcm" and "pcm \<le> 2 ^ 53" and "0 < rate"
  shows "DurationMS pcm rate = min MaxInt32 (pcm div 2 * 1000 div rate) \<and> 0 \<le> DurationMS pcm rate"
proof -
  have "pcm div 2 * 1000 \<le> MaxInt64" using assms(2) by (simp add: MaxInt64_def)
  moreover have "0 \<le> pcm div 2 * 1000 div rate"
    using assms by (simp add: pos_imp_zdiv_nonneg_iff)
  ultimately show ?thesis
    using assms by (cases "pcm = 0")
      (auto simp: DurationMS_def Let_def wav_consts MaxInt32_def min_def)
qed

theorem DurationMS_exact_witness:
  "DurationMS 96001 48000 = min MaxInt32 (96001 div 2 * 1000 div 48000) \<and> 0 \<le> DurationMS 96001 48000"
  using DurationMS_exact [of 96001 48000] by (simp add: MaxInt32_def)

end
