(* ===== verification/Go_Strings.thy ===== *)
theory Go_Strings
  imports Prelude
begin

text \<open>
  The parts of Go's \<^verbatim>\<open>string\<close>, \<^verbatim>\<open>strings\<close>, \<^verbatim>\<open>strconv\<close> and \<^verbatim>\<open>encoding/hex\<close> that the gateway uses.
  A Go string is its bytes, an Isabelle \<^typ>\<open>string\<close>; \<^verbatim>\<open>len(s)\<close> is \<^const>\<open>length\<close>, and
  \<^verbatim>\<open>[]rune(s)\<close> decodes UTF-8 as Go does, an undecodable byte becoming U+FFFD.
\<close>

section \<open>Runes\<close>

abbreviation cont :: "nat \<Rightarrow> bool" where
  "cont b \<equiv> 128 \<le> b \<and> b \<le> 191"

definition RuneError :: nat where "RuneError = 65533"

text \<open>One step of UTF-8 decoding on the bytes ahead: the rune and its width.\<close>

fun utf8_step :: "nat list \<Rightarrow> nat \<times> nat" where
  "utf8_step [] = (RuneError, 0)"
| "utf8_step (b0 # bs) =
    (if b0 < 128 then (b0, 1)
     else if 194 \<le> b0 \<and> b0 \<le> 223 then
       (case bs of b1 # _ \<Rightarrow>
          if cont b1 then ((b0 - 192) * 64 + (b1 - 128), 2) else (RuneError, 1)
        | _ \<Rightarrow> (RuneError, 1))
     else if 224 \<le> b0 \<and> b0 \<le> 239 then
       (case bs of b1 # b2 # _ \<Rightarrow>
          if (if b0 = 224 then 160 else 128) \<le> b1 \<and> b1 \<le> (if b0 = 237 then 159 else 191) \<and> cont b2
          then ((b0 - 224) * 4096 + (b1 - 128) * 64 + (b2 - 128), 3) else (RuneError, 1)
        | _ \<Rightarrow> (RuneError, 1))
     else if 240 \<le> b0 \<and> b0 \<le> 244 then
       (case bs of b1 # b2 # b3 # _ \<Rightarrow>
          if (if b0 = 240 then 144 else 128) \<le> b1 \<and> b1 \<le> (if b0 = 244 then 143 else 191)
             \<and> cont b2 \<and> cont b3
          then ((b0 - 240) * 262144 + (b1 - 128) * 4096 + (b2 - 128) * 64 + (b3 - 128), 4)
          else (RuneError, 1)
        | _ \<Rightarrow> (RuneError, 1))
     else (RuneError, 1))"

text \<open>The runes of a string, each with the bytes it was decoded from.\<close>

fun decode_runes :: "string \<Rightarrow> (nat \<times> string) list" where
  "decode_runes [] = []"
| "decode_runes (c # cs) =
    (let (r, w) = utf8_step (map of_char (c # cs))
     in (r, take w (c # cs)) # decode_runes (drop (w - 1) cs))"

definition rune_len :: "string \<Rightarrow> int" where
  "rune_len s = int (length (decode_runes s))"

declare decode_runes.simps(2) [simp del] utf8_step.simps(2) [simp del]

lemma utf8_step_ascii [simp]: "b < 128 \<Longrightarrow> utf8_step (b # bs) = (b, 1)"
  by (simp add: utf8_step.simps(2))

lemma utf8_width_pos: "0 < snd (utf8_step (b # bs))"
  by (auto simp: utf8_step.simps(2) split: list.split)

lemma decode_runes_Cons:
  obtains r w where "0 < w" and "decode_runes (c # cs) = (r, take w (c # cs)) # decode_runes (drop (w - 1) cs)"
    and "(r, w) = utf8_step (map of_char (c # cs))"
proof -
  obtain r w where rw: "utf8_step (map of_char (c # cs)) = (r, w)" by fastforce
  moreover have "0 < w" using utf8_width_pos [of "of_char c" "map of_char cs"] rw by simp
  moreover have "decode_runes (c # cs) = (r, take w (c # cs)) # decode_runes (drop (w - 1) cs)"
    by (simp only: decode_runes.simps(2) rw Let_def prod.case)
  ultimately show ?thesis by (intro that [of w r]) simp_all
qed

lemma decode_runes_ascii [simp]:
  "(of_char c :: nat) < 128 \<Longrightarrow> decode_runes (c # cs) = (of_char c, [c]) # decode_runes cs"
  by (simp add: decode_runes.simps(2))

lemma decode_runes_concat: "concat (map snd (decode_runes s)) = s"
proof (induction s rule: length_induct)
  case (1 s)
  show ?case
  proof (cases s)
    case (Cons c cs)
    obtain r w where w: "0 < w"
      and d: "decode_runes (c # cs) = (r, take w (c # cs)) # decode_runes (drop (w - 1) cs)"
      by (rule decode_runes_Cons)
    have "take w (c # cs) @ drop (w - 1) cs = c # cs" using w by (cases w) auto
    then show ?thesis using "1.IH" Cons d by simp
  qed simp
qed

lemma rune_len_nonneg [simp]: "0 \<le> rune_len s"
  by (simp add: rune_len_def)

lemma rune_len_empty [simp]: "rune_len s = 0 \<longleftrightarrow> s = []"
proof (cases s)
  case (Cons c cs)
  obtain r w where "decode_runes (c # cs) = (r, take w (c # cs)) # decode_runes (drop (w - 1) cs)"
    by (rule decode_runes_Cons)
  with Cons show ?thesis by (simp add: rune_len_def)
qed (simp add: rune_len_def)

lemma rune_len_Nil [simp]: "rune_len [] = 0"
  by simp

lemma rune_len_le: "rune_len s \<le> int (length s)"
proof (induction s rule: length_induct)
  case (1 s)
  show ?case
  proof (cases s)
    case (Cons c cs)
    obtain r w where d: "decode_runes (c # cs) = (r, take w (c # cs)) # decode_runes (drop (w - 1) cs)"
      by (rule decode_runes_Cons)
    have "rune_len (drop (w - 1) cs) \<le> int (length (drop (w - 1) cs))"
      by (rule "1.IH" [rule_format]) (simp add: Cons)
    then show ?thesis using Cons d by (simp add: rune_len_def)
  qed simp
qed

lemma rune_len_ascii: "\<forall>c \<in> set s. (of_char c :: nat) < 128 \<Longrightarrow> rune_len s = int (length s)"
  by (induction s) (auto simp: rune_len_def)

section \<open>Package strings\<close>

text \<open>\<^verbatim>\<open>unicode.IsSpace\<close>.\<close>

definition IsSpace :: "nat \<Rightarrow> bool" where
  "IsSpace r \<longleftrightarrow> (9 \<le> r \<and> r \<le> 13) \<or> r = 32 \<or> r = 133 \<or> r = 160 \<or> r = 5760
    \<or> (8192 \<le> r \<and> r \<le> 8202) \<or> r = 8232 \<or> r = 8233 \<or> r = 8239 \<or> r = 8287 \<or> r = 12288"

text \<open>Maximal runs of elements that do not satisfy the separator predicate.\<close>

function split_fields :: "('r \<Rightarrow> bool) \<Rightarrow> 'r list \<Rightarrow> 'r list list" where
  "split_fields p [] = []"
| "split_fields p (x # xs) =
    (if p x then split_fields p xs
     else (x # takeWhile (\<lambda>y. \<not> p y) xs) # split_fields p (dropWhile (\<lambda>y. \<not> p y) xs))"
  by pat_completeness auto
termination
  by (relation "measure (\<lambda>(p, xs). length xs)") (auto simp: le_imp_less_Suc length_dropWhile_le)

definition Fields :: "string \<Rightarrow> string list" where
  "Fields s = map (\<lambda>f. concat (map snd f)) (split_fields (\<lambda>(r, _). IsSpace r) (decode_runes s))"

fun Join :: "string list \<Rightarrow> string \<Rightarrow> string" where
  "Join [] sep = []"
| "Join [x] sep = x"
| "Join (x # y # ys) sep = x @ sep @ Join (y # ys) sep"

definition TrimSpace :: "string \<Rightarrow> string" where
  "TrimSpace s = (let sp = (\<lambda>(r, _). IsSpace r)
     in concat (map snd (rev (dropWhile sp (rev (dropWhile sp (decode_runes s)))))))"

definition HasPrefix :: "string \<Rightarrow> string \<Rightarrow> bool" where
  "HasPrefix s p \<longleftrightarrow> take (length p) s = p"

text \<open>\<^verbatim>\<open>strings.EqualFold\<close> on ASCII strings, or where one side is ASCII with no K or S, as in its uses here.\<close>

definition ascii_lower :: "char \<Rightarrow> char" where
  "ascii_lower c = (let n = of_char c :: nat in if 65 \<le> n \<and> n \<le> 90 then char_of (n + 32) else c)"

definition EqualFold :: "string \<Rightarrow> string \<Rightarrow> bool" where
  "EqualFold s t \<longleftrightarrow> map ascii_lower s = map ascii_lower t"

lemma HasPrefix_append [simp]: "HasPrefix (p @ s) p"
  by (simp add: HasPrefix_def)

lemma HasPrefixE: "HasPrefix s p \<Longrightarrow> (\<And>r. s = p @ r \<Longrightarrow> P) \<Longrightarrow> P"
  unfolding HasPrefix_def by (metis append_take_drop_id)

section \<open>Package strconv and hexadecimal digits\<close>

definition digit :: "nat \<Rightarrow> char" where
  "digit n = char_of (if n < 10 then 48 + n else 87 + n)"

fun dec :: "nat \<Rightarrow> string" where
  "dec n = (if n < 10 then [digit n] else dec (n div 10) @ [digit (n mod 10)])"

declare dec.simps [simp del]

definition Itoa :: "int \<Rightarrow> string" where
  "Itoa i = (if i < 0 then ''-'' @ dec (nat (- i)) else dec (nat i))"

definition FormatBool :: "bool \<Rightarrow> string" where
  "FormatBool b = (if b then ''true'' else ''false'')"

definition hex :: "byte list \<Rightarrow> string" where
  "hex bs = concat (map (\<lambda>b. [digit (unat b div 16), digit (unat b mod 16)]) bs)"

definition pad :: "nat \<Rightarrow> string \<Rightarrow> string" where
  "pad n s = replicate (n - length s) CHR ''0'' @ s"

text \<open>Reading the digits back, which gives that printing is injective.\<close>

definition undigit :: "char \<Rightarrow> nat" where
  "undigit c = of_char c - 48"

definition undec :: "string \<Rightarrow> nat" where
  "undec s = foldl (\<lambda>a c. a * 10 + undigit c) 0 s"

lemma of_char_digit: "n < 16 \<Longrightarrow> (of_char (digit n) :: nat) = (if n < 10 then 48 + n else 87 + n)"
  by (auto simp: digit_def)

lemma undec_dec: "undec (dec n) = n"
proof (induction n rule: dec.induct)
  case (1 n)
  show ?case
  proof (cases "n < 10")
    case True
    then show ?thesis by (subst dec.simps) (simp add: undec_def undigit_def of_char_digit)
  next
    case False
    then have "undec (dec (n div 10)) = n div 10" by (rule "1.IH")
    with False show ?thesis
      by (subst dec.simps) (simp add: undec_def undigit_def of_char_digit)
  qed
qed

lemma dec_digits: "c \<in> set (dec n) \<Longrightarrow> 48 \<le> (of_char c :: nat) \<and> (of_char c :: nat) \<le> 57"
proof (induction n rule: dec.induct)
  case (1 n)
  then show ?case
    by (cases "n < 10") (subst (asm) (2) dec.simps, auto simp: of_char_digit)+
qed

lemma dec_inj: "dec m = dec n \<Longrightarrow> m = n"
  by (metis undec_dec)

lemma minus_not_in_dec: "CHR ''-'' \<notin> set (dec n)"
  using dec_digits [of "CHR ''-''" n] by auto

lemma Itoa_inj [simp]: "Itoa i = Itoa j \<longleftrightarrow> i = j"
proof (cases "i < 0"; cases "j < 0")
  assume "i < 0" "j < 0"
  then show ?thesis using dec_inj [of "nat (- i)" "nat (- j)"] by (auto simp: Itoa_def)
next
  assume "i < 0" "\<not> j < 0"
  then show ?thesis using minus_not_in_dec [of "nat j"] by (auto simp: Itoa_def dest: sym)
next
  assume "\<not> i < 0" "j < 0"
  then show ?thesis using minus_not_in_dec [of "nat i"] by (auto simp: Itoa_def dest: sym)
next
  assume "\<not> i < 0" "\<not> j < 0"
  then show ?thesis using dec_inj [of "nat i" "nat j"] by (auto simp: Itoa_def)
qed

lemma Itoa_chars: "c \<in> set (Itoa i) \<Longrightarrow> c = CHR ''-'' \<or> (48 \<le> (of_char c :: nat) \<and> (of_char c :: nat) \<le> 57)"
  using dec_digits by (auto simp: Itoa_def split: if_splits)

lemma length_hex [simp]: "length (hex bs) = 2 * length bs"
  by (induction bs) (auto simp: hex_def)

lemma digit_inj: "m < 16 \<Longrightarrow> n < 16 \<Longrightarrow> digit m = digit n \<Longrightarrow> m = n"
  by (drule arg_cong [where f = "of_char :: char \<Rightarrow> nat"]) (auto simp: of_char_digit split: if_splits)

lemma hex_inj: "hex as = hex bs \<Longrightarrow> as = bs"
proof (induction as arbitrary: bs)
  case Nil
  then show ?case using length_hex [of bs] by (auto simp: hex_def)
next
  case (Cons a as)
  then obtain b bs' where bs: "bs = b # bs'" by (cases bs) (auto simp: hex_def)
  have "unat x < 256" for x :: byte
    using unsigned_less [of x] by (simp add: nat_less_iff flip: unat_eq_nat_uint)
  then have lt: "unat x div 16 < 16" "unat x mod 16 < 16" for x :: byte
    by (simp_all add: less_mult_imp_div_less)
  have "unat a div 16 = unat b div 16" "unat a mod 16 = unat b mod 16" "hex as = hex bs'"
    using Cons.prems lt [of a] lt [of b] digit_inj unfolding bs by (auto simp: hex_def)
  then have "unat a = unat b" by (metis div_mult_mod_eq)
  then show ?case using Cons.IH \<open>hex as = hex bs'\<close> bs by (simp add: word_unat_eq_iff)
qed

lemma length_pad: "length s \<le> n \<Longrightarrow> length (pad n s) = n"
  by (simp add: pad_def)

text \<open>\<^verbatim>\<open>strconv.ParseInt\<close> in base 10: an optional sign, digits only, and the range of the width.\<close>

definition is_digit :: "char \<Rightarrow> bool" where
  "is_digit c \<longleftrightarrow> 48 \<le> (of_char c :: nat) \<and> (of_char c :: nat) \<le> 57"

definition ParseInt :: "nat \<Rightarrow> string \<Rightarrow> int option" where
  "ParseInt bits s =
    (let neg = (s \<noteq> [] \<and> hd s = CHR ''-'');
         ds = (if s \<noteq> [] \<and> (hd s = CHR ''-'' \<or> hd s = CHR ''+'') then tl s else s);
         v = (if neg then - int (undec ds) else int (undec ds))
     in if ds = [] \<or> \<not> list_all is_digit ds then None
        else if - (2 ^ (bits - 1)) \<le> v \<and> v < 2 ^ (bits - 1) then Some v else None)"

lemma dec_not_empty [simp]: "dec n \<noteq> []"
  by (subst dec.simps) simp

lemma dec_all_digits: "list_all is_digit (dec n)"
  using dec_digits [of _ n] by (auto simp: list_all_iff is_digit_def)

lemma dec_hd: "hd (dec n) \<noteq> CHR ''-''" "hd (dec n) \<noteq> CHR ''+''"
  using dec_digits [of "hd (dec n)" n] by auto

lemma ParseInt_Itoa: "- (2 ^ (bits - 1)) \<le> i \<Longrightarrow> i < 2 ^ (bits - 1) \<Longrightarrow> ParseInt bits (Itoa i) = Some i"
  using dec_hd [of "nat i"] by (auto simp: ParseInt_def Itoa_def undec_dec dec_all_digits Let_def)

lemma append_sep_inj:
  "c \<notin> set a \<Longrightarrow> c \<notin> set b \<Longrightarrow> a @ c # x = b @ c # y \<longleftrightarrow> a = b \<and> x = y"
proof (induction a arbitrary: b)
  case Nil
  then show ?case by (cases b) auto
next
  case (Cons h t)
  then show ?case by (cases b) auto
qed

definition plain :: "char \<Rightarrow> bool" where
  "plain c \<longleftrightarrow> (of_char c :: nat) < 128 \<and> \<not> IsSpace (of_char c)"

lemma decode_runes_plain: "list_all plain s \<Longrightarrow> decode_runes s = map (\<lambda>c. (of_char c, [c])) s"
  by (induction s) (auto simp: plain_def)

lemma dropWhile_id: "(\<And>x. x \<in> set xs \<Longrightarrow> \<not> P x) \<Longrightarrow> dropWhile P xs = xs"
  by (cases xs) auto

lemma TrimSpace_plain: "list_all plain s \<Longrightarrow> TrimSpace s = s"
proof -
  assume a: "list_all plain s"
  have "dropWhile (\<lambda>(r, _). IsSpace r) xs = xs" if "set xs \<subseteq> set (decode_runes s)" for xs :: "(nat \<times> string) list"
    using that a by (intro dropWhile_id) (auto simp: decode_runes_plain plain_def list_all_iff)
  then show ?thesis using decode_runes_concat [of s] by (simp add: TrimSpace_def)
qed

end
