(* ===== verification/Redis.thy ===== *)
theory Redis
  imports Go_Strings
begin

text \<open>
  The Redis adapters of \<^verbatim>\<open>internal/storage/redis\<close>. The server is a parameter \<open>exec\<close>: it runs a
  list of commands as one unit (a single command, or the commands of a \<^verbatim>\<open>TxPipeline\<close>) and
  answers with their replies or an error. What the adapters rely on is the documented effect
  of each command on the key it names, stated as the locale \<open>redis_server\<close>.
\<close>

section \<open>Commands\<close>

datatype redis_cmd =
    GET string
  | INCRBY string int
  | EXPIRE string int
  | SET string int int
  | SETNX string string int
  | COMPARE_DEL string string  \<comment> \<open>the release script: delete the key if it holds the value\<close>

datatype reply = RNil | RInt int | ROk

datatype redis_error = ConnError

type_synonym 'w redis = "redis_cmd list \<Rightarrow> 'w \<Rightarrow> (redis_error + reply list) \<times> 'w"

section \<open>Counter (\<^verbatim>\<open>counter.go\<close>)\<close>

datatype store_error = StoreFailed

definition Counter_Get :: "'w redis \<Rightarrow> string \<Rightarrow> ('w, store_error, int) op" where
  "Counter_Get rdb key w =
    (case rdb [GET key] w of
       (Inr (RInt v # _), w') \<Rightarrow> (Inr v, w')
     | (Inr (RNil # _), w') \<Rightarrow> (Inr 0, w')
     | (_, w') \<Rightarrow> (Inl StoreFailed, w'))"

definition Counter_Add :: "'w redis \<Rightarrow> string \<Rightarrow> int \<Rightarrow> int \<Rightarrow> ('w, store_error, unit) op" where
  "Counter_Add rdb key delta ttl w =
    (case rdb [INCRBY key delta, EXPIRE key ttl] w of
       (Inr _, w') \<Rightarrow> (Inr (), w')
     | (Inl _, w') \<Rightarrow> (Inl StoreFailed, w'))"

definition Counter_Set :: "'w redis \<Rightarrow> string \<Rightarrow> int \<Rightarrow> int \<Rightarrow> ('w, store_error, unit) op" where
  "Counter_Set rdb key value ttl w =
    (case rdb [SET key value ttl] w of
       (Inr _, w') \<Rightarrow> (Inr (), w')
     | (Inl _, w') \<Rightarrow> (Inl StoreFailed, w'))"

section \<open>Lock (\<^verbatim>\<open>lock.go\<close>)\<close>

text \<open>
  \<^verbatim>\<open>Acquire\<close> answers whether the lock was taken; the release closure it returns is
  \<open>Lock_Release\<close> with the token it drew.
\<close>

definition Lock_Acquire :: "'w redis \<Rightarrow> string \<Rightarrow> string \<Rightarrow> int \<Rightarrow> ('w, store_error, bool) op" where
  "Lock_Acquire rdb token name ttl w =
    (case rdb [SETNX name token ttl] w of
       (Inr (RInt v # _), w') \<Rightarrow> (Inr (v = 1), w')
     | (_, w') \<Rightarrow> (Inl StoreFailed, w'))"

definition Lock_Release :: "'w redis \<Rightarrow> string \<Rightarrow> string \<Rightarrow> 'w \<Rightarrow> 'w" where
  "Lock_Release rdb token name w = snd (rdb [COMPARE_DEL name token] w)"

section \<open>What the adapters rely on\<close>

text \<open>
  \<open>ints\<close> and \<open>strs\<close> read the integer and string values of the keyspace. A read changes
  nothing; a command that succeeds has its documented effect and no other.
\<close>

locale redis_server =
  fixes rdb :: "'w redis"
    and ints :: "'w \<Rightarrow> string \<Rightarrow> int option"
    and strs :: "'w \<Rightarrow> string \<Rightarrow> string option"
  assumes get_frame: "rdb [GET k] w = (r, w') \<Longrightarrow> ints w' = ints w \<and> strs w' = strs w"
    and get_reply: "rdb [GET k] w = (Inr rs, w') \<Longrightarrow>
      rs = [case ints w k of None \<Rightarrow> RNil | Some v \<Rightarrow> RInt v]"
    and incr_effect: "rdb [INCRBY k d, EXPIRE k t] w = (Inr rs, w') \<Longrightarrow>
      ints w' = (ints w)(k \<mapsto> (case ints w k of None \<Rightarrow> d | Some v \<Rightarrow> v + d)) \<and> strs w' = strs w"
    and set_effect: "rdb [SET k v t] w = (Inr rs, w') \<Longrightarrow>
      ints w' = (ints w)(k \<mapsto> v) \<and> strs w' = strs w"
    and setnx_effect: "rdb [SETNX k s t] w = (Inr rs, w') \<Longrightarrow>
      ints w' = ints w \<and>
      (if strs w k = None then strs w' = (strs w)(k \<mapsto> s) \<and> rs = [RInt 1]
       else strs w' = strs w \<and> rs = [RInt 0])"
    and compare_del_effect: "rdb [COMPARE_DEL k s] w = (Inr rs, w') \<Longrightarrow>
      ints w' = ints w \<and>
      strs w' = (if strs w k = Some s then (strs w)(k := None) else strs w)"
    and compare_del_fail: "rdb [COMPARE_DEL k s] w = (Inl e, w') \<Longrightarrow> ints w' = ints w \<and> strs w' = strs w"

text \<open>
  An in-memory keyspace with a switch that takes the server down. It satisfies the laws, and
  the witnesses of the properties that assume them evaluate on it.
\<close>

record mem =
  mem_ints :: "string \<Rightarrow> int option"
  mem_strs :: "string \<Rightarrow> string option"
  mem_up :: bool

fun mem_cmd :: "redis_cmd \<Rightarrow> mem \<Rightarrow> reply \<times> mem" where
  "mem_cmd (GET k) w = ((case mem_ints w k of None \<Rightarrow> RNil | Some v \<Rightarrow> RInt v), w)"
| "mem_cmd (INCRBY k d) w =
    (let v = (case mem_ints w k of None \<Rightarrow> d | Some v \<Rightarrow> v + d)
     in (RInt v, w\<lparr>mem_ints := (mem_ints w)(k \<mapsto> v)\<rparr>))"
| "mem_cmd (EXPIRE k t) w = (RInt (if mem_ints w k = None then 0 else 1), w)"
| "mem_cmd (SET k v t) w = (ROk, w\<lparr>mem_ints := (mem_ints w)(k \<mapsto> v)\<rparr>)"
| "mem_cmd (SETNX k s t) w =
    (if mem_strs w k = None then (RInt 1, w\<lparr>mem_strs := (mem_strs w)(k \<mapsto> s)\<rparr>) else (RInt 0, w))"
| "mem_cmd (COMPARE_DEL k s) w =
    (if mem_strs w k = Some s then (RInt 1, w\<lparr>mem_strs := (mem_strs w)(k := None)\<rparr>) else (RInt 0, w))"

fun mem_exec :: "redis_cmd list \<Rightarrow> mem \<Rightarrow> reply list \<times> mem" where
  "mem_exec [] w = ([], w)"
| "mem_exec (c # cs) w = (let (r, w') = mem_cmd c w; (rs, w'') = mem_exec cs w' in (r # rs, w''))"

definition mem_redis :: "mem redis" where
  "mem_redis cs w = (if mem_up w then (let (rs, w') = mem_exec cs w in (Inr rs, w')) else (Inl ConnError, w))"

definition mem_empty :: mem where
  "mem_empty = \<lparr>mem_ints = Map.empty, mem_strs = Map.empty, mem_up = True\<rparr>"

interpretation mem: redis_server mem_redis mem_ints mem_strs
  by unfold_locales (auto simp: mem_redis_def Let_def split: if_splits option.splits)

lemma mem_redis_server: "redis_server mem_redis mem_ints mem_strs"
  by (rule mem.redis_server_axioms)

section \<open>Lemmas\<close>

context redis_server
begin

text \<open>The month counter as the quota service sees it: an absent key counts as zero.\<close>

definition count :: "'w \<Rightarrow> string \<Rightarrow> int" where
  "count w k = (case ints w k of None \<Rightarrow> 0 | Some v \<Rightarrow> v)"

lemma Counter_Get_frame: "Counter_Get rdb k w = (r, w') \<Longrightarrow> count w' = count w \<and> strs w' = strs w"
  using get_frame
  by (auto simp: Counter_Get_def count_def fun_eq_iff split: prod.splits sum.splits list.splits reply.splits)

lemma Counter_Get_value: "Counter_Get rdb k w = (Inr v, w') \<Longrightarrow> v = count w k"
  using get_reply
  by (fastforce simp: Counter_Get_def count_def split: prod.splits sum.splits list.splits reply.splits option.splits)

lemma Counter_Add_effect:
  "Counter_Add rdb k d t w = (Inr u, w') \<Longrightarrow> count w' = (count w)(k := count w k + d)"
  using incr_effect
  by (fastforce simp: Counter_Add_def count_def fun_eq_iff split: prod.splits sum.splits option.splits)

lemma Counter_Set_effect: "Counter_Set rdb k v t w = (Inr u, w') \<Longrightarrow> count w' = (count w)(k := v)"
  using set_effect
  by (fastforce simp: Counter_Set_def count_def fun_eq_iff split: prod.splits sum.splits option.splits)

lemma Lock_Acquire_effect:
  assumes "Lock_Acquire rdb tok k t w = (Inr ok, w')"
  shows "ok \<longleftrightarrow> strs w k = None" and "strs w' = (if ok then (strs w)(k \<mapsto> tok) else strs w)"
  using assms
  by (auto simp: Lock_Acquire_def dest!: setnx_effect
      split: prod.splits sum.splits list.splits reply.splits if_splits)

lemma Lock_Release_effect:
  "strs (Lock_Release rdb tok k w) = strs w
   \<or> (strs w k = Some tok \<and> strs (Lock_Release rdb tok k w) = (strs w)(k := None))"
proof (cases "rdb [COMPARE_DEL k tok] w")
  case (Pair r w')
  then show ?thesis
    using compare_del_effect compare_del_fail by (cases r) (fastforce simp: Lock_Release_def)+
qed

end

section \<open>Properties\<close>

text \<open>
  The maintenance lock is mutual exclusion by token. An acquire succeeds only when no
  one holds the name, a release with a token that is not the holder's leaves the holder in
  place, and a second acquire while it is held is refused and changes nothing.
\<close>

theorem lock_release_only_by_holder:
  assumes "redis_server rdb ints strs"
    and "Lock_Acquire rdb tok1 name ttl w = (Inr True, w1)"
    and "Lock_Acquire rdb tok2 name ttl w1 = (Inr ok, w2)"
    and "tok \<noteq> tok1"
  shows "strs w name = None \<and> \<not> ok \<and> strs w2 name = Some tok1
    \<and> strs (Lock_Release rdb tok name w2) name = Some tok1"
proof -
  note acq = redis_server.Lock_Acquire_effect [OF assms(1)]
  have 1: "strs w name = None" "strs w1 = (strs w)(name \<mapsto> tok1)" using acq [OF assms(2)] by auto
  with acq [OF assms(3)] have 2: "\<not> ok" "strs w2 name = Some tok1" by auto
  with redis_server.Lock_Release_effect [OF assms(1), of tok name w2] assms(4) 1 show ?thesis by auto
qed

theorem lock_release_only_by_holder_witness:
  "\<exists>w1 ok w2. Lock_Acquire mem_redis ''t1'' ''sched:x'' 60 mem_empty = (Inr True, w1)
    \<and> Lock_Acquire mem_redis ''t2'' ''sched:x'' 60 w1 = (Inr ok, w2)
    \<and> mem_strs mem_empty ''sched:x'' = None \<and> \<not> ok \<and> mem_strs w2 ''sched:x'' = Some ''t1''
    \<and> mem_strs (Lock_Release mem_redis ''t2'' ''sched:x'' w2) ''sched:x'' = Some ''t1''"
proof -
  define w1 where "w1 = mem_empty\<lparr>mem_strs := (mem_strs mem_empty)(''sched:x'' \<mapsto> ''t1'')\<rparr>"
  have a: "Lock_Acquire mem_redis ''t1'' ''sched:x'' 60 mem_empty = (Inr True, w1)"
    by (simp add: Lock_Acquire_def mem_redis_def mem_empty_def w1_def)
  have b: "Lock_Acquire mem_redis ''t2'' ''sched:x'' 60 w1 = (Inr False, w1)"
    by (simp add: Lock_Acquire_def mem_redis_def mem_empty_def w1_def)
  show ?thesis using lock_release_only_by_holder [OF mem_redis_server a b, of "''t2''"] a b by auto
qed

end
