(* ===== verification/Go_Float.thy ===== *)
theory Go_Float
  imports Prelude "HOL-Library.Log_Nat"
begin

text \<open>
  Go's \<^verbatim>\<open>float64\<close> arithmetic where the gateway bills with it: a non-negative finite double is
  its exact rational value, and every operation rounds its exact result to 53 significant
  bits, ties to even. The values that occur are far from the subnormal and overflow ranges,
  which are not modelled.
\<close>

section \<open>Rounding to 53 bits\<close>

definition floor_log2 :: "rat \<Rightarrow> int" where
  "floor_log2 x = (let (a, b) = quotient_of x; e = bitlen a - bitlen b
     in if 2 powi e \<le> x then e else e - 1)"

definition round_even :: "rat \<Rightarrow> int" where
  "round_even x = (let f = \<lfloor>x\<rfloor>; d = x - of_int f
     in if d < 1 / 2 then f else if d > 1 / 2 then f + 1 else if even f then f else f + 1)"

definition f64 :: "rat \<Rightarrow> rat" where
  "f64 x = (if x = 0 then 0 else let s = 2 powi (52 - floor_log2 x) in of_int (round_even (x * s)) / s)"

section \<open>Lemmas\<close>

lemma round_even_error: "\<bar>of_int (round_even x) - x\<bar> \<le> 1 / 2"
  using floor_correct [of x] by (auto simp: round_even_def Let_def abs_le_iff)

lemma round_even_int [simp]: "round_even (of_int k) = k"
  by (simp add: round_even_def)

lemma round_even_ge: "of_int k \<le> x \<Longrightarrow> k \<le> round_even x"
  by (auto simp: round_even_def Let_def le_floor_iff intro: order_trans [of k "\<lfloor>x\<rfloor>"])

lemma bitlen_bounds_rat:
  assumes "0 < a"
  shows "2 powi (bitlen a - 1) \<le> (of_int a :: rat)" and "of_int a < (2 powi bitlen a :: rat)"
proof -
  have b: "1 \<le> bitlen a" using assms bitlen_nonneg [of a] bitlen_eq_zero_iff [of a] by linarith
  have "2 ^ nat (bitlen a - 1) \<le> a \<and> a < 2 ^ nat (bitlen a)"
    using bitlen_bounds [OF assms] .
  then have "(of_int (2 ^ nat (bitlen a - 1)) :: rat) \<le> of_int a"
    "(of_int a :: rat) < of_int (2 ^ nat (bitlen a))"
    by (simp_all only: of_int_le_iff of_int_less_iff)
  then show "2 powi (bitlen a - 1) \<le> (of_int a :: rat)" "of_int a < (2 powi bitlen a :: rat)"
    using b by (simp_all add: power_int_def)
qed

lemma floor_log2_bounds:
  assumes "0 < x"
  shows "2 powi (floor_log2 x) \<le> x" and "x < 2 powi (floor_log2 x + 1)"
proof -
  obtain a b where ab: "quotient_of x = (a, b)" by fastforce
  then have x: "x = of_int a / of_int b" and b: "0 < b"
    by (simp_all add: quotient_of_div quotient_of_denom_pos)
  have a: "0 < a" using assms x b by (simp add: zero_less_divide_iff)
  define e where "e = bitlen a - bitlen b"
  have lo: "2 powi (e - 1) \<le> x"
  proof -
    have "2 powi (e - 1) * of_int b \<le> 2 powi (e - 1) * (2 powi bitlen b :: rat)"
      using bitlen_bounds_rat(2) [OF b] by simp
    also have "\<dots> = 2 powi (bitlen a - 1)" by (simp add: e_def flip: power_int_add)
    also have "\<dots> \<le> of_int a" by (rule bitlen_bounds_rat(1) [OF a])
    finally show ?thesis using b by (simp add: x pos_le_divide_eq)
  qed
  have hi: "x < 2 powi (e + 1)"
  proof -
    have "of_int a < (2 powi bitlen a :: rat)" by (rule bitlen_bounds_rat(2) [OF a])
    also have "\<dots> = 2 powi (e + 1) * (2 powi (bitlen b - 1) :: rat)"
      by (simp add: e_def flip: power_int_add)
    also have "\<dots> \<le> 2 powi (e + 1) * of_int b" using bitlen_bounds_rat(1) [OF b] by simp
    finally show ?thesis using b by (simp add: x pos_divide_less_eq)
  qed
  have "floor_log2 x = (if 2 powi e \<le> x then e else e - 1)"
    by (simp add: floor_log2_def ab Let_def e_def)
  with lo hi show "2 powi (floor_log2 x) \<le> x" "x < 2 powi (floor_log2 x + 1)"
    by (auto split: if_splits)
qed

lemma f64_error:
  assumes "0 < x"
  shows "\<bar>f64 x - x\<bar> \<le> x / 2 ^ 53"
proof -
  define s :: rat where "s = 2 powi (52 - floor_log2 x)"
  have s: "0 < s" by (simp add: s_def)
  have "\<bar>f64 x - x\<bar> = \<bar>of_int (round_even (x * s)) - x * s\<bar> / s"
    using assms s by (simp add: f64_def s_def [symmetric] Let_def field_simps abs_divide)
  also have "\<dots> \<le> 1 / 2 / s"
    by (intro divide_right_mono round_even_error) (use s in simp)
  also have "1 / 2 / s = 2 powi (floor_log2 x) / 2 ^ 53"
    by (simp add: s_def power_int_diff field_simps)
  also have "\<dots> \<le> x / 2 ^ 53"
    using floor_log2_bounds(1) [OF assms] by (intro divide_right_mono) simp_all
  finally show ?thesis .
qed

lemma floor_log2_le: "0 < x \<Longrightarrow> x < 2 ^ n \<Longrightarrow> floor_log2 x < int n"
proof (rule ccontr)
  assume x: "0 < x" "x < 2 ^ n" and "\<not> floor_log2 x < int n"
  then have "(2::rat) powi int n \<le> 2 powi (floor_log2 x)" by (intro power_int_increasing) simp_all
  with floor_log2_bounds(1) [OF x(1)] x(2) show False by simp
qed

lemma f64_scale_int:
  assumes "0 < x" and "x < 2 ^ 53"
  obtains m :: nat where "2 powi (52 - floor_log2 x) = (2 ^ m :: rat)"
  using floor_log2_le [OF assms] by (intro that [of "nat (52 - floor_log2 x)"]) (simp add: power_int_def)

lemma f64_ge_int:
  assumes "0 < x" and "x < 2 ^ 53" and "of_int k \<le> x"
  shows "of_int k \<le> f64 x"
proof -
  obtain m where m: "2 powi (52 - floor_log2 x) = (2 ^ m :: rat)" by (rule f64_scale_int [OF assms(1,2)])
  have "of_int (k * 2 ^ m) \<le> x * 2 ^ m" using assms(3) by simp
  then have "k * 2 ^ m \<le> round_even (x * 2 ^ m)" by (rule round_even_ge)
  then have "(of_int (k * 2 ^ m) :: rat) \<le> of_int (round_even (x * 2 ^ m))" by (simp only: of_int_le_iff)
  then show ?thesis using assms(1) by (simp add: f64_def m Let_def pos_le_divide_eq)
qed

lemma f64_int:
  assumes "0 \<le> k" and "k < 2 ^ 53"
  shows "f64 (of_int k) = of_int k"
proof (cases "k = 0")
  case False
  then have pos: "0 < (of_int k :: rat)" using assms by simp
  have "(of_int k :: rat) < of_int (2 ^ 53)" using assms(2) by (simp only: of_int_less_iff)
  then have lt: "(of_int k :: rat) < 2 ^ 53" by simp
  obtain m where m: "2 powi (52 - floor_log2 (of_int k)) = (2 ^ m :: rat)"
    by (rule f64_scale_int [OF pos lt])
  have "(of_int k :: rat) * 2 ^ m = of_int (k * 2 ^ m)" by simp
  then show ?thesis using False by (simp only: f64_def m Let_def round_even_int) simp
qed (simp add: f64_def)

lemma f64_nonneg: "0 \<le> x \<Longrightarrow> 0 \<le> f64 x"
  by (auto simp: f64_def Let_def intro!: divide_nonneg_nonneg round_even_ge [of 0, simplified])

lemma f64_0 [simp]: "f64 0 = 0"
  by (simp add: f64_def)

lemma f64_near:
  assumes "0 \<le> x"
  shows "x - x / 2 ^ 53 \<le> f64 x" and "f64 x \<le> x + x / 2 ^ 53"
proof -
  have "\<bar>f64 x - x\<bar> \<le> x / 2 ^ 53" using f64_error [of x] assms by (cases "x = 0") simp_all
  then show "x - x / 2 ^ 53 \<le> f64 x" "f64 x \<le> x + x / 2 ^ 53" by linarith+
qed

lemma f64_upper: "0 \<le> x \<Longrightarrow> f64 x \<le> x * (1 + 1 / 2 ^ 53)"
  using f64_near(2) [of x] by (simp only: distrib_left mult_1_right times_divide_eq_right)

lemma f64_lower: "0 \<le> x \<Longrightarrow> x * (1 - 1 / 2 ^ 53) \<le> f64 x"
  using f64_near(1) [of x] by (simp only: right_diff_distrib mult_1_right times_divide_eq_right)

lemma f64_pos: "0 < x \<Longrightarrow> 0 < f64 x"
  using f64_near(1) [of x] by simp

end
