(* ===== verification/Degrade.thy ===== *)
theory Degrade
  imports Prelude
begin

text \<open>
  Package \<^verbatim>\<open>internal/degrade\<close>: how long a dependency outage may be ignored. A breaker keeps the
  instant its outage began; the zero \<^verbatim>\<open>time.Time\<close> is \<^const>\<open>None\<close>. The clock reading is the
  argument \<open>now\<close>, in nanoseconds.
\<close>

section \<open>Model\<close>

definition Window :: int where "Window = 60 * 10 ^ 9"

record breaker =
  window :: int
  since :: "int option"

definition New :: "int \<Rightarrow> breaker" where
  "New w = \<lparr>window = w, since = None\<rparr>"

definition Tolerate :: "int \<Rightarrow> breaker \<Rightarrow> bool \<times> breaker" where
  "Tolerate now b =
    (let b' = (if since b = None then b\<lparr>since := Some now\<rparr> else b)
     in (now - the (since b') \<le> window b', b'))"

definition Succeed :: "breaker \<Rightarrow> breaker" where
  "Succeed b = b\<lparr>since := None\<rparr>"

definition Degraded :: "breaker \<Rightarrow> bool" where
  "Degraded b \<longleftrightarrow> since b \<noteq> None"

section \<open>Runs of calls\<close>

text \<open>
  What a breaker sees: failures at their instants and successes. \<open>breaker_run\<close> replays a
  history and collects the verdict of every failure.
\<close>

datatype dep_call = Failed int | Worked

fun breaker_run :: "dep_call list \<Rightarrow> breaker \<Rightarrow> bool list \<times> breaker" where
  "breaker_run [] b = ([], b)"
| "breaker_run (Worked # cs) b = breaker_run cs (Succeed b)"
| "breaker_run (Failed t # cs) b =
    (let (ok, b') = Tolerate t b; (oks, b'') = breaker_run cs b' in (ok # oks, b''))"

lemma Tolerate_simps [simp]:
  "since b = None \<Longrightarrow> Tolerate t b = (0 \<le> window b, b\<lparr>since := Some t\<rparr>)"
  "since b = Some t0 \<Longrightarrow> Tolerate t b = (t - t0 \<le> window b, b)"
  by (simp_all add: Tolerate_def)

lemma breaker_run_outage:
  "since b = Some t0 \<Longrightarrow> breaker_run (map Failed ts) b = (map (\<lambda>t. t - t0 \<le> window b) ts, b)"
  by (induction ts) auto

lemma breaker_run_append:
  "breaker_run (cs @ ds) b =
    (let (o1, b1) = breaker_run cs b; (o2, b2) = breaker_run ds b1 in (o1 @ o2, b2))"
  by (induction cs b rule: breaker_run.induct) (auto split: prod.splits)

lemma breaker_run_window [simp]: "window (snd (breaker_run cs b)) = window b"
  by (induction cs b rule: breaker_run.induct)
    (auto simp: Succeed_def Tolerate_def Let_def split: prod.splits)

section \<open>Properties\<close>

text \<open>
  The window measures one continuous outage. Whatever happened before, after a
  success the failures that follow at instants \<open>t # ts\<close> are tolerated exactly while they
  lie within the window of the first of them, so an unbroken outage is refused from one
  window after it began and an earlier outage never counts.
\<close>

theorem breaker_measures_continuous_outage:
  "fst (breaker_run (history @ Worked # map Failed (t # ts)) (New w)) =
     fst (breaker_run history (New w)) @ map (\<lambda>u. u - t \<le> w) (t # ts)"
  by (auto simp: breaker_run_append Succeed_def breaker_run_outage New_def split: prod.splits)
    (metis breaker_run_window breaker.select_convs(1) snd_conv)+

end
