(* ===== verification/Quota.thy ===== *)
theory Quota
  imports Redis Go_Float Degrade
begin

text \<open>
  Package \<^verbatim>\<open>internal/quota\<close>: the monthly character allowance. The counter is a port with three
  operations, passed as the record \<open>C\<close>; \<open>redis_counter\<close> is the adapter the gateway wires in.
  The clock reading is an argument, as a UTC calendar instant.
\<close>

section \<open>Model\<close>

record instant =
  i_year :: int
  i_month :: int
  i_day :: int
  i_nanos :: int

record 'w counter =
  cGet :: "string \<Rightarrow> ('w, store_error, int) op"
  cAdd :: "string \<Rightarrow> int \<Rightarrow> int \<Rightarrow> ('w, store_error, unit) op"
  cSet :: "string \<Rightarrow> int \<Rightarrow> int \<Rightarrow> ('w, store_error, unit) op"

definition redis_counter :: "'w redis \<Rightarrow> 'w counter" where
  "redis_counter rdb = \<lparr>cGet = Counter_Get rdb, cAdd = Counter_Add rdb, cSet = Counter_Set rdb\<rparr>"

definition GraceFactor :: rat where "GraceFactor = 105 / 100"

definition counterTTL :: int where "counterTTL = 40 * 24 * 3600 * 10 ^ 9"

record decision =
  Allowed :: bool
  Used_chars :: int
  Limit :: int
  Ceiling :: int

text \<open>\<^verbatim>\<open>Format("200601")\<close>: four digits of year and two of month.\<close>

definition yyyymm :: "instant \<Rightarrow> string" where
  "yyyymm t = pad 4 (Itoa (i_year t)) @ pad 2 (Itoa (i_month t))"

text \<open>\<open>uuid_str\<close> is the third-party rendering of a UUID.\<close>

definition quota_key :: "('id \<Rightarrow> string) \<Rightarrow> 'id \<Rightarrow> instant \<Rightarrow> string" where
  "quota_key uuid_str tenantID on = ''usage:'' @ uuid_str tenantID @ '':'' @ yyyymm on"

definition quota_used :: "'w counter \<Rightarrow> ('id \<Rightarrow> string) \<Rightarrow> instant \<Rightarrow> 'id \<Rightarrow> ('w, store_error, int) op" where
  "quota_used C uuid_str now tenantID = cGet C (quota_key uuid_str tenantID now)"

definition ceiling_of :: "int \<Rightarrow> int" where
  "ceiling_of planLimit = \<lfloor>f64 (f64 (of_int planLimit) * f64 GraceFactor)\<rfloor>"

definition quota_Check :: "'w counter \<Rightarrow> ('id \<Rightarrow> string) \<Rightarrow> instant \<Rightarrow> 'id \<Rightarrow> int \<Rightarrow> int
    \<Rightarrow> ('w, store_error, decision) op" where
  "quota_Check C uuid_str now tenantID planLimit chars =
    (if planLimit \<le> 0 then returnE \<lparr>Allowed = True, Used_chars = 0, Limit = planLimit, Ceiling = 0\<rparr>
     else bindE (quota_used C uuid_str now tenantID) (\<lambda>u.
       let ceiling = ceiling_of planLimit
       in returnE \<lparr>Allowed = (wrap64 (u + chars) \<le> ceiling), Used_chars = u,
                   Limit = planLimit, Ceiling = ceiling\<rparr>))"

definition quota_Record :: "'w counter \<Rightarrow> ('id \<Rightarrow> string) \<Rightarrow> instant \<Rightarrow> 'id \<Rightarrow> int \<Rightarrow> ('w, store_error, unit) op" where
  "quota_Record C uuid_str now tenantID chars =
    (if chars \<le> 0 then returnE () else cAdd C (quota_key uuid_str tenantID now) chars counterTTL)"

definition quota_Set :: "'w counter \<Rightarrow> ('id \<Rightarrow> string) \<Rightarrow> 'id \<Rightarrow> instant \<Rightarrow> int \<Rightarrow> ('w, store_error, unit) op" where
  "quota_Set C uuid_str tenantID mon chars = cSet C (quota_key uuid_str tenantID mon) chars counterTTL"

definition quota_Used :: "'w counter \<Rightarrow> ('id \<Rightarrow> string) \<Rightarrow> instant \<Rightarrow> 'id \<Rightarrow> ('w, store_error, int) op" where
  "quota_Used C uuid_str now tenantID = quota_used C uuid_str now tenantID"

text \<open>
  The hourly reconcile. \<open>source\<close> reads the authoritative totals of the half-open window from
  the first of the month to the first of the next; the clock is read again for each tenant
  (\<open>nows\<close>), as \<^verbatim>\<open>Used\<close> does.
\<close>

definition month_start :: "instant \<Rightarrow> instant" where
  "month_start t = \<lparr>i_year = i_year t, i_month = i_month t, i_day = 1, i_nanos = 0\<rparr>"

definition next_month :: "instant \<Rightarrow> instant" where
  "next_month t = (if i_month t = 12 then t\<lparr>i_year := i_year t + 1, i_month := 1\<rparr> else t\<lparr>i_month := i_month t + 1\<rparr>)"

fun reconcile_loop :: "'w counter \<Rightarrow> ('id \<Rightarrow> string) \<Rightarrow> (nat \<Rightarrow> instant) \<Rightarrow> instant
    \<Rightarrow> ('id \<times> int) list \<Rightarrow> ('w, store_error, unit) op" where
  "reconcile_loop C uuid_str nows from [] = returnE ()"
| "reconcile_loop C uuid_str nows from ((t, chars) # rest) =
    bindE (quota_Used C uuid_str (nows (length rest)) t) (\<lambda>before.
      if before = chars then reconcile_loop C uuid_str nows from rest
      else bindE (quota_Set C uuid_str t from chars)
        (\<lambda>_. reconcile_loop C uuid_str nows from rest))"

definition RunOnce :: "'w counter \<Rightarrow> ('id \<Rightarrow> string) \<Rightarrow> instant \<Rightarrow> (nat \<Rightarrow> instant)
    \<Rightarrow> (instant \<Rightarrow> instant \<Rightarrow> ('w, store_error, ('id \<times> int) list) op) \<Rightarrow> ('w, store_error, unit) op" where
  "RunOnce C uuid_str now nows source =
    (let from = month_start now; to = next_month from
     in bindE (source from to) (reconcile_loop C uuid_str nows from))"

section \<open>The counter contract\<close>

locale quota_counter =
  fixes C :: "'w counter" and cnt :: "'w \<Rightarrow> string \<Rightarrow> int"
  assumes get_frame: "cGet C k w = (r, w') \<Longrightarrow> cnt w' = cnt w"
    and get_value: "cGet C k w = (Inr v, w') \<Longrightarrow> v = cnt w k"
    and add_effect: "cAdd C k d t w = (Inr u, w') \<Longrightarrow> cnt w' = (cnt w)(k := cnt w k + d)"
    and set_effect: "cSet C k v t w = (Inr u, w') \<Longrightarrow> cnt w' = (cnt w)(k := v)"
begin

lemma quota_used_value: "quota_used C us now t w = (Inr v, w') \<Longrightarrow> v = cnt w (quota_key us t now) \<and> cnt w' = cnt w"
  using get_value get_frame by (fastforce simp: quota_used_def)

lemma quota_Check_decision:
  assumes "quota_Check C us now t limit chars w = (Inr d, w')" and "0 < limit"
  shows "d = \<lparr>Allowed = (wrap64 (cnt w (quota_key us t now) + chars) \<le> ceiling_of limit),
      Used_chars = cnt w (quota_key us t now), Limit = limit, Ceiling = ceiling_of limit\<rparr>"
    and "cnt w' = cnt w"
  using assms quota_used_value
  by (fastforce simp: quota_Check_def Let_def go_simps split: prod.splits sum.splits)+

lemma quota_Check_frame: "cnt (snd (quota_Check C us now t limit chars w)) = cnt w"
  using get_frame
  by (auto simp: quota_Check_def quota_used_def Let_def go_simps split: prod.splits sum.splits)

lemma quota_Record_effect:
  assumes "quota_Record C us now t chars w = (Inr u, w')"
  shows "cnt w' (quota_key us t now) = cnt w (quota_key us t now) + max 0 chars"
    and "k \<noteq> quota_key us t now \<Longrightarrow> cnt w' k = cnt w k"
  using assms by (auto simp: quota_Record_def go_simps dest!: add_effect split: if_splits)

lemma reconcile_loop_effect:
  assumes "reconcile_loop C us nows from totals w = (Inr u, w')"
    and "distinct (map fst totals)" and "inj us"
    and "\<And>t i. quota_key us t (nows i) = quota_key us t from"
    and "\<And>t t'. quota_key us t from = quota_key us t' from \<Longrightarrow> t = t'"
  shows "(\<forall>(t, chars) \<in> set totals. cnt w' (quota_key us t from) = chars)
    \<and> (\<forall>k. (\<forall>t \<in> fst ` set totals. k \<noteq> quota_key us t from) \<longrightarrow> cnt w' k = cnt w k)"
  using assms(1,2)
proof (induction totals arbitrary: w)
  case Nil
  then show ?case by (simp add: go_simps)
next
  case (Cons p rest)
  obtain t chars where p: "p = (t, chars)" by fastforce
  obtain before w1 where used: "quota_used C us (nows (length rest)) t w = (Inr before, w1)"
    using Cons.prems(1) by (auto simp: p quota_Used_def go_simps split: prod.splits sum.splits)
  have b: "before = cnt w (quota_key us t from)" "cnt w1 = cnt w"
    using quota_used_value [OF used] assms(4) by simp_all
  have step: "\<exists>w2. reconcile_loop C us nows from rest w2 = (Inr u, w')
      \<and> cnt w2 = (cnt w)(quota_key us t from := chars)"
  proof (cases "before = chars")
    case True
    then show ?thesis using Cons.prems(1) used b by (auto simp: p quota_Used_def go_simps)
  next
    case False
    then obtain w2 where "quota_Set C us t from chars w1 = (Inr (), w2)"
      "reconcile_loop C us nows from rest w2 = (Inr u, w')"
      using Cons.prems(1) used by (auto simp: p quota_Used_def go_simps split: prod.splits sum.splits)
    then show ?thesis using set_effect b by (fastforce simp: quota_Set_def)
  qed
  then obtain w2 where w2: "reconcile_loop C us nows from rest w2 = (Inr u, w')"
    "cnt w2 = (cnt w)(quota_key us t from := chars)" by blast
  have d: "distinct (map fst rest)" "t \<notin> fst ` set rest" using Cons.prems(2) p by auto
  have IH: "\<forall>(t, chars) \<in> set rest. cnt w' (quota_key us t from) = chars"
    "\<forall>k. (\<forall>t \<in> fst ` set rest. k \<noteq> quota_key us t from) \<longrightarrow> cnt w' k = cnt w2 k"
    using Cons.IH [OF w2(1) d(1)] by auto
  have "\<forall>t' \<in> fst ` set rest. quota_key us t from \<noteq> quota_key us t' from" using d(2) assms(5) by blast
  then have "cnt w' (quota_key us t from) = chars" using IH(2) w2(2) by simp
  then show ?case using IH w2(2) p by auto
qed

end

text \<open>The Redis adapter meets the contract.\<close>

sublocale redis_server \<subseteq> redis_counter: quota_counter "redis_counter rdb" count
  by unfold_locales
    (auto simp: redis_counter_def dest: Counter_Get_frame Counter_Get_value Counter_Add_effect Counter_Set_effect)

context redis_server
begin

lemma counter_contract: "quota_counter (redis_counter rdb) count"
  by (rule redis_counter.quota_counter_axioms)

end

section \<open>Lemmas\<close>

lemma f64_grace: "f64 GraceFactor = 4728779608739021 / 4503599627370496"
  by code_simp

text \<open>The enforced bound, computed in doubles, is the exact 5\% above the limit rounded down.\<close>

lemma ceiling_of_exact:
  assumes "0 < limit" and "limit \<le> 2 ^ 46"
  shows "ceiling_of limit = 21 * limit div 20"
proof -
  define l :: rat where "l = of_int limit"
  define x where "x = l * (4728779608739021 / 4503599627370496)"
  have l: "1 \<le> l" "l \<le> 2 ^ 46"
    using assms by (simp_all add: l_def)
  have lim: "f64 l = l" unfolding l_def by (rule f64_int) (use assms in auto)
  have x: "0 < x" "x < 2 ^ 53" "l * (21 / 20) \<le> x" "x \<le> l * (21 / 20) + 1 / 100"
    using l by (simp_all add: x_def)
  define q where "q = 21 * limit div 20"
  have "20 * q \<le> 21 * limit" "21 * limit \<le> 20 * q + 19" by (auto simp: q_def)
  then have "(of_int (20 * q) :: rat) \<le> of_int (21 * limit)" "(of_int (21 * limit) :: rat) \<le> of_int (20 * q + 19)"
    by (simp_all only: of_int_le_iff)
  then have q: "of_int q \<le> l * (21 / 20)" "l * (21 / 20) \<le> of_int q + 19 / 20"
    by (simp_all add: l_def)
  have lo: "of_int q \<le> f64 x" by (rule f64_ge_int) (use x q in auto)
  have "x / 2 ^ 53 \<le> 1 / 50" using x(4) l by simp
  moreover have "f64 x - x \<le> x / 2 ^ 53" using f64_error [OF x(1)] by linarith
  ultimately have hi: "f64 x < of_int q + 1" using x(4) q(2) by linarith
  have "ceiling_of limit = \<lfloor>f64 x\<rfloor>"
    by (simp add: ceiling_of_def f64_grace lim [unfolded l_def] x_def l_def)
  also have "\<dots> = q" using lo hi by (simp add: floor_unique)
  finally show ?thesis by (simp add: q_def)
qed

lemma le_div_iff_int: "(a :: int) \<le> b div 20 \<longleftrightarrow> 20 * a \<le> b"
  by presburger

lemma quota_key_inj:
  assumes "inj us" and "yyyymm m = yyyymm m'"
  shows "quota_key us t m = quota_key us t' m' \<longleftrightarrow> t = t'"
  using assms by (auto simp: quota_key_def dest: injD)

section \<open>Properties\<close>

text \<open>
  C29: a quota check admits a request exactly when the month's count plus the request stays
  within the limit plus 5\% (the grace of US-07, with the double-precision product equal to
  the exact value rounded down), for every plan limit up to \<open>2 ^ 46\<close>; it reports the count
  it compared, and it consumes nothing, whatever it answers.
\<close>

theorem quota_check_grace_bound:
  assumes "redis_server rdb ints strs"
    and "quota_Check (redis_counter rdb) us now t limit chars w = (Inr d, w')"
    and "0 < limit" and "limit \<le> 2 ^ 46"
    and "0 \<le> chars" and "chars < 2 ^ 62"
    and "0 \<le> redis_server.count ints w (quota_key us t now)"
    and "redis_server.count ints w (quota_key us t now) \<le> 2 ^ 62"
  shows "(Allowed d \<longleftrightarrow> 20 * (redis_server.count ints w (quota_key us t now) + chars) \<le> 21 * limit)
    \<and> Used_chars d = redis_server.count ints w (quota_key us t now)
    \<and> redis_server.count ints w' = redis_server.count ints w"
proof -
  note dec = quota_counter.quota_Check_decision [OF redis_server.counter_contract [OF assms(1)] assms(2,3)]
  let ?u = "redis_server.count ints w (quota_key us t now)"
  have "wrap64 (?u + chars) = ?u + chars"
    using assms(5-8) by (intro wrap64_id) (auto simp: MaxInt64_def)
  moreover have "?u + chars \<le> 21 * limit div 20 \<longleftrightarrow> 20 * (?u + chars) \<le> 21 * limit"
    by (simp add: le_div_iff_int)
  ultimately show ?thesis using dec ceiling_of_exact [OF assms(3,4)] by auto
qed

theorem quota_check_grace_bound_witness:
  "\<exists>d w'. quota_Check (redis_counter mem_redis) Itoa \<lparr>i_year = 2025, i_month = 3, i_day = 9, i_nanos = 0\<rparr>
      7 10000 600 (mem_empty\<lparr>mem_ints := [''usage:7:202503'' \<mapsto> 9900]\<rparr>) = (Inr d, w')
    \<and> Allowed d \<and> Used_chars d = 9900"
proof -
  let ?now = "\<lparr>i_year = 2025, i_month = 3, i_day = 9, i_nanos = 0\<rparr> :: instant"
  let ?w = "mem_empty\<lparr>mem_ints := [''usage:7:202503'' \<mapsto> 9900]\<rparr>"
  have k: "quota_key Itoa 7 ?now = ''usage:7:202503''" by code_simp
  have c: "redis_server.count mem_ints ?w (quota_key Itoa 7 ?now) = 9900"
    by (simp add: mem.count_def k mem_empty_def)
  obtain d w' where q: "quota_Check (redis_counter mem_redis) Itoa ?now 7 10000 600 ?w = (Inr d, w')"
    by (simp add: quota_Check_def quota_used_def k redis_counter_def Counter_Get_def mem_redis_def
        mem_empty_def Let_def go_simps)
  have "Allowed d \<and> Used_chars d = 9900"
    using quota_check_grace_bound [OF mem_redis_server q] unfolding c by simp
  with q show ?thesis by blast
qed

text \<open>
  C30: the hourly reconcile restores the truth. When a run succeeds within one calendar month,
  every tenant of the authoritative totals has exactly its authoritative count in its own
  counter, and every other counter of the keyspace is as it was.
\<close>

theorem reconcile_restores_authoritative_counts:
  assumes "redis_server rdb ints strs" and "inj us"
    and "RunOnce (redis_counter rdb) us now nows (\<lambda>from to. source from to) w = (Inr u, w')"
    and "source (month_start now) (next_month (month_start now)) w = (Inr totals, w1)"
    and "redis_server.count ints w1 = redis_server.count ints w"
    and "distinct (map fst totals)"
    and "\<forall>i. yyyymm (nows i) = yyyymm now"
  shows "(\<forall>(t, chars) \<in> set totals. redis_server.count ints w' (quota_key us t now) = chars)
    \<and> (\<forall>k. k \<notin> (\<lambda>t. quota_key us (fst t) now) ` set totals
          \<longrightarrow> redis_server.count ints w' k = redis_server.count ints w k)"
proof -
  let ?from = "month_start now"
  have "yyyymm ?from = yyyymm now" by (simp add: month_start_def yyyymm_def)
  then have key: "quota_key us t ?from = quota_key us t now" for t by (simp add: quota_key_def)
  have loop: "reconcile_loop (redis_counter rdb) us nows ?from totals w1 = (Inr u, w')"
    using assms(3,4) by (simp add: RunOnce_def Let_def go_simps)
  have nows: "quota_key us t (nows i) = quota_key us t ?from" for t i
    using assms(7) key by (simp add: quota_key_def)
  have inj: "quota_key us t ?from = quota_key us t' ?from \<Longrightarrow> t = t'" for t t'
    using quota_key_inj [OF assms(2) refl] by blast
  from quota_counter.reconcile_loop_effect [OF redis_server.counter_contract [OF assms(1)] loop assms(6,2) nows inj]
  show ?thesis using assms(5) key by (auto simp: image_iff)
qed

theorem reconcile_restores_authoritative_counts_witness:
  "\<exists>w'. RunOnce (redis_counter mem_redis) Itoa \<lparr>i_year = 2025, i_month = 12, i_day = 9, i_nanos = 5\<rparr>
      (\<lambda>_. \<lparr>i_year = 2025, i_month = 12, i_day = 9, i_nanos = 8\<rparr>)
      (\<lambda>from to. returnE [(7, 120), (9, 44)]) (mem_empty\<lparr>mem_ints := [''usage:7:202512'' \<mapsto> 90]\<rparr>) = (Inr (), w')
    \<and> redis_server.count mem_ints w' ''usage:7:202512'' = 120
    \<and> redis_server.count mem_ints w' ''usage:9:202512'' = 44"
proof -
  let ?now = "\<lparr>i_year = 2025, i_month = 12, i_day = 9, i_nanos = 5\<rparr> :: instant"
  let ?nows = "\<lambda>_ :: nat. \<lparr>i_year = 2025, i_month = 12, i_day = 9, i_nanos = 8\<rparr> :: instant"
  let ?w = "mem_empty\<lparr>mem_ints := [''usage:7:202512'' \<mapsto> 90]\<rparr>"
  let ?src = "\<lambda>(from :: instant) (to :: instant). returnE [(7 :: int, 120 :: int), (9, 44)] :: (mem, store_error, (int \<times> int) list) op"
  have i: "inj Itoa" by (simp add: inj_def)
  have ks: "quota_key Itoa 7 ?now = ''usage:7:202512''" "quota_key Itoa 9 ?now = ''usage:9:202512''"
    "quota_key Itoa 7 (?nows n) = ''usage:7:202512''" "quota_key Itoa 9 (?nows n) = ''usage:9:202512''"
    "quota_key Itoa 7 (month_start ?now) = ''usage:7:202512''" "quota_key Itoa 9 (month_start ?now) = ''usage:9:202512''"
    for n by code_simp+
  obtain w' where run: "RunOnce (redis_counter mem_redis) Itoa ?now ?nows ?src ?w = (Inr (), w')"
    by (simp add: RunOnce_def Let_def go_simps quota_Used_def quota_Set_def quota_used_def ks
        redis_counter_def Counter_Get_def Counter_Set_def mem_redis_def mem_empty_def)
  have y: "yyyymm (?nows i) = yyyymm ?now" for i by (simp add: yyyymm_def)
  show ?thesis
    using reconcile_restores_authoritative_counts [OF mem_redis_server i run, of "[(7, 120), (9, 44)]" ?w] run y ks
    by (auto simp: returnE_def)
qed

end
