(* ===== verification/Ratelimit.thy ===== *)
theory Ratelimit
  imports Go_Strings Go_Float
begin

text \<open>
  Package \<^verbatim>\<open>internal/ratelimit\<close>: the token bucket per API key and the concurrency leases per
  tenant. The Lua scripts are part of the source and are modelled command by command; Redis
  runs each script as one atomic step. The hash and sorted-set commands are the parameter \<open>R\<close>,
  with their documented effects as the locale \<open>redis_leases\<close>. Lua numbers are doubles, so the
  arithmetic of the bucket rounds with \<^const>\<open>f64\<close>; Redis keeps a number with 17 significant
  digits, which reads back as the same double.
\<close>

section \<open>Redis commands used by the scripts\<close>

record 'w redis_data =
  HMGET :: "string \<Rightarrow> 'w \<Rightarrow> (rat \<times> int) option"
  HSET :: "string \<Rightarrow> rat \<times> int \<Rightarrow> 'w \<Rightarrow> 'w"
  PEXPIRE :: "string \<Rightarrow> int \<Rightarrow> 'w \<Rightarrow> 'w"
  ZREMRANGEBYSCORE :: "string \<Rightarrow> int \<Rightarrow> 'w \<Rightarrow> 'w"
  ZCARD :: "string \<Rightarrow> 'w \<Rightarrow> int"
  ZSCORE :: "string \<Rightarrow> string \<Rightarrow> 'w \<Rightarrow> int option"
  ZADD :: "string \<Rightarrow> int \<Rightarrow> string \<Rightarrow> 'w \<Rightarrow> 'w"
  ZREM :: "string \<Rightarrow> string \<Rightarrow> 'w \<Rightarrow> 'w"
  ZCOUNT :: "string \<Rightarrow> int \<Rightarrow> 'w \<Rightarrow> int"
  runs :: "'w \<Rightarrow> bool"       \<comment> \<open>the command reaches the server\<close>
  replies :: "'w \<Rightarrow> bool"    \<comment> \<open>its answer comes back\<close>

datatype limit_error = InvalidLimit int | ScriptFailed | Malformed | ErrLeaseLost

section \<open>The scripts\<close>

text \<open>
  \<^verbatim>\<open>token_bucket.lua\<close> on the value of the bucket: the reply, the value stored, and the
  lifetime given to the key.
\<close>

definition token_bucket :: "int \<Rightarrow> rat \<Rightarrow> int \<Rightarrow> int \<Rightarrow> (rat \<times> int) option \<Rightarrow> int list \<times> (rat \<times> int) \<times> int" where
  "token_bucket capacity refill_per_sec now_ms cost bucket =
    (let (tokens0, updated_ms) = (case bucket of None \<Rightarrow> (of_int capacity, now_ms) | Some b \<Rightarrow> b);
         elapsed_ms = max 0 (now_ms - updated_ms);
         tokens = min (of_int capacity) (f64 (tokens0 + f64 (f64 (of_int elapsed_ms / 1000) * refill_per_sec)));
         ttl = \<lceil>f64 (f64 (of_int capacity / refill_per_sec) * 2000)\<rceil>
     in if of_int cost \<le> tokens
        then let tokens' = f64 (tokens - of_int cost) in ([1, \<lfloor>tokens'\<rfloor>, 0], (tokens', now_ms), ttl)
        else let missing = f64 (of_int cost - tokens);
                 retry_after_ms = \<lceil>f64 (f64 (missing / refill_per_sec) * 1000)\<rceil>
             in ([0, \<lfloor>tokens\<rfloor>, retry_after_ms], (tokens, now_ms), ttl))"

definition run_token_bucket :: "'w redis_data \<Rightarrow> string \<Rightarrow> int \<Rightarrow> rat \<Rightarrow> int \<Rightarrow> int \<Rightarrow> 'w \<Rightarrow> int list \<times> 'w" where
  "run_token_bucket R k capacity refill now_ms cost w =
    (let (reply, b, ttl) = token_bucket capacity refill now_ms cost (HMGET R k w)
     in (reply, PEXPIRE R k ttl (HSET R k b w)))"

definition lease_script :: "'w redis_data \<Rightarrow> string \<Rightarrow> int \<Rightarrow> int \<Rightarrow> int \<Rightarrow> string \<Rightarrow> 'w \<Rightarrow> int list \<times> 'w" where
  "lease_script R k limit now_ms ttl_ms lease_id w =
    (let w1 = ZREMRANGEBYSCORE R k now_ms w; active = ZCARD R k w1
     in if limit \<le> active then ([0, active], w1)
        else ([1, active + 1], PEXPIRE R k (ttl_ms * 2) (ZADD R k (now_ms + ttl_ms) lease_id w1)))"

definition renew_script :: "'w redis_data \<Rightarrow> string \<Rightarrow> int \<Rightarrow> int \<Rightarrow> string \<Rightarrow> 'w \<Rightarrow> int \<times> 'w" where
  "renew_script R k now_ms ttl_ms lease_id w =
    (if ZSCORE R k lease_id w = None then (0, w)
     else (1, PEXPIRE R k (ttl_ms * 2) (ZADD R k (now_ms + ttl_ms) lease_id w)))"

text \<open>Running a script: it may not reach the server, and its answer may be lost on the way back.\<close>

definition Run :: "'w redis_data \<Rightarrow> ('w \<Rightarrow> 'a \<times> 'w) \<Rightarrow> ('w, limit_error, 'a) op" where
  "Run R script w =
    (if \<not> runs R w then (Inl ScriptFailed, w)
     else let (a, w') = script w in if replies R w' then (Inr a, w') else (Inl ScriptFailed, w'))"

section \<open>The limiter (\<^verbatim>\<open>ratelimit.go\<close>)\<close>

definition LeaseTTL_ms :: int where "LeaseTTL_ms = 60000"

definition rateKey :: "('id \<Rightarrow> string) \<Rightarrow> 'id \<Rightarrow> string" where
  "rateKey uuid_str keyID = ''rl:'' @ uuid_str keyID"

definition concKey :: "('id \<Rightarrow> string) \<Rightarrow> 'id \<Rightarrow> string" where
  "concKey uuid_str tenantID = ''conc:'' @ uuid_str tenantID"

definition triple :: "int list \<Rightarrow> limit_error + int \<times> int \<times> int" where
  "triple res = (if length res < 3 then Inl Malformed else Inr (res ! 0, res ! 1, res ! 2))"

record RateDecision =
  rd_Allowed :: bool
  rd_Limit :: int
  rd_Remaining :: int
  rd_RetryAfter :: int  \<comment> \<open>nanoseconds\<close>

definition refill_rate :: "int \<Rightarrow> rat" where
  "refill_rate perMinute = f64 (of_int perMinute / 60)"

definition Allow :: "'w redis_data \<Rightarrow> ('id \<Rightarrow> string) \<Rightarrow> int \<Rightarrow> 'id \<Rightarrow> int \<Rightarrow> ('w, limit_error, RateDecision) op" where
  "Allow R uuid_str now_ms keyID perMinute =
    (if perMinute \<le> 0 then failE (InvalidLimit perMinute)
     else bindE (Run R (run_token_bucket R (rateKey uuid_str keyID) perMinute (refill_rate perMinute) now_ms 1))
       (\<lambda>res. case triple res of
          Inl e \<Rightarrow> failE e
        | Inr (allowed, remaining, retryMS) \<Rightarrow>
            returnE \<lparr>rd_Allowed = (allowed = 1), rd_Limit = perMinute, rd_Remaining = remaining,
                     rd_RetryAfter = retryMS * 10 ^ 6\<rparr>))"

record 'id Lease =
  lease_ID :: string
  lease_TenantID :: 'id

text \<open>\<open>lease_id\<close> is the fresh UUID drawn by the call; \<^const>\<open>None\<close> is \<^verbatim>\<open>ok = false\<close>.\<close>

definition Acquire :: "'w redis_data \<Rightarrow> ('id \<Rightarrow> string) \<Rightarrow> int \<Rightarrow> string \<Rightarrow> 'id \<Rightarrow> int
    \<Rightarrow> ('w, limit_error, 'id Lease option) op" where
  "Acquire R uuid_str now_ms lease_id tenantID limit =
    (if limit \<le> 0 then failE (InvalidLimit limit)
     else bindE (Run R (lease_script R (concKey uuid_str tenantID) limit now_ms LeaseTTL_ms lease_id))
       (\<lambda>res. if length res < 1 then failE Malformed
              else if res ! 0 \<noteq> 1 then returnE None
              else returnE (Some \<lparr>lease_ID = lease_id, lease_TenantID = tenantID\<rparr>)))"

definition Renew :: "'w redis_data \<Rightarrow> ('id \<Rightarrow> string) \<Rightarrow> int \<Rightarrow> 'id Lease \<Rightarrow> ('w, limit_error, unit) op" where
  "Renew R uuid_str now_ms lease =
    bindE (Run R (renew_script R (concKey uuid_str (lease_TenantID lease)) now_ms LeaseTTL_ms (lease_ID lease)))
      (\<lambda>res. if res \<noteq> 1 then failE ErrLeaseLost else returnE ())"

definition Release :: "'w redis_data \<Rightarrow> ('id \<Rightarrow> string) \<Rightarrow> 'id Lease \<Rightarrow> ('w, limit_error, unit) op" where
  "Release R uuid_str lease =
    Run R (\<lambda>w. ((), ZREM R (concKey uuid_str (lease_TenantID lease)) (lease_ID lease) w))"

definition Active :: "'w redis_data \<Rightarrow> ('id \<Rightarrow> string) \<Rightarrow> int \<Rightarrow> 'id \<Rightarrow> ('w, limit_error, int) op" where
  "Active R uuid_str now_ms tenantID = Run R (\<lambda>w. (ZCOUNT R (concKey uuid_str tenantID) now_ms w, w))"

section \<open>The sorted-set contract\<close>

text \<open>\<open>zs w k\<close> is the sorted set at a key: its members with their scores.\<close>

locale redis_leases =
  fixes R :: "'w redis_data" and zs :: "'w \<Rightarrow> string \<Rightarrow> string \<Rightarrow> int option"
  assumes zs_finite: "finite (dom (zs w k))"
    and zremrange: "zs (ZREMRANGEBYSCORE R k m w) =
      (zs w)(k := (\<lambda>x. case zs w k x of None \<Rightarrow> None | Some s \<Rightarrow> if s \<le> m then None else Some s))"
    and zcard: "ZCARD R k w = int (card (dom (zs w k)))"
    and zscore: "ZSCORE R k x w = zs w k x"
    and zadd: "zs (ZADD R k s x w) = (zs w)(k := (zs w k)(x \<mapsto> s))"
    and zrem: "zs (ZREM R k x w) = (zs w)(k := (zs w k)(x := None))"
    and zcount: "ZCOUNT R k lo w = int (card {x. \<exists>s. zs w k x = Some s \<and> lo \<le> s})"
    and pexpire: "zs (PEXPIRE R k t w) = zs w"
    and hset: "zs (HSET R k b w) = zs w"

text \<open>An in-memory keyspace of association lists that satisfies it.\<close>

record zmem =
  zm_sets :: "string \<Rightarrow> (string \<times> int) list"
  zm_hashes :: "string \<Rightarrow> (rat \<times> int) option"

definition zmem_redis :: "zmem redis_data" where
  "zmem_redis = \<lparr>HMGET = (\<lambda>k w. zm_hashes w k),
     HSET = (\<lambda>k b w. w\<lparr>zm_hashes := (zm_hashes w)(k \<mapsto> b)\<rparr>),
     PEXPIRE = (\<lambda>k t w. w),
     ZREMRANGEBYSCORE = (\<lambda>k m w. w\<lparr>zm_sets := (zm_sets w)(k := filter ((\<lambda>x. case map_of (zm_sets w k) x of None \<Rightarrow> False | Some s \<Rightarrow> m < s) \<circ> fst) (zm_sets w k))\<rparr>),
     ZCARD = (\<lambda>k w. int (card (fst ` set (zm_sets w k)))),
     ZSCORE = (\<lambda>k x w. map_of (zm_sets w k) x),
     ZADD = (\<lambda>k s x w. w\<lparr>zm_sets := (zm_sets w)(k := (x, s) # zm_sets w k)\<rparr>),
     ZREM = (\<lambda>k x w. w\<lparr>zm_sets := (zm_sets w)(k := filter ((\<lambda>y. y \<noteq> x) \<circ> fst) (zm_sets w k))\<rparr>),
     ZCOUNT = (\<lambda>k lo w. int (card {x. \<exists>s. map_of (zm_sets w k) x = Some s \<and> lo \<le> s})),
     runs = (\<lambda>w. True), replies = (\<lambda>w. True)\<rparr>"

definition zmem_empty :: zmem where
  "zmem_empty = \<lparr>zm_sets = (\<lambda>_. []), zm_hashes = (\<lambda>_. None)\<rparr>"

lemma map_of_filter_keys:
  "map_of (filter (P \<circ> fst) xs) x = (if P x then map_of xs x else None)"
  by (induction xs) auto

interpretation zmem: redis_leases zmem_redis "\<lambda>w k. map_of (zm_sets w k)"
  by unfold_locales
    (auto simp: zmem_redis_def finite_dom_map_of dom_map_of_conv_image_fst fun_eq_iff map_of_filter_keys
      split: option.split)

lemma zmem_redis_leases: "redis_leases zmem_redis (\<lambda>w k. map_of (zm_sets w k))"
  by (rule zmem.redis_leases_axioms)

section \<open>Lemmas on the leases\<close>

context redis_leases
begin

definition held :: "'w \<Rightarrow> string \<Rightarrow> nat" where
  "held w k = card (dom (zs w k))"

definition live :: "'w \<Rightarrow> string \<Rightarrow> int \<Rightarrow> string set" where
  "live w k now = {x. \<exists>s. zs w k x = Some s \<and> now < s}"

lemma live_subset: "live w k now \<subseteq> dom (zs w k)"
  by (auto simp: live_def)

lemma live_evicted: "dom (zs (ZREMRANGEBYSCORE R k now w) k) = live w k now"
  by (auto simp: zremrange live_def split: option.splits if_splits)

lemma evicted_other: "k' \<noteq> k \<Longrightarrow> zs (ZREMRANGEBYSCORE R k now w) k' = zs w k'"
  by (simp add: zremrange)

lemma lease_script_spec:
  "lease_script R k limit now ttl i w = (res, w') \<Longrightarrow>
    (res ! 0 = 1 \<longleftrightarrow> int (card (live w k now)) < limit) \<and> 1 \<le> length res
    \<and> dom (zs w' k) = live w k now \<union> (if res ! 0 = 1 then {i} else {})
    \<and> (res ! 0 = 1 \<longrightarrow> zs w' k i = Some (now + ttl))
    \<and> (\<forall>k'. k' \<noteq> k \<longrightarrow> zs w' k' = zs w k')"
  by (cases "limit \<le> int (card (live w k now))")
    (clarsimp simp: lease_script_def Let_def zcard live_evicted zadd pexpire evicted_other)+

lemma lease_script_held:
  assumes "lease_script R k limit now ttl i w = (res, w')" and "0 \<le> limit"
  shows "int (held w' k) \<le> max limit (int (held w k))" and "int (held w k) \<le> limit \<Longrightarrow> int (held w' k) \<le> limit"
proof -
  have fin: "finite (live w k now)" using live_subset zs_finite by (rule finite_subset)
  note spec = lease_script_spec [OF assms(1)]
  have le: "card (live w k now) \<le> held w k" unfolding held_def by (rule card_mono [OF zs_finite live_subset])
  have "int (held w' k) \<le> (if res ! 0 = 1 then int (card (live w k now)) + 1 else int (held w k))"
    using spec le card_insert_le_m1 [of "Suc (card (live w k now))" "live w k now" i] fin
    by (auto simp: held_def card_insert_if)
  then show "int (held w' k) \<le> max limit (int (held w k))"
    "int (held w k) \<le> limit \<Longrightarrow> int (held w' k) \<le> limit"
    using spec by (auto split: if_splits)
qed

lemma renew_script_dom: "renew_script R k now ttl i w = (r, w') \<Longrightarrow> dom (zs w' k') = dom (zs w k')"
  by (auto simp: renew_script_def zscore zadd pexpire split: if_splits)

lemma Acquire_held:
  assumes "Acquire R us now i t limit w = (r, w')" and "int (held w (concKey us t)) \<le> limit"
  shows "int (held w' (concKey us t)) \<le> limit" and "k \<noteq> concKey us t \<Longrightarrow> zs w' k = zs w k"
proof -
  obtain res w1 where script: "lease_script R (concKey us t) limit now LeaseTTL_ms i w = (res, w1)" by fastforce
  have "w' = w \<or> 0 < limit \<and> w' = w1"
    using assms(1) script by (auto simp: Acquire_def Run_def go_simps split: if_splits)
  then show "int (held w' (concKey us t)) \<le> limit" "k \<noteq> concKey us t \<Longrightarrow> zs w' k = zs w k"
    using assms(2) lease_script_held(2) [OF script] lease_script_spec [OF script] by auto
qed

lemma Acquire_decides:
  assumes "Acquire R us now i t limit w = (Inr r, w')"
  shows "r = (if int (card (live w (concKey us t) now)) < limit then Some \<lparr>lease_ID = i, lease_TenantID = t\<rparr> else None)"
proof -
  obtain res w1 where script: "lease_script R (concKey us t) limit now LeaseTTL_ms i w = (res, w1)" by fastforce
  show ?thesis
    using assms script lease_script_spec [OF script] by (auto simp: Acquire_def Run_def go_simps split: if_splits)
qed

lemma Renew_held: "Renew R us now l w = (r, w') \<Longrightarrow> held w' k = held w k"
proof -
  assume a: "Renew R us now l w = (r, w')"
  obtain v w1 where script: "renew_script R (concKey us (lease_TenantID l)) now LeaseTTL_ms (lease_ID l) w = (v, w1)"
    by fastforce
  then have "w' = w \<or> w' = w1" using a by (auto simp: Renew_def Run_def go_simps split: if_splits)
  then show ?thesis using renew_script_dom [OF script] by (auto simp: held_def)
qed

lemma Release_held: "Release R us l w = (r, w') \<Longrightarrow> held w' k \<le> held w k"
  using card_Diff1_le [of "dom (zs w k)"] by (auto simp: Release_def Run_def zrem held_def split: if_splits)

lemma Allow_held: "Allow R us now i limit w = (r, w') \<Longrightarrow> held w' k = held w k"
  by (auto simp: Allow_def Run_def run_token_bucket_def go_simps held_def hset pexpire Let_def
      split: if_splits prod.splits sum.splits)

end

section \<open>Interleavings\<close>

text \<open>
  What can happen to the keyspace while many gateways use it: calls of the limiter in any
  order, for any tenant with its plan's limit, each one atomic in Redis, and keys that expire.
\<close>

inductive lease_step :: "'w redis_data \<Rightarrow> ('w \<Rightarrow> string \<Rightarrow> string \<Rightarrow> int option) \<Rightarrow> ('id \<Rightarrow> string) \<Rightarrow> ('id \<Rightarrow> int)
    \<Rightarrow> 'w \<Rightarrow> 'w \<Rightarrow> bool"
  for R zs us limit_of where
  step_acquire: "Acquire R us now i t (limit_of t) w = (r, w') \<Longrightarrow> lease_step R zs us limit_of w w'"
| step_renew: "Renew R us now l w = (ru, w') \<Longrightarrow> lease_step R zs us limit_of w w'"
| step_release: "Release R us l w = (ru, w') \<Longrightarrow> lease_step R zs us limit_of w w'"
| step_allow: "Allow R us now i n w = (rd, w') \<Longrightarrow> lease_step R zs us limit_of w w'"
| step_expire: "zs w' = (zs w)(k := Map.empty) \<Longrightarrow> lease_step R zs us limit_of w w'"

inductive_cases lease_stepE: "lease_step R zs us limit_of w w'"

context redis_leases
begin

lemma lease_step_bound:
  assumes "lease_step R zs us limit_of w w'" and "\<And>t. int (held w (concKey us t)) \<le> limit_of t" and "inj us"
  shows "int (held w' (concKey us t)) \<le> limit_of t"
  using assms(1)
proof cases
  case (step_acquire now i t' r)
  have "t \<noteq> t' \<Longrightarrow> concKey us t \<noteq> concKey us t'" using assms(3) by (auto simp: concKey_def dest: injD)
  then show ?thesis
    using Acquire_held [OF step_acquire assms(2)] assms(2) [of t] by (cases "t = t'") (simp_all add: held_def)
next
  case (step_release l ru)
  then show ?thesis using Release_held [OF step_release] assms(2) [of t] by (smt (verit) of_nat_mono)
next
  case (step_expire k)
  then show ?thesis using assms(2) [of t] by (auto simp: held_def)
qed (simp_all add: Renew_held Allow_held assms(2))

lemma lease_run_bound:
  assumes "(lease_step R zs us limit_of)\<^sup>*\<^sup>* w w'" and "inj us"
    and "\<And>t. int (held w (concKey us t)) \<le> limit_of t"
  shows "int (held w' (concKey us t)) \<le> limit_of t"
  using assms(1,3) by (induction arbitrary: t) (auto intro: lease_step_bound assms(2))

end

section \<open>Lemmas on the bucket\<close>

text \<open>
  A history of one bucket: the instants of the calls, each with whether the key had expired
  by then, which Redis does only once the lifetime set by the previous call is over.
  \<open>bucket_run\<close> counts the calls that were admitted.
\<close>

fun bucket_run :: "int \<Rightarrow> rat \<Rightarrow> (int \<times> bool) list \<Rightarrow> ((rat \<times> int) \<times> int) option \<Rightarrow> int" where
  "bucket_run capacity refill [] st = 0"
| "bucket_run capacity refill ((now, gone) # calls) st =
    (let seen = (case st of None \<Rightarrow> None
                  | Some (b, ttl) \<Rightarrow> if gone \<and> snd b + ttl \<le> now then None else Some b);
         (reply, b', ttl') = token_bucket capacity refill now 1 seen
     in (if hd reply = 1 then 1 else 0) + bucket_run capacity refill calls (Some (b', ttl')))"

definition rounding :: rat where "rounding = 1 / 2 ^ 19"

locale plan_rate =
  fixes capacity :: int
  assumes cap_pos: "0 < capacity" and cap_max: "capacity \<le> MaxInt32"
begin

lemma cap_rat: "1 \<le> (of_int capacity :: rat)" "(of_int capacity :: rat) < 2 ^ 31"
proof -
  show "1 \<le> (of_int capacity :: rat)" using cap_pos by simp
  have "(of_int capacity :: rat) < of_int (2 ^ 31)"
    using cap_max by (subst of_int_less_iff) (simp add: MaxInt32_def)
  then show "(of_int capacity :: rat) < 2 ^ 31" by simp
qed

lemma f64_cap: "f64 (of_int capacity) = of_int capacity"
  using cap_pos cap_max by (intro f64_int) (auto simp: MaxInt32_def)

lemma refill_bounds:
  "0 < refill_rate capacity" "refill_rate capacity \<le> of_int capacity / 60 * (1 + 1 / 2 ^ 53)"
  using cap_rat f64_upper [of "of_int capacity / 60"] f64_pos [of "of_int capacity / 60"]
  by (simp_all add: refill_rate_def)

text \<open>The refill of \<open>e\<close> milliseconds never credits more than the plan's rate, up to rounding.\<close>

lemma refill_credit:
  assumes "0 \<le> e" and "0 \<le> t0"
  shows "min (of_int capacity) (f64 (t0 + f64 (f64 (e / 1000) * refill_rate capacity)))
    \<le> t0 + e * of_int capacity / 60000 + of_int capacity * (5 / 2 ^ 53)"
proof -
  let ?c = "of_int capacity :: rat" and ?K = "1 + 1 / 2 ^ 53 :: rat"
  let ?r = "refill_rate capacity" and ?E = "e * of_int capacity / 60000"
  define x1 where "x1 = f64 (e / 1000)"
  define x2 where "x2 = f64 (x1 * ?r)"
  have "0 \<le> e / 1000" using assms(1) by simp
  then have x1: "0 \<le> x1" "x1 \<le> e / 1000 * ?K"
    unfolding x1_def by (rule f64_nonneg, rule f64_upper)
  have "x1 * ?r \<le> (e / 1000 * ?K) * (?c / 60 * ?K)"
    using x1 refill_bounds assms(1) by (intro mult_mono) simp_all
  also have "\<dots> = ?E * ?K ^ 2" by (simp add: power2_eq_square)
  finally have "x1 * ?r \<le> ?E * ?K ^ 2" .
  moreover have p: "0 \<le> x1 * ?r" using x1 refill_bounds by simp
  ultimately have "x1 * ?r * ?K \<le> ?E * ?K ^ 2 * ?K" by (intro mult_right_mono) simp_all
  then have x2: "0 \<le> x2" "x2 \<le> ?E * ?K ^ 3"
    using f64_upper [OF p] f64_nonneg [OF p] by (simp_all add: x2_def power3_eq_cube power2_eq_square mult.assoc)
  have E0: "0 \<le> ?E" using assms(1) cap_pos by simp
  have "f64 (t0 + x2) \<le> (t0 + x2) * ?K" using assms(2) x2 by (intro f64_upper) simp
  also have "\<dots> \<le> (t0 * ?K ^ 3 + ?E * ?K ^ 3) * ?K"
    using x2(2) assms(2) by (intro mult_right_mono add_mono) (simp_all add: mult_le_cancel_left1)
  also have "\<dots> = (t0 + ?E) * ?K ^ 4" by (simp add: algebra_simps power4_eq_xxxx power3_eq_cube)
  also have "\<dots> \<le> (t0 + ?E) * (1 + 5 / 2 ^ 53)"
    using assms(2) E0 by (intro mult_left_mono) (simp_all add: power4_eq_xxxx)
  finally have up: "f64 (t0 + x2) \<le> (t0 + ?E) * (1 + 5 / 2 ^ 53)" .
  show ?thesis
  proof (cases "t0 + ?E \<le> ?c")
    case True
    then have "(t0 + ?E) * (5 / 2 ^ 53) \<le> ?c * (5 / 2 ^ 53)" by (intro mult_right_mono) simp_all
    then show ?thesis using up unfolding x2_def x1_def by (simp add: algebra_simps)
  next
    case False
    then show ?thesis using cap_rat by (intro min.coboundedI1) simp
  qed
qed

lemma token_bucket_step:
  assumes "token_bucket capacity (refill_rate capacity) now 1 (Some (t0, u)) = (reply, (t', u'), ttl)"
    and "0 \<le> t0" and "u \<le> now"
  shows "(if hd reply = 1 then 1 else 0) + t' \<le> t0 + of_int (now - u) * of_int capacity / 60000 + rounding"
    and "0 \<le> t'" and "u' = now"
proof -
  let ?c = "of_int capacity :: rat"
  define tk where "tk = min ?c (f64 (t0 + f64 (f64 (of_int (now - u) / 1000) * refill_rate capacity)))"
  have e: "0 \<le> (of_int (now - u) :: rat)" using assms(3) by simp
  have cr: "tk \<le> t0 + of_int (now - u) * ?c / 60000 + ?c * (5 / 2 ^ 53)"
    unfolding tk_def by (rule refill_credit [OF e assms(2)])
  have tk: "0 \<le> tk" "tk \<le> ?c"
    using cap_rat refill_bounds assms(2) e by (auto simp: tk_def intro!: f64_nonneg add_nonneg_nonneg mult_nonneg_nonneg)
  have small: "?c * (5 / 2 ^ 53) + ?c / 2 ^ 53 \<le> rounding" using cap_rat by (simp add: rounding_def)
  have eq: "max 0 (now - u) = now - u" using assms(3) by simp
  have tb: "token_bucket capacity (refill_rate capacity) now 1 (Some (t0, u)) =
      (let ttl = \<lceil>f64 (f64 (of_int capacity / refill_rate capacity) * 2000)\<rceil>
       in if 1 \<le> tk then ([1, \<lfloor>f64 (tk - 1)\<rfloor>, 0], (f64 (tk - 1), now), ttl)
          else ([0, \<lfloor>tk\<rfloor>, \<lceil>f64 (f64 (f64 (1 - tk) / refill_rate capacity) * 1000)\<rceil>], (tk, now), ttl))"
    by (simp only: token_bucket_def Let_def option.case prod.case eq tk_def of_int_1)
  have res: "u' = now \<and> (if 1 \<le> tk then hd reply = 1 \<and> t' = f64 (tk - 1) else hd reply = 0 \<and> t' = tk)"
    using assms(1) unfolding tb Let_def by (auto split: if_splits)
  show "u' = now" using res by simp
  show "0 \<le> t'" using res tk by (auto split: if_splits intro: f64_nonneg)
  show "(if hd reply = 1 then 1 else 0) + t' \<le> t0 + of_int (now - u) * ?c / 60000 + rounding"
  proof (cases "1 \<le> tk")
    case True
    then have "f64 (tk - 1) \<le> tk - 1 + (tk - 1) / 2 ^ 53" by (intro f64_near(2)) simp
    also have "\<dots> \<le> tk - 1 + ?c / 2 ^ 53" using tk by (intro add_left_mono divide_right_mono) simp_all
    finally show ?thesis using res True cr small by simp
  next
    case False
    moreover have "0 \<le> ?c / 2 ^ 53" using cap_rat by simp
    ultimately show ?thesis using res cr small by simp
  qed
qed

lemma token_bucket_reply:
  assumes "token_bucket capacity (refill_rate capacity) now 1 seen = (reply, b, ttl)"
    and "\<And>t u. seen = Some (t, u) \<Longrightarrow> 0 \<le> t"
  obtains a n r where "reply = [a, n, r]" and "0 \<le> n" and "n \<le> capacity" and "a = 1 \<longleftrightarrow> r = 0" and "0 \<le> r"
proof -
  let ?c = "of_int capacity :: rat" and ?r = "refill_rate capacity"
  define t0 u where "t0 = (case seen of None \<Rightarrow> ?c | Some b \<Rightarrow> fst b)" and "u = (case seen of None \<Rightarrow> now | Some b \<Rightarrow> snd b)"
  define e where "e = max 0 (now - u)"
  define tk where "tk = min ?c (f64 (t0 + f64 (f64 (of_int e / 1000) * ?r)))"
  have t0: "0 \<le> t0" using assms(2) cap_rat by (auto simp: t0_def split: option.split)
  have tk: "0 \<le> tk" "tk \<le> ?c"
    using cap_rat refill_bounds t0 by (auto simp: tk_def e_def intro!: f64_nonneg add_nonneg_nonneg mult_nonneg_nonneg)
  have eq: "(case seen of None \<Rightarrow> (?c, now) | Some b \<Rightarrow> b) = (t0, u)" by (simp add: t0_def u_def split: option.split)
  have res: "reply = (if 1 \<le> tk then [1, \<lfloor>f64 (tk - 1)\<rfloor>, 0]
      else [0, \<lfloor>tk\<rfloor>, \<lceil>f64 (f64 (f64 (1 - tk) / ?r) * 1000)\<rceil>])"
    using assms(1) unfolding token_bucket_def eq Let_def prod.case e_def [symmetric] tk_def [symmetric] of_int_1
    by (auto split: if_splits)
  show thesis
  proof (cases "1 \<le> tk")
    case True
    then have "0 \<le> tk - 1" by simp
    then have "0 \<le> f64 (tk - 1)" "f64 (tk - 1) \<le> (tk - 1) + (tk - 1) / 2 ^ 53"
      by (rule f64_nonneg, rule f64_near(2))
    moreover have "(tk - 1) / 2 ^ 53 \<le> 1" using tk cap_rat by simp
    ultimately have "0 \<le> f64 (tk - 1)" "f64 (tk - 1) \<le> ?c" using tk by linarith+
    then show thesis using res True by (intro that) (auto simp: floor_le_iff le_floor_iff)
  next
    case False
    then have "0 < f64 (f64 (f64 (1 - tk) / ?r) * 1000)" using refill_bounds(1) by (simp add: f64_pos)
    moreover define m where "m = \<lceil>f64 (f64 (f64 (1 - tk) / ?r) * 1000)\<rceil>"
    ultimately have "0 < m" by simp
    moreover have "reply = [0, \<lfloor>tk\<rfloor>, m]" using res False by (simp add: m_def)
    ultimately show thesis using tk by (intro that [of 0 "\<lfloor>tk\<rfloor>" m]) (auto simp: floor_le_iff le_floor_iff)
  qed
qed

lemma token_bucket_absent:
  "token_bucket capacity (refill_rate capacity) now 1 None
    = token_bucket capacity (refill_rate capacity) now 1 (Some (of_int capacity, now))"
  by (simp add: token_bucket_def)

lemma token_bucket_ttl:
  assumes "token_bucket capacity (refill_rate capacity) now cost seen = (reply, b, ttl)"
  shows "60000 \<le> ttl"
proof -
  let ?c = "of_int capacity :: rat" and ?r = "refill_rate capacity"
  define q where "q = ?c / ?r"
  define x where "x = f64 q * 2000"
  have "59 * ?r \<le> ?c" using refill_bounds(2) cap_rat by simp
  then have q: "59 \<le> q" using refill_bounds(1) by (simp add: q_def pos_le_divide_eq)
  have "58 \<le> f64 q" using f64_near(1) [of q] q by simp
  then have x: "116000 \<le> x" by (simp add: x_def)
  have "60000 \<le> f64 x" using f64_near(1) [of x] x by simp
  moreover have "ttl = \<lceil>f64 x\<rceil>" unfolding x_def q_def
    using assms by (auto simp: token_bucket_def Let_def split: if_splits prod.splits)
  ultimately show ?thesis by (simp add: le_ceiling_iff)
qed

lemma credit_chain:
  "n \<le> t' + x + k \<Longrightarrow> y = x + z \<Longrightarrow> m = k + r \<Longrightarrow> a + t' \<le> t1 + z1 + r \<Longrightarrow> t1 + z1 \<le> t0 + z
    \<Longrightarrow> a + n \<le> t0 + y + (m :: rat)"
  by linarith

lemma bucket_run_bound:
  assumes "0 \<le> t0" and "60000 \<le> ttl" and "sorted (u # map fst calls)"
  shows "of_int (bucket_run capacity (refill_rate capacity) calls (Some ((t0, u), ttl)))
    \<le> t0 + of_int (last (u # map fst calls) - u) * of_int capacity / 60000 + of_nat (length calls) * rounding"
  using assms
proof (induction calls arbitrary: t0 u ttl)
  case Nil
  then show ?case by simp
next
  case (Cons call calls)
  let ?c = "of_int capacity :: rat"
  obtain now gone where call: "call = (now, gone)" by fastforce
  have le: "u \<le> now" using Cons.prems(3) call by simp
  define t1 u1 where "t1 = (if gone \<and> u + ttl \<le> now then ?c else t0)"
    and "u1 = (if gone \<and> u + ttl \<le> now then now else u)"
  obtain reply t' u' ttl' where tb: "token_bucket capacity (refill_rate capacity) now 1 (Some (t1, u1)) = (reply, (t', u'), ttl')"
    by (cases "token_bucket capacity (refill_rate capacity) now 1 (Some (t1, u1))") auto
  have t1: "0 \<le> t1" "u1 \<le> now" using Cons.prems(1) cap_rat le by (auto simp: t1_def u1_def)
  have credit: "t1 + of_int (now - u1) * ?c / 60000 \<le> t0 + of_int (now - u) * ?c / 60000"
  proof (cases "gone \<and> u + ttl \<le> now")
    case True
    then have "(of_int 60000 :: rat) \<le> of_int (now - u)"
      using Cons.prems(2) by (subst of_int_le_iff) linarith
    then have "60000 * ?c \<le> of_int (now - u) * ?c"
      using cap_rat by (intro mult_right_mono) simp_all
    then show ?thesis using True Cons.prems(1) by (simp add: t1_def u1_def)
  next
    case False
    then show ?thesis by (simp only: t1_def u1_def if_False)
  qed
  note step = token_bucket_step [OF tb t1]
  have run: "bucket_run capacity (refill_rate capacity) (call # calls) (Some ((t0, u), ttl))
      = (if hd reply = 1 then 1 else 0) + bucket_run capacity (refill_rate capacity) calls (Some ((t', now), ttl'))"
    using tb step(3) token_bucket_absent [of now] by (auto simp: call t1_def u1_def split: if_splits)
  define L where "L = last (now # map fst calls)"
  have "of_int (bucket_run capacity (refill_rate capacity) calls (Some ((t', now), ttl')))
      \<le> t' + of_int (L - now) * ?c / 60000 + of_nat (length calls) * rounding"
    unfolding L_def using Cons.IH [OF step(2) token_bucket_ttl [OF tb], of now] Cons.prems(3) call by simp
  moreover have "of_int (L - u) * ?c / 60000 = of_int (L - now) * ?c / 60000 + of_int (now - u) * ?c / 60000"
    by (simp add: left_diff_distrib diff_divide_distrib)
  moreover have "of_nat (length (call # calls)) * rounding = of_nat (length calls) * rounding + rounding"
    by (simp add: distrib_right)
  ultimately have "(if hd reply = 1 then 1 else 0)
      + of_int (bucket_run capacity (refill_rate capacity) calls (Some ((t', now), ttl')))
      \<le> t0 + of_int (L - u) * ?c / 60000 + of_nat (length (call # calls)) * rounding"
    by (intro credit_chain [OF _ _ _ step(1) credit])
  moreover have "last (u # map fst (call # calls)) = L" by (simp add: L_def call)
  ultimately show ?case unfolding run by (simp only: of_int_add if_distrib [of of_int] of_int_0 of_int_1)
qed

end

text \<open>The rate of the free tier of \<^verbatim>\<open>config/plans.yaml\<close>.\<close>

interpretation free_tier: plan_rate 30
  by unfold_locales (simp_all add: MaxInt32_def)

section \<open>Properties\<close>

text \<open>
  C23: the token bucket enforces the plan's rate (US-06). Over any history of calls of one
  key with a clock that does not run backwards, with Redis expiring the idle bucket at any
  moment its lifetime allows, the number admitted is at most the burst of one minute's worth
  plus the plan's rate times the time elapsed; the double arithmetic of the script adds at
  most \<open>2 ^ -19\<close> of a token per call.
\<close>

theorem token_bucket_enforces_rate:
  assumes "0 < perMinute" and "perMinute \<le> MaxInt32" and "sorted (map fst calls)" and "calls \<noteq> []"
  shows "of_int (bucket_run perMinute (refill_rate perMinute) calls None)
    \<le> of_int perMinute + of_int (fst (last calls) - fst (hd calls)) * of_int perMinute / 60000
      + of_nat (length calls) * rounding"
proof -
  have pr: "plan_rate perMinute" using assms(1,2) by unfold_locales
  obtain now gone rest where calls: "calls = (now, gone) # rest" using assms(4) by (cases calls) auto
  have "bucket_run perMinute (refill_rate perMinute) calls None
      = bucket_run perMinute (refill_rate perMinute) ((now, False) # rest) (Some ((of_int perMinute, now), 60000))"
    by (simp add: calls plan_rate.token_bucket_absent [OF pr])
  also have "of_int \<dots> \<le> of_int perMinute + of_int (last (now # map fst ((now, False) # rest)) - now) * of_int perMinute / 60000
      + of_nat (length ((now, False) # rest)) * rounding"
    using assms(1,3) calls by (intro plan_rate.bucket_run_bound [OF pr]) auto
  finally show ?thesis by (simp add: calls last_map split: if_splits del: bucket_run.simps)
qed

theorem token_bucket_enforces_rate_witness:
  "of_int (bucket_run 2 (refill_rate 2) [(0, False), (10, False), (20, False), (200000, True)] None)
    \<le> (2 :: rat) + 200000 * 2 / 60000 + 4 * rounding"
  using token_bucket_enforces_rate [of 2 "[(0, False), (10, False), (20, False), (200000, True)]"]
  by (simp add: MaxInt32_def)

text \<open>
  C17: the concurrency limit holds for every interleaving (US-06). Whatever sequence of
  acquires, renewals, releases, rate checks and key expiries many gateways produce, no tenant
  ever holds more leases than its plan's limit, if none did at the start.
\<close>

theorem leases_never_exceed_limit:
  assumes "redis_leases R zs" and "inj us"
    and "\<forall>t. int (card (dom (zs w (concKey us t)))) \<le> limit_of t"
    and "(lease_step R zs us limit_of)\<^sup>*\<^sup>* w w'"
  shows "\<forall>t. int (card (dom (zs w' (concKey us t)))) \<le> limit_of t"
  using redis_leases.lease_run_bound [OF assms(1,4,2)] assms(3)
  by (simp add: redis_leases.held_def [OF assms(1)])

theorem leases_never_exceed_limit_witness:
  "let w' = snd (Acquire zmem_redis Itoa 1000 ''a'' 7 1 zmem_empty);
       w'' = snd (Acquire zmem_redis Itoa 2000 ''b'' 7 1 w')
   in \<forall>t. int (card (dom (map_of (zm_sets w'' (concKey Itoa t))))) \<le> 1"
proof -
  let ?zs = "\<lambda>w k. map_of (zm_sets w k)" and ?limit = "\<lambda>t :: int. 1 :: int"
  define w' where "w' = snd (Acquire zmem_redis Itoa 1000 ''a'' 7 1 zmem_empty)"
  define w'' where "w'' = snd (Acquire zmem_redis Itoa 2000 ''b'' 7 1 w')"
  have "lease_step zmem_redis ?zs Itoa ?limit zmem_empty w'"
    by (rule step_acquire [of _ _ 1000 "''a''" 7]) (simp add: w'_def prod_eq_iff)
  moreover have "lease_step zmem_redis ?zs Itoa ?limit w' w''"
    by (rule step_acquire [of _ _ 2000 "''b''" 7]) (simp add: w''_def prod_eq_iff)
  ultimately have run: "(lease_step zmem_redis ?zs Itoa ?limit)\<^sup>*\<^sup>* zmem_empty w''" by simp
  have i: "inj Itoa" by (simp add: inj_def)
  have "\<forall>t. int (card (dom (?zs w'' (concKey Itoa t)))) \<le> 1"
    using leases_never_exceed_limit [OF zmem_redis_leases i _ run] by (simp add: zmem_empty_def)
  then show ?thesis by (simp add: w'_def w''_def Let_def)
qed

text \<open>
  An acquire that Redis answers grants a lease exactly when fewer than \<open>limit\<close> unexpired
  leases are held: leases whose holder died stop counting when their expiry passes, and a
  tenant below its limit is never refused.
\<close>

theorem acquire_grants_iff_below_limit:
  assumes "redis_leases R zs" and "Acquire R us now i t limit w = (Inr r, w')"
  shows "r = (if int (card {x. \<exists>s. zs w (concKey us t) x = Some s \<and> now < s}) < limit
              then Some \<lparr>lease_ID = i, lease_TenantID = t\<rparr> else None)"
  using redis_leases.Acquire_decides [OF assms] by (simp add: redis_leases.live_def [OF assms(1)])

theorem acquire_grants_iff_below_limit_witness:
  "\<exists>w'. Acquire zmem_redis Itoa 70000 ''b'' 7 1
      (zmem_empty\<lparr>zm_sets := (\<lambda>k. if k = ''conc:7'' then [(''a'', 61000)] else [])\<rparr>)
    = (Inr (Some \<lparr>lease_ID = ''b'', lease_TenantID = 7\<rparr>), w')"
proof -
  let ?w = "zmem_empty\<lparr>zm_sets := (\<lambda>k. if k = ''conc:7'' then [(''a'', 61000)] else [])\<rparr>"
  have k: "concKey Itoa 7 = ''conc:7''" by code_simp
  obtain r w' where a: "Acquire zmem_redis Itoa 70000 ''b'' 7 1 ?w = (Inr r, w')"
    by (simp add: Acquire_def k Run_def lease_script_def zmem_redis_def LeaseTTL_ms_def go_simps Let_def)
  have e: "{x. \<exists>s. map_of (zm_sets ?w (concKey Itoa 7)) x = Some s \<and> 70000 < s} = {}"
    by (auto simp: k zmem_empty_def)
  show ?thesis using acquire_grants_iff_below_limit [OF zmem_redis_leases a] a unfolding e by auto
qed

text \<open>
  What \<^verbatim>\<open>Allow\<close> tells the caller is consistent. The remaining count lies between zero
  and the limit, and the wait is zero exactly when the request was admitted, so a refused
  caller is always told to wait.
\<close>

theorem allow_decision_consistent:
  assumes "0 < perMinute" and "perMinute \<le> MaxInt32"
    and "\<And>t u. HMGET R (rateKey us k) w = Some (t, u) \<Longrightarrow> 0 \<le> t"
    and "Allow R us now k perMinute w = (Inr d, w')"
  shows "0 \<le> rd_Remaining d \<and> rd_Remaining d \<le> rd_Limit d \<and> rd_Limit d = perMinute
    \<and> 0 \<le> rd_RetryAfter d \<and> (rd_Allowed d \<longleftrightarrow> rd_RetryAfter d = 0)"
proof -
  obtain reply b ttl where tb: "token_bucket perMinute (refill_rate perMinute) now 1 (HMGET R (rateKey us k) w) = (reply, b, ttl)"
    by (metis prod_cases3)
  have pr: "plan_rate perMinute" using assms(1,2) by unfold_locales
  obtain a n r where reply: "reply = [a, n, r]" "0 \<le> n" "n \<le> perMinute" "a = 1 \<longleftrightarrow> r = 0" "0 \<le> r"
    using plan_rate.token_bucket_reply [OF pr tb] assms(3) by blast
  have "d = \<lparr>rd_Allowed = (a = 1), rd_Limit = perMinute, rd_Remaining = n, rd_RetryAfter = r * 10 ^ 6\<rparr>"
    using assms(1,4) by (auto simp: Allow_def Run_def run_token_bucket_def tb reply(1) triple_def go_simps split: if_splits)
  then show ?thesis using reply by simp
qed

theorem allow_decision_consistent_witness:
  "\<exists>d w'. Allow zmem_redis Itoa 5000 7 60 (zmem_empty\<lparr>zm_hashes := [''rl:7'' \<mapsto> (1 / 2, 5000)]\<rparr>) = (Inr d, w')
    \<and> 0 \<le> rd_RetryAfter d \<and> (rd_Allowed d \<longleftrightarrow> rd_RetryAfter d = 0)"
proof -
  let ?w = "zmem_empty\<lparr>zm_hashes := [''rl:7'' \<mapsto> (1 / 2, 5000)]\<rparr>"
  have k: "rateKey Itoa 7 = ''rl:7''" by code_simp
  have tb: "token_bucket 60 (refill_rate 60) 5000 1 (Some (1 / 2, 5000)) = ([0, 0, 500], (1 / 2, 5000), 120000)"
    by code_simp
  obtain d w' where a: "Allow zmem_redis Itoa 5000 7 60 ?w = (Inr d, w')"
    by (simp add: Allow_def Run_def run_token_bucket_def tb triple_def zmem_redis_def go_simps k)
  have h: "HMGET zmem_redis (rateKey Itoa 7) ?w = Some (t, u) \<Longrightarrow> 0 \<le> t" for t u
    by (auto simp: k zmem_redis_def)
  show ?thesis using allow_decision_consistent [of 60, OF _ _ h a] a by (auto simp: MaxInt32_def)
qed

end
