(* ===== verification/Cache.thy ===== *)
theory Cache
  imports Go_Strings Go_Float
begin

text \<open>
  Package \<^verbatim>\<open>internal/cache\<close> with its Redis index (\<^verbatim>\<open>storage/redis/cacheindex.go\<close>) and its catalogue
  table (\<^verbatim>\<open>storage/postgres/cacherepo.go\<close>): the derivation of keys, and the manager over the
  three ports. SHA-256, the Redis hash commands and the object store are parameters.
\<close>

section \<open>Keys (\<^verbatim>\<open>key.go\<close>)\<close>

text \<open>A finite double: its sign bit and its magnitude.\<close>

record float64 =
  signbit :: bool
  magnitude :: rat

record Params =
  CFGScale :: float64
  AudioTemperature :: float64
  AudioTopK :: int
  AudioTopP :: float64
  AudioRepetitionPenalty :: float64
  EOAExtraFrames :: int
  SampleRate :: int

record Input =
  ModelVersion :: string
  VoiceID :: string
  Normalize :: bool
  in_Params :: Params
  in_Text :: string

type_synonym Key = "byte list"

definition Key_String :: "Key \<Rightarrow> string" where
  "Key_String k = hex k"

text \<open>\<^verbatim>\<open>FormatFloat(v, 'f', 4, 64)\<close>: the exact value rounded to four decimals, ties to even.\<close>

definition fixed4 :: "nat \<Rightarrow> string" where
  "fixed4 n = dec (n div 10000) @ ''.'' @ pad 4 (dec (n mod 10000))"

definition canonicalFloat :: "float64 \<Rightarrow> string" where
  "canonicalFloat v = (if signbit v then ''-'' else []) @ fixed4 (nat (round_even (magnitude v * 10000)))"

definition canonicalParams :: "Params \<Rightarrow> string" where
  "canonicalParams p = Join
    [''cfg='' @ canonicalFloat (CFGScale p),
     ''temp='' @ canonicalFloat (AudioTemperature p),
     ''topk='' @ Itoa (AudioTopK p),
     ''topp='' @ canonicalFloat (AudioTopP p),
     ''rep='' @ canonicalFloat (AudioRepetitionPenalty p),
     ''eoa='' @ Itoa (EOAExtraFrames p),
     ''rate='' @ Itoa (SampleRate p)] '',''"

definition CanonicalText :: "string \<Rightarrow> string" where
  "CanonicalText text = Join (Fields text) '' ''"

definition material :: "Input \<Rightarrow> string" where
  "material inp = ModelVersion inp @ ''|'' @ VoiceID inp @ ''|'' @ FormatBool (Normalize inp) @ ''|''
     @ canonicalParams (in_Params inp) @ ''|'' @ CanonicalText (in_Text inp)"

definition Derive :: "(string \<Rightarrow> Key) \<Rightarrow> Input \<Rightarrow> Key" where
  "Derive sha256 inp = sha256 (material inp)"

section \<open>The manager (\<^verbatim>\<open>cache.go\<close>)\<close>

definition IndexTTL :: int where "IndexTTL = 30 * 24 * 3600 * 10 ^ 9"

datatype cache_error = ErrMiss | IndexFailed | ObjectFailed | CatalogueFailed

record Entry =
  S3Key :: string
  Format :: string
  entry_DurationMS :: int
  Bytes :: int

record 'w cache_index =
  idxGet :: "Key \<Rightarrow> ('w, cache_error, Entry) op"
  idxPut :: "Key \<Rightarrow> Entry \<Rightarrow> int \<Rightarrow> ('w, cache_error, unit) op"
  idxDelete :: "Key \<Rightarrow> ('w, cache_error, unit) op"

record 'w object_store =
  objGet :: "string \<Rightarrow> ('w, cache_error, byte list) op"
  objPut :: "string \<Rightarrow> byte list \<Rightarrow> int \<Rightarrow> ('w, cache_error, unit) op"
  objDelete :: "string \<Rightarrow> ('w, cache_error, unit) op"

record 'w cache_catalogue =
  catRecord :: "Key \<Rightarrow> Entry \<Rightarrow> ('w, cache_error, unit) op"
  catTouch :: "Key \<Rightarrow> ('w, cache_error, unit) op"

record 'w Manager =
  m_index :: "'w cache_index"
  m_store :: "'w object_store"
  m_catalogue :: "'w cache_catalogue"

definition ObjectKey :: "Key \<Rightarrow> string" where
  "ObjectKey k = ''cache/'' @ take 2 (Key_String k) @ ''/'' @ Key_String k @ ''.pcm''"

definition Lookup :: "'w Manager \<Rightarrow> Key \<Rightarrow> ('w, cache_error, Entry \<times> byte list) op" where
  "Lookup m k =
    bindE (idxGet (m_index m) k) (\<lambda>entry.
      catchE (objGet (m_store m) (S3Key entry))
        (\<lambda>_. bindE (idxDelete (m_index m) k) (\<lambda>_. failE ErrMiss))
        (\<lambda>body. bindE (catTouch (m_catalogue m) k) (\<lambda>_. returnE (entry, body))))"

definition cache_Store :: "'w Manager \<Rightarrow> Key \<Rightarrow> Entry \<Rightarrow> byte list \<Rightarrow> ('w, cache_error, unit) op" where
  "cache_Store m k entry0 body =
    (let entry = (if S3Key entry0 = [] then entry0\<lparr>S3Key := ObjectKey k\<rparr> else entry0)
     in bindE (objPut (m_store m) (S3Key entry) body (Bytes entry)) (\<lambda>_.
        bindE (catRecord (m_catalogue m) k entry) (\<lambda>_.
        idxPut (m_index m) k entry IndexTTL)))"

section \<open>The Redis index (\<^verbatim>\<open>cacheindex.go\<close>)\<close>

record 'w redis_hash =
  HGetAll :: "string \<Rightarrow> ('w, cache_error, (string \<times> string) list) op"
  HSetExpire :: "string \<Rightarrow> (string \<times> string) list \<Rightarrow> int \<Rightarrow> ('w, cache_error, unit) op"  \<comment> \<open>one transaction\<close>
  Expire :: "string \<Rightarrow> int \<Rightarrow> ('w, cache_error, unit) op"
  Del :: "string \<Rightarrow> ('w, cache_error, unit) op"

definition indexKey :: "Key \<Rightarrow> string" where
  "indexKey k = ''cache:'' @ Key_String k"

definition field :: "(string \<times> string) list \<Rightarrow> string \<Rightarrow> string" where
  "field m f = (case map_of m f of None \<Rightarrow> [] | Some v \<Rightarrow> v)"

definition CacheIndex_Get :: "'w redis_hash \<Rightarrow> Key \<Rightarrow> ('w, cache_error, Entry) op" where
  "CacheIndex_Get h k =
    bindE (HGetAll h (indexKey k)) (\<lambda>fields.
      if fields = [] then failE ErrMiss
      else case ParseInt 32 (field fields ''duration_ms'') of None \<Rightarrow> failE ErrMiss
      | Some duration \<Rightarrow>
        (case ParseInt 64 (field fields ''bytes'') of None \<Rightarrow> failE ErrMiss
         | Some sz \<Rightarrow>
             bindE (Expire h (indexKey k) IndexTTL) (\<lambda>_.
               returnE \<lparr>S3Key = field fields ''s3_key'', Format = field fields ''format'',
                        entry_DurationMS = duration, Bytes = sz\<rparr>)))"

definition entry_fields :: "Entry \<Rightarrow> (string \<times> string) list" where
  "entry_fields e = [(''s3_key'', S3Key e), (''format'', Format e),
     (''duration_ms'', Itoa (entry_DurationMS e)), (''bytes'', Itoa (Bytes e))]"

definition CacheIndex_Put :: "'w redis_hash \<Rightarrow> Key \<Rightarrow> Entry \<Rightarrow> int \<Rightarrow> ('w, cache_error, unit) op" where
  "CacheIndex_Put h k e ttl = HSetExpire h (indexKey k) (entry_fields e) ttl"

definition CacheIndex_Delete :: "'w redis_hash \<Rightarrow> Key \<Rightarrow> ('w, cache_error, unit) op" where
  "CacheIndex_Delete h k = Del h (indexKey k)"

definition CacheIndex :: "'w redis_hash \<Rightarrow> 'w cache_index" where
  "CacheIndex h = \<lparr>idxGet = CacheIndex_Get h, idxPut = CacheIndex_Put h, idxDelete = CacheIndex_Delete h\<rparr>"

section \<open>The catalogue table (\<^verbatim>\<open>cacherepo.go\<close>, \<^verbatim>\<open>db/cache.sql.go\<close>)\<close>

record AudioCache =
  ac_key :: Key
  ac_entry :: Entry
  ac_hit_count :: int
  ac_created_at :: int
  ac_last_hit_at :: int

definition UpsertCacheEntry :: "int \<Rightarrow> Key \<Rightarrow> Entry \<Rightarrow> AudioCache list \<Rightarrow> AudioCache list" where
  "UpsertCacheEntry now k e rows =
    (if \<exists>r \<in> set rows. ac_key r = k
     then sql_update (\<lambda>r. ac_key r = k) (\<lambda>r. r\<lparr>ac_entry := e, ac_last_hit_at := now\<rparr>) rows
     else rows @ [\<lparr>ac_key = k, ac_entry = e, ac_hit_count = 0, ac_created_at = now, ac_last_hit_at = now\<rparr>])"

definition TouchCacheEntry :: "int \<Rightarrow> Key \<Rightarrow> AudioCache list \<Rightarrow> AudioCache list" where
  "TouchCacheEntry now k rows =
    sql_update (\<lambda>r. ac_key r = k) (\<lambda>r. r\<lparr>ac_hit_count := ac_hit_count r + 1, ac_last_hit_at := now\<rparr>) rows"

text \<open>
  The deployed cache: Redis hashes, objects and the table behind one fault schedule \<open>F\<close>; \<open>now\<close>
  is the clock of the database.
\<close>

record cache_data =
  cd_hashes :: "string \<Rightarrow> (string \<times> string) list"
  cd_objects :: "string \<Rightarrow> byte list option"
  cd_rows :: "AudioCache list"

definition dep_hash :: "(nat \<Rightarrow> fault) \<Rightarrow> cache_data svc redis_hash" where
  "dep_hash F = \<lparr>HGetAll = (\<lambda>k. call F IndexFailed (\<lambda>d. (Inr (cd_hashes d k), d))),
     HSetExpire = (\<lambda>k fs t. call F IndexFailed (\<lambda>d. (Inr (), d\<lparr>cd_hashes := (cd_hashes d)(k := fs @ cd_hashes d k)\<rparr>))),
     Expire = (\<lambda>k t. call F IndexFailed (\<lambda>d. (Inr (), d))),
     Del = (\<lambda>k. call F IndexFailed (\<lambda>d. (Inr (), d\<lparr>cd_hashes := (cd_hashes d)(k := [])\<rparr>)))\<rparr>"

definition dep_store :: "(nat \<Rightarrow> fault) \<Rightarrow> cache_data svc object_store" where
  "dep_store F = \<lparr>objGet = (\<lambda>s. call F ObjectFailed (\<lambda>d.
       ((case cd_objects d s of None \<Rightarrow> Inl ObjectFailed | Some b \<Rightarrow> Inr b), d))),
     objPut = (\<lambda>s b n. call F ObjectFailed (\<lambda>d. (Inr (), d\<lparr>cd_objects := (cd_objects d)(s \<mapsto> b)\<rparr>))),
     objDelete = (\<lambda>s. call F ObjectFailed (\<lambda>d. (Inr (), d\<lparr>cd_objects := (cd_objects d)(s := None)\<rparr>)))\<rparr>"

definition CacheCatalogue_Record :: "(nat \<Rightarrow> fault) \<Rightarrow> int \<Rightarrow> Key \<Rightarrow> Entry \<Rightarrow> (cache_data svc, cache_error, unit) op" where
  "CacheCatalogue_Record F now k e =
    call F CatalogueFailed (\<lambda>d. (Inr (), d\<lparr>cd_rows := UpsertCacheEntry now k e (cd_rows d)\<rparr>))"

definition CacheCatalogue_Touch :: "(nat \<Rightarrow> fault) \<Rightarrow> int \<Rightarrow> Key \<Rightarrow> (cache_data svc, cache_error, unit) op" where
  "CacheCatalogue_Touch F now k =
    call F CatalogueFailed (\<lambda>d. (Inr (), d\<lparr>cd_rows := TouchCacheEntry now k (cd_rows d)\<rparr>))"

definition dep_manager :: "(nat \<Rightarrow> fault) \<Rightarrow> int \<Rightarrow> cache_data svc Manager" where
  "dep_manager F now = \<lparr>m_index = CacheIndex (dep_hash F), m_store = dep_store F,
     m_catalogue = \<lparr>catRecord = CacheCatalogue_Record F now, catTouch = CacheCatalogue_Touch F now\<rparr>\<rparr>"

text \<open>What an index hash says about its key.\<close>

definition index_entry :: "(string \<times> string) list \<Rightarrow> Entry option" where
  "index_entry fs =
    (if fs = [] then None
     else case (ParseInt 32 (field fs ''duration_ms''), ParseInt 64 (field fs ''bytes'')) of
        (Some duration, Some sz) \<Rightarrow> Some \<lparr>S3Key = field fs ''s3_key'', Format = field fs ''format'',
                                        entry_DurationMS = duration, Bytes = sz\<rparr>
      | _ \<Rightarrow> None)"

definition dep_ix :: "cache_data svc \<Rightarrow> Key \<Rightarrow> Entry option" where
  "dep_ix w k = index_entry (cd_hashes (svc_data w) (indexKey k))"

definition dep_obj :: "cache_data svc \<Rightarrow> string \<Rightarrow> byte list option" where
  "dep_obj w = cd_objects (svc_data w)"

section \<open>What the manager relies on\<close>

text \<open>
  \<open>ix\<close> and \<open>obj\<close> observe the index and the objects. A call that fails may or may not have
  taken effect, but it has no other effect; the catalogue touches neither.
\<close>

definition entry_ok :: "Entry \<Rightarrow> bool" where
  "entry_ok e \<longleftrightarrow> - (2 ^ 31) \<le> entry_DurationMS e \<and> entry_DurationMS e < 2 ^ 31
     \<and> - (2 ^ 63) \<le> Bytes e \<and> Bytes e < 2 ^ 63"

locale cache_ports =
  fixes m :: "'w Manager" and ix :: "'w \<Rightarrow> Key \<Rightarrow> Entry option" and obj :: "'w \<Rightarrow> string \<Rightarrow> byte list option"
  assumes get_any: "idxGet (m_index m) k w = (re, w') \<Longrightarrow> ix w' = ix w \<and> obj w' = obj w"
    and get_hit: "idxGet (m_index m) k w = (Inr e, w') \<Longrightarrow> ix w k = Some e"
    and put_any: "idxPut (m_index m) k e t w = (r, w') \<Longrightarrow> entry_ok e \<Longrightarrow>
      obj w' = obj w \<and> (ix w' = ix w \<or> ix w' = (ix w)(k \<mapsto> e))"
    and put_ok: "idxPut (m_index m) k e t w = (Inr u, w') \<Longrightarrow> entry_ok e \<Longrightarrow> ix w' = (ix w)(k \<mapsto> e)"
    and del_any: "idxDelete (m_index m) k w = (r, w') \<Longrightarrow>
      obj w' = obj w \<and> (ix w' = ix w \<or> ix w' = (ix w)(k := None))"
    and del_ok: "idxDelete (m_index m) k w = (Inr u, w') \<Longrightarrow> ix w' = (ix w)(k := None)"
    and read_any: "objGet (m_store m) s w = (b, w') \<Longrightarrow> ix w' = ix w \<and> obj w' = obj w"
    and read_ok: "objGet (m_store m) s w = (Inr body, w') \<Longrightarrow> obj w s = Some body"
    and write_any: "objPut (m_store m) s body n w = (r, w') \<Longrightarrow>
      ix w' = ix w \<and> (obj w' = obj w \<or> obj w' = (obj w)(s \<mapsto> body))"
    and write_ok: "objPut (m_store m) s body n w = (Inr u, w') \<Longrightarrow> obj w' = (obj w)(s \<mapsto> body)"
    and cat_any: "catRecord (m_catalogue m) k e w = (r, w') \<Longrightarrow> ix w' = ix w \<and> obj w' = obj w"
    and remove_any: "objDelete (m_store m) s w = (r, w') \<Longrightarrow>
      ix w' = ix w \<and> (obj w' = obj w \<or> obj w' = (obj w)(s := None))"
    and touch_any: "catTouch (m_catalogue m) k w = (r, w') \<Longrightarrow> ix w' = ix w \<and> obj w' = obj w"
begin

text \<open>Every index entry names the object of its own key.\<close>

definition own_objects :: "'w \<Rightarrow> bool" where
  "own_objects w \<longleftrightarrow> (\<forall>k e. ix w k = Some e \<longrightarrow> S3Key e = ObjectKey k)"

lemma Lookup_hit:
  assumes "Lookup m k w = (Inr (e, body), w')"
  shows "ix w k = Some e" and "obj w (S3Key e) = Some body" and "ix w' = ix w" and "obj w' = obj w"
proof -
  obtain w1 w2 where 1: "idxGet (m_index m) k w = (Inr e, w1)"
    and 2: "objGet (m_store m) (S3Key e) w1 = (Inr body, w2)"
    and 3: "catTouch (m_catalogue m) k w2 = (Inr (), w')"
    using assms by (auto simp: Lookup_def go_simps split: prod.splits sum.splits)
  show "ix w k = Some e" by (rule get_hit [OF 1])
  show "obj w (S3Key e) = Some body" using read_ok [OF 2] get_any [OF 1] by simp
  show "ix w' = ix w" "obj w' = obj w"
    using get_any [OF 1] read_any [OF 2] touch_any [OF 3] by simp_all
qed

lemma Lookup_frame:
  assumes "Lookup m k w = (r, w')"
  shows "obj w' = obj w" and "ix w' = ix w \<or> ix w' = (ix w)(k := None)"
proof -
  obtain r1 w1 where 1: "idxGet (m_index m) k w = (r1, w1)" by fastforce
  have "obj w' = obj w \<and> (ix w' = ix w \<or> ix w' = (ix w)(k := None))"
  proof (cases r1)
    case (Inr e)
    obtain r2 w2 where 2: "objGet (m_store m) (S3Key e) w1 = (r2, w2)" by fastforce
    show ?thesis
    proof (cases r2)
      case (Inl err)
      obtain r3 w3 where 3: "idxDelete (m_index m) k w2 = (r3, w3)" by fastforce
      then have "w' = w3" using assms 1 2 Inr Inl by (auto simp: Lookup_def go_simps split: sum.splits)
      then show ?thesis using get_any [OF 1] read_any [OF 2] del_any [OF 3] by auto
    next
      case body: (Inr b)
      obtain r3 w3 where 3: "catTouch (m_catalogue m) k w2 = (r3, w3)" by fastforce
      then have "w' = w3" using assms 1 2 Inr body by (auto simp: Lookup_def go_simps split: sum.splits)
      then show ?thesis using get_any [OF 1] read_any [OF 2] touch_any [OF 3] by auto
    qed
  qed (use assms 1 get_any [OF 1] in \<open>auto simp: Lookup_def go_simps\<close>)
  then show "obj w' = obj w" "ix w' = ix w \<or> ix w' = (ix w)(k := None)" by simp_all
qed

text \<open>A hit whose object is gone becomes a miss and forgets the entry.\<close>

lemma Lookup_stale:
  assumes "Lookup m k w = (Inl ErrMiss, w')" and "ix w k = Some e"
    and "\<And>w1. idxGet (m_index m) k w \<noteq> (Inl ErrMiss, w1)"
    and "\<And>w1 w2. catTouch (m_catalogue m) k w1 \<noteq> (Inl ErrMiss, w2)"
    and "\<And>w1 w2. idxDelete (m_index m) k w1 \<noteq> (Inl ErrMiss, w2)"
  shows "ix w' k = None"
proof -
  obtain e' w1 w2 w3 where 1: "idxGet (m_index m) k w = (Inr e', w1)" "w' = w3"
    and 3: "idxDelete (m_index m) k w2 = (Inr (), w3)"
    using assms by (auto simp: Lookup_def go_simps split: prod.splits sum.splits)
  then show ?thesis using del_ok [OF 3] by simp
qed

lemma Store_frame:
  assumes "cache_Store m k e body w = (r, w')" and "entry_ok e" and "S3Key e = []"
  shows "obj w' = obj w \<or> obj w' = (obj w)(ObjectKey k \<mapsto> body)"
    and "ix w' = ix w \<or> ix w' = (ix w)(k \<mapsto> e\<lparr>S3Key := ObjectKey k\<rparr>)"
    and "r = Inr () \<Longrightarrow> obj w' = (obj w)(ObjectKey k \<mapsto> body)"
    and "r = Inr () \<Longrightarrow> ix w' = (ix w)(k \<mapsto> e\<lparr>S3Key := ObjectKey k\<rparr>)"
proof -
  let ?e = "e\<lparr>S3Key := ObjectKey k\<rparr>"
  have ok: "entry_ok ?e" using assms(2) by (simp add: entry_ok_def)
  obtain r1 w1 where 1: "objPut (m_store m) (ObjectKey k) body (Bytes e) w = (r1, w1)" by fastforce
  obtain r2 w2 where 2: "catRecord (m_catalogue m) k ?e w1 = (r2, w2)" by fastforce
  obtain r3 w3 where 3: "idxPut (m_index m) k ?e IndexTTL w2 = (r3, w3)" by fastforce
  have run: "(r, w') = (case r1 of Inl err \<Rightarrow> (Inl err, w1) | Inr _ \<Rightarrow> (case r2 of Inl err \<Rightarrow> (Inl err, w2) | Inr _ \<Rightarrow> (r3, w3)))"
    using assms(1,3) 1 2 3 by (auto simp: cache_Store_def Let_def go_simps split: sum.splits)
  note laws = write_any [OF 1] cat_any [OF 2] put_any [OF 3 ok]
  show "obj w' = obj w \<or> obj w' = (obj w)(ObjectKey k \<mapsto> body)"
    "ix w' = ix w \<or> ix w' = (ix w)(k \<mapsto> ?e)"
    using run laws by (auto split: sum.splits)
  assume r: "r = Inr ()"
  then have all: "r1 = Inr ()" "r2 = Inr ()" "r3 = Inr ()" "w' = w3" using run by (auto split: sum.splits)
  show "obj w' = (obj w)(ObjectKey k \<mapsto> body)" "ix w' = (ix w)(k \<mapsto> ?e)"
    using write_ok [of "ObjectKey k" body] put_ok [of k ?e] 1 2 3 all laws ok by auto
qed

end

section \<open>The deployed cache meets the contract\<close>

lemma indexKey_inj [simp]: "indexKey k = indexKey k' \<longleftrightarrow> k = k'"
  by (auto simp: indexKey_def Key_String_def dest: hex_inj)

lemma index_entry_roundtrip [simp]:
  assumes "entry_ok e"
  shows "index_entry (entry_fields e @ fs) = Some e"
proof -
  have "ParseInt 32 (Itoa (entry_DurationMS e)) = Some (entry_DurationMS e)"
    "ParseInt 64 (Itoa (Bytes e)) = Some (Bytes e)"
    using assms by (auto simp: entry_ok_def intro!: ParseInt_Itoa)
  then show ?thesis by (simp add: index_entry_def entry_fields_def field_def)
qed

lemma index_entry_Nil [simp]: "index_entry [] = None"
  by (simp add: index_entry_def)

lemma CacheIndex_Get_alt:
  "CacheIndex_Get h k = bindE (HGetAll h (indexKey k)) (\<lambda>fs. case index_entry fs of None \<Rightarrow> failE ErrMiss
     | Some e \<Rightarrow> bindE (Expire h (indexKey k) IndexTTL) (\<lambda>_. returnE e))"
  unfolding CacheIndex_Get_def index_entry_def
  by (rule arg_cong [where f = "bindE (HGetAll h (indexKey k))"]) (rule ext, simp split: option.split)

lemma CacheIndex_Get_dep:
  assumes "CacheIndex_Get (dep_hash F) k w = (r, w')"
  shows "svc_data w' = svc_data w" and "r = Inr e \<Longrightarrow> dep_ix w k = Some e"
proof -
  obtain r1 w1 where 1: "HGetAll (dep_hash F) (indexKey k) w = (r1, w1)" by fastforce
  have d1: "svc_data w1 = svc_data w" "\<And>fs. r1 = Inr fs \<Longrightarrow> fs = cd_hashes (svc_data w) (indexKey k)"
    using 1 by (auto simp: dep_hash_def elim!: call_cases)
  obtain r2 w2 where 2: "Expire (dep_hash F) (indexKey k) IndexTTL w1 = (r2, w2)" by fastforce
  have d2: "svc_data w2 = svc_data w1" using 2 by (auto simp: dep_hash_def elim!: call_cases)
  have "svc_data w' = svc_data w \<and> (r = Inr e \<longrightarrow> dep_ix w k = Some e)"
  proof (cases r1)
    case (Inl err)
    then show ?thesis using assms 1 d1(1) by (auto simp: CacheIndex_Get_def go_simps)
  next
    case (Inr fs)
    have "dep_ix w k = index_entry fs" using d1(2) [OF Inr] by (simp add: dep_ix_def)
    moreover have "(r, w') = (case index_entry fs of None \<Rightarrow> (Inl ErrMiss, w1)
        | Some v \<Rightarrow> (case r2 of Inl err \<Rightarrow> (Inl err, w2) | Inr _ \<Rightarrow> (Inr v, w2)))"
      using assms unfolding CacheIndex_Get_alt bindE_def 1 Inr
      by (cases "index_entry fs"; cases r2) (simp_all add: 2 failE_def returnE_def)
    ultimately show ?thesis using d1(1) d2 by (auto split: option.splits sum.splits)
  qed
  then show "svc_data w' = svc_data w" "r = Inr e \<Longrightarrow> dep_ix w k = Some e" by simp_all
qed

interpretation dep: cache_ports "dep_manager F now" dep_ix dep_obj for F now
proof (unfold_locales, goal_cases)
  case (1 k w re w')
  then have "CacheIndex_Get (dep_hash F) k w = (re, w')" by (simp add: dep_manager_def CacheIndex_def)
  from CacheIndex_Get_dep(1) [OF this] show ?case by (simp add: dep_obj_def dep_ix_def fun_eq_iff)
next
  case (2 k w e w')
  then have "CacheIndex_Get (dep_hash F) k w = (Inr e, w')" by (simp add: dep_manager_def CacheIndex_def)
  from CacheIndex_Get_dep(2) [OF this] show ?case by simp
next
  case (3 k e t w r w')
  then show ?case
    by (auto simp: dep_manager_def CacheIndex_def CacheIndex_Put_def dep_hash_def dep_obj_def dep_ix_def fun_eq_iff
        elim!: call_cases)
next
  case (4 k e t w u w')
  then show ?case
    by (auto simp: dep_manager_def CacheIndex_def CacheIndex_Put_def dep_hash_def dep_ix_def fun_eq_iff elim!: call_cases)
next
  case (5 k w r w')
  then show ?case
    by (auto simp: dep_manager_def CacheIndex_def CacheIndex_Delete_def dep_hash_def dep_obj_def dep_ix_def fun_eq_iff
        elim!: call_cases)
next
  case (6 k w u w')
  then show ?case
    by (auto simp: dep_manager_def CacheIndex_def CacheIndex_Delete_def dep_hash_def dep_ix_def fun_eq_iff elim!: call_cases)
qed (auto simp: dep_manager_def dep_store_def dep_obj_def dep_ix_def fun_eq_iff CacheCatalogue_Record_def
      CacheCatalogue_Touch_def elim!: call_cases split: option.splits)

section \<open>Histories\<close>

text \<open>
  Any sequence of stores, lookups and evictions, each of which may fail half way. The second
  component collects the audio each store was given for its key.
\<close>

inductive cache_step :: "'w Manager \<Rightarrow> 'w \<times> (Key \<times> byte list) set \<Rightarrow> 'w \<times> (Key \<times> byte list) set \<Rightarrow> bool"
  for m where
  step_store: "entry_ok e \<Longrightarrow> S3Key e = [] \<Longrightarrow> cache_Store m k e body w = (r, w')
    \<Longrightarrow> cache_step m (w, H) (w', insert (k, body) H)"
| step_lookup: "Lookup m k w = (rl, w') \<Longrightarrow> cache_step m (w, H) (w', H)"
| step_evict: "objDelete (m_store m) s w = (r, w') \<Longrightarrow> cache_step m (w, H) (w', H)"
| step_forget: "idxDelete (m_index m) k w = (r, w') \<Longrightarrow> cache_step m (w, H) (w', H)"

lemma ObjectKey_inj [simp]: "ObjectKey k = ObjectKey k' \<longleftrightarrow> k = k'"
proof
  assume a: "ObjectKey k = ObjectKey k'"
  have len: "length (ObjectKey x) = 11 + min (2 * length x) 2 + 2 * length x" for x
    by (simp add: ObjectKey_def Key_String_def)
  have "length k = length k'" using arg_cong [OF a, of length] len [of k] len [of k'] by (auto simp: min_def split: if_splits)
  then have "hex k = hex k'" using a by (simp add: ObjectKey_def Key_String_def)
  then show "k = k'" by (rule hex_inj)
qed simp

context cache_ports
begin

definition cache_inv :: "'w \<times> (Key \<times> byte list) set \<Rightarrow> bool" where
  "cache_inv s \<longleftrightarrow> own_objects (fst s) \<and> (\<forall>k b. obj (fst s) (ObjectKey k) = Some b \<longrightarrow> (k, b) \<in> snd s)"

lemma cache_step_inv:
  assumes "cache_step m s s'" and "cache_inv s"
  shows "cache_inv s'"
  using assms(1)
proof cases
  case (step_store e k body w r w' H)
  note frame = Store_frame(1,2) [OF step_store(5,3,4)]
  have own: "own_objects w'" using assms(2) step_store(1) frame(2)
    by (auto simp: cache_inv_def own_objects_def split: if_splits)
  have "obj w' (ObjectKey k') = Some b \<Longrightarrow> (k', b) \<in> insert (k, body) H" for k' b
    using assms(2) step_store(1) frame(1) by (auto simp: cache_inv_def split: if_splits)
  with own show ?thesis by (simp add: cache_inv_def step_store(2))
next
  case (step_lookup k w rl w' H)
  then show ?thesis using assms(2) Lookup_frame [OF step_lookup(3)]
    by (auto simp: cache_inv_def own_objects_def split: if_splits)
next
  case (step_evict x w r w' H)
  then show ?thesis using assms(2) remove_any [OF step_evict(3)]
    by (auto simp: cache_inv_def own_objects_def split: if_splits)
next
  case (step_forget k w r w' H)
  then show ?thesis using assms(2) del_any [OF step_forget(3)]
    by (auto simp: cache_inv_def own_objects_def split: if_splits)
qed

lemma cache_run_inv: "(cache_step m)\<^sup>*\<^sup>* s s' \<Longrightarrow> cache_inv s \<Longrightarrow> cache_inv s'"
  by (induction rule: rtranclp_induct) (auto intro: cache_step_inv)

lemma cache_hit_stored:
  assumes "cache_inv (w, H)" and "Lookup m k w = (Inr (e, body), w')"
  shows "(k, body) \<in> H"
  using assms Lookup_hit [OF assms(2)] by (auto simp: cache_inv_def own_objects_def)

lemma store_then_lookup:
  assumes "cache_Store m k e body w = (Inr (), w1)" and "entry_ok e" and "S3Key e = []"
    and "Lookup m k w1 = (Inr (e', body'), w2)"
  shows "body' = body" and "e' = e\<lparr>S3Key := ObjectKey k\<rparr>"
  using Store_frame(3,4) [OF assms(1,2,3)] Lookup_hit(1,2) [OF assms(4)] by auto

end

section \<open>Lemmas on keys\<close>

lemma fixed4_inj: "fixed4 m = fixed4 n \<Longrightarrow> m = n"
proof -
  assume a: "fixed4 m = fixed4 n"
  have dot: "CHR ''.'' \<notin> set (dec k)" for k using dec_digits [of "CHR ''.''" k] by auto
  have h: "dec (m div 10000) = dec (n div 10000)" and t: "pad 4 (dec (m mod 10000)) = pad 4 (dec (n mod 10000))"
    using a append_sep_inj [OF dot dot] by (auto simp: fixed4_def)
  have "undec (pad 4 (dec k)) = k" for k
  proof -
    have "undec (replicate j CHR ''0'' @ s) = undec s" for j s
      by (induction j) (simp_all add: undec_def undigit_def)
    then show ?thesis by (simp add: pad_def undec_dec)
  qed
  then have "m mod 10000 = n mod 10000" using t by metis
  with dec_inj [OF h] show "m = n" by (metis div_mult_mod_eq)
qed

lemma fixed4_chars: "c \<in> set (fixed4 n) \<Longrightarrow> c = CHR ''.'' \<or> is_digit c"
  using dec_digits by (auto simp: fixed4_def pad_def is_digit_def)

text \<open>Two doubles are the same knob when they agree in sign and to four decimals.\<close>

definition same_knob :: "float64 \<Rightarrow> float64 \<Rightarrow> bool" where
  "same_knob v w \<longleftrightarrow> signbit v = signbit w \<and> nat (round_even (magnitude v * 10000)) = nat (round_even (magnitude w * 10000))"

lemma canonicalFloat_eq: "canonicalFloat v = canonicalFloat w \<longleftrightarrow> same_knob v w"
proof -
  have "CHR ''-'' \<notin> set (fixed4 n)" for n using fixed4_chars [of "CHR ''-''" n] by (auto simp: is_digit_def)
  then have neg: "fixed4 n \<noteq> CHR ''-'' # xs" for n xs by (metis list.set_intros(1))
  have inj: "fixed4 a = fixed4 b \<longleftrightarrow> a = b" for a b using fixed4_inj by blast
  show ?thesis
    by (cases "signbit v"; cases "signbit w")
      (simp_all add: canonicalFloat_def same_knob_def inj neg neg [symmetric])
qed

lemma comma_free: "CHR '','' \<notin> set (canonicalFloat v)" "CHR '','' \<notin> set (Itoa i)"
  "CHR ''|'' \<notin> set (canonicalFloat v)" "CHR ''|'' \<notin> set (Itoa i)"
  using fixed4_chars [of "CHR '',''"] fixed4_chars [of "CHR ''|''"] Itoa_chars [of "CHR '',''" i] Itoa_chars [of "CHR ''|''" i]
  by (auto simp: canonicalFloat_def is_digit_def)

definition same_params :: "Params \<Rightarrow> Params \<Rightarrow> bool" where
  "same_params p q \<longleftrightarrow> same_knob (CFGScale p) (CFGScale q) \<and> same_knob (AudioTemperature p) (AudioTemperature q)
    \<and> AudioTopK p = AudioTopK q \<and> same_knob (AudioTopP p) (AudioTopP q)
    \<and> same_knob (AudioRepetitionPenalty p) (AudioRepetitionPenalty q)
    \<and> EOAExtraFrames p = EOAExtraFrames q \<and> SampleRate p = SampleRate q"

lemma canonicalParams_eq: "canonicalParams p = canonicalParams q \<longleftrightarrow> same_params p q"
  by (simp add: canonicalParams_def same_params_def append_sep_inj comma_free canonicalFloat_eq)

lemma canonicalParams_no_bar: "CHR ''|'' \<notin> set (canonicalParams p)"
  by (simp add: canonicalParams_def comma_free)

lemma FormatBool_eq [simp]: "FormatBool a = FormatBool b \<longleftrightarrow> a = b"
  by (simp add: FormatBool_def)

lemma FormatBool_no_bar [simp]: "CHR ''|'' \<notin> set (FormatBool b)"
  by (simp add: FormatBool_def)

definition same_audio :: "Input \<Rightarrow> Input \<Rightarrow> bool" where
  "same_audio a b \<longleftrightarrow> ModelVersion a = ModelVersion b \<and> VoiceID a = VoiceID b \<and> Normalize a = Normalize b
    \<and> same_params (in_Params a) (in_Params b) \<and> CanonicalText (in_Text a) = CanonicalText (in_Text b)"

lemma material_eq:
  assumes "CHR ''|'' \<notin> set (ModelVersion a)" and "CHR ''|'' \<notin> set (ModelVersion b)"
    and "CHR ''|'' \<notin> set (VoiceID a)" and "CHR ''|'' \<notin> set (VoiceID b)"
  shows "material a = material b \<longleftrightarrow> same_audio a b"
  using assms by (simp add: material_def same_audio_def append_sep_inj canonicalParams_no_bar canonicalParams_eq)

lemma Lookup_fine:
  assumes "\<forall>n. F n = Fine" and "dep_ix w k = Some e" and "dep_obj w (S3Key e) = Some body"
  shows "\<exists>w'. Lookup (dep_manager F now) k w = (Inr (e, body), w')"
proof -
  have ix: "index_entry (cd_hashes (svc_data w) (indexKey k)) = Some e" using assms(2) by (simp add: dep_ix_def)
  have get: "CacheIndex_Get (dep_hash F) k w = (Inr e, w\<lparr>svc_calls := Suc (Suc (svc_calls w))\<rparr>)"
    unfolding CacheIndex_Get_alt by (simp add: bindE_def dep_hash_def call_def assms(1) ix returnE_def)
  show ?thesis
    using assms by (simp add: Lookup_def dep_manager_def CacheIndex_def dep_store_def dep_obj_def
        CacheCatalogue_Touch_def call_def bindE_def [of "CacheIndex_Get _ _"] get catchE_def bindE_def returnE_def)
qed

section \<open>Properties\<close>



text \<open>
  C18: a cache hit is never wrong audio. However stores, lookups, evictions and stale-entry
  removals are interleaved, and wherever Redis, the object store or the database fail or lose
  an answer, the bytes a successful lookup returns were given to a store of that very key.
\<close>

theorem cache_hit_is_audio_stored_for_key:
  assumes "(cache_step (dep_manager F now))\<^sup>*\<^sup>*
      (\<lparr>svc_data = \<lparr>cd_hashes = (\<lambda>_. []), cd_objects = Map.empty, cd_rows = []\<rparr>, svc_calls = 0\<rparr>, {}) (w, H)"
    and "Lookup (dep_manager F now) k w = (Inr (e, body), w')"
  shows "(k, body) \<in> H"
proof -
  have "dep.cache_inv (\<lparr>svc_data = \<lparr>cd_hashes = (\<lambda>_. []), cd_objects = Map.empty, cd_rows = []\<rparr>, svc_calls = 0\<rparr>, {})"
    by (simp add: dep.cache_inv_def dep.own_objects_def dep_ix_def dep_obj_def)
  from dep.cache_run_inv [OF assms(1) this] show ?thesis by (rule dep.cache_hit_stored [OF _ assms(2)])
qed

theorem cache_hit_is_audio_stored_for_key_witness:
  "\<exists>w w'. snd (cache_Store (dep_manager (\<lambda>_. Fine) 0) [1] \<lparr>S3Key = [], Format = ''pcm'', entry_DurationMS = 5, Bytes = 2\<rparr> [7, 8]
      \<lparr>svc_data = \<lparr>cd_hashes = (\<lambda>_. []), cd_objects = Map.empty, cd_rows = []\<rparr>, svc_calls = 0\<rparr>) = w
    \<and> Lookup (dep_manager (\<lambda>_. Fine) 0) [1] w
      = (Inr (\<lparr>S3Key = ''cache/01/01.pcm'', Format = ''pcm'', entry_DurationMS = 5, Bytes = 2\<rparr>, [7, 8]), w')
    \<and> ([1], [7, 8]) \<in> {([1] :: Key, [7, 8] :: byte list)}"
proof -
  let ?m = "dep_manager (\<lambda>_. Fine) 0" and ?e = "\<lparr>S3Key = [], Format = ''pcm'', entry_DurationMS = 5, Bytes = 2\<rparr>"
  let ?w0 = "\<lparr>svc_data = \<lparr>cd_hashes = (\<lambda>_. []), cd_objects = Map.empty, cd_rows = []\<rparr>, svc_calls = 0\<rparr>"
  define w where "w = snd (cache_Store ?m [1] ?e [7, 8] ?w0)"
  have k: "ObjectKey [1] = ''cache/01/01.pcm''" by code_simp
  have st: "cache_Store ?m [1] ?e [7, 8] ?w0 = (Inr (), w)"
    by (simp add: w_def cache_Store_def dep_manager_def dep_store_def CacheCatalogue_Record_def CacheIndex_def
        CacheIndex_Put_def dep_hash_def call_def Let_def go_simps k)
  have ok: "entry_ok ?e" by (simp add: entry_ok_def)
  note found = dep.Store_frame(3,4) [OF st ok _ refl]
  obtain w' where lk: "Lookup ?m [1] w = (Inr (\<lparr>S3Key = ''cache/01/01.pcm'', Format = ''pcm'', entry_DurationMS = 5, Bytes = 2\<rparr>, [7, 8]), w')"
    using Lookup_fine [of "\<lambda>_. Fine" w "[1]" "?e\<lparr>S3Key := ObjectKey [1]\<rparr>" "[7, 8]" 0] found by (auto simp: k)
  have "(cache_step ?m)\<^sup>*\<^sup>* (?w0, {}) (w, {([1], [7, 8])})"
    using step_store [OF ok _ st, of "{}"] by auto
  from cache_hit_is_audio_stored_for_key [OF this lk] lk show ?thesis using w_def by auto
qed

text \<open>
  C28: a store that succeeds is found again. If nothing intervenes, a lookup of the key that
  succeeds returns the same bytes and the entry with its object key, through the decimal
  fields of the Redis hash.
\<close>

theorem cache_store_lookup_roundtrip:
  assumes "cache_Store (dep_manager F now) k e body w = (Inr (), w1)"
    and "entry_ok e" and "S3Key e = []"
    and "\<forall>n. F n = Fine"
  shows "\<exists>w2. Lookup (dep_manager F now) k w1 = (Inr (e\<lparr>S3Key := ObjectKey k\<rparr>, body), w2)"
proof -
  let ?e = "e\<lparr>S3Key := ObjectKey k\<rparr>"
  note st = dep.Store_frame(3,4) [OF assms(1,2,3) refl]
  show ?thesis by (rule Lookup_fine) (simp_all add: st assms(4))
qed

theorem cache_store_lookup_roundtrip_witness:
  "\<exists>w1 w2. Lookup (dep_manager (\<lambda>_. Fine) 0) [3] w1
    = (Inr (\<lparr>S3Key = ObjectKey [3], Format = ''pcm'', entry_DurationMS = 9, Bytes = 1\<rparr>, [4]), w2)"
proof -
  let ?m = "dep_manager (\<lambda>_. Fine) 0" and ?e = "\<lparr>S3Key = [], Format = ''pcm'', entry_DurationMS = 9, Bytes = 1\<rparr>"
  let ?w0 = "\<lparr>svc_data = \<lparr>cd_hashes = (\<lambda>_. []), cd_objects = Map.empty, cd_rows = []\<rparr>, svc_calls = 0\<rparr>"
  obtain w1 where st: "cache_Store ?m [3] ?e [4] ?w0 = (Inr (), w1)"
    by (simp add: cache_Store_def dep_manager_def dep_store_def CacheCatalogue_Record_def CacheIndex_def
        CacheIndex_Put_def dep_hash_def call_def Let_def go_simps)
  show ?thesis using cache_store_lookup_roundtrip [OF st] by (auto simp: entry_ok_def)
qed

end
