(* ===== verification/Accounts.thy ===== *)
theory Accounts
  imports Go_Strings Go_Float
begin

text \<open>
  The account tables of the database (\<^verbatim>\<open>plans\<close>, \<^verbatim>\<open>tenants\<close>, \<^verbatim>\<open>api_keys\<close>, \<^verbatim>\<open>audit_log\<close>) with the
  statements of \<^verbatim>\<open>db/tenants.sql.go\<close> and \<^verbatim>\<open>db/api_keys.sql.go\<close> on them, and the plan tiers of
  \<^verbatim>\<open>internal/plans\<close> with \<^verbatim>\<open>storage/postgres/planrepo.go\<close>. A statement that violates a constraint of
  the schema fails and changes nothing.
\<close>

section \<open>Rows\<close>

record Plan =
  plan_ID :: string
  CharsPerMonth :: int
  ReqPerMinute :: int
  MaxConcurrentStreams :: int
  MaxJobChars :: int
  PriceUSDCents :: int
  OverageUSDPerMillion :: "rat option"

datatype tenant_status = Active_tenant | Suspended | Deleted

record TenantRow =
  t_id :: uuid
  t_plan_id :: string
  t_name :: string
  t_status :: tenant_status

record ApiKey =
  k_id :: uuid
  k_tenant_id :: uuid
  k_name :: string
  k_hash :: "byte list"
  k_prefix :: string
  k_scopes :: "string list"
  k_store_text :: bool
  k_created_at :: int
  k_last_used_at :: "int option"
  k_revoked_at :: "int option"

record AuditEntry =
  a_id :: uuid
  a_actor :: string
  a_action :: string
  a_target :: "string option"

record accounts =
  db_plans :: "Plan list"
  db_tenants :: "TenantRow list"
  db_keys :: "ApiKey list"
  db_audit :: "AuditEntry list"

datatype db_error = ErrNoRows | DbDown | Constraint

section \<open>Statements\<close>

definition GetPlan :: "string \<Rightarrow> accounts \<Rightarrow> db_error + Plan" where
  "GetPlan i d = (case find (\<lambda>p. plan_ID p = i) (db_plans d) of None \<Rightarrow> Inl ErrNoRows | Some p \<Rightarrow> Inr p)"

text \<open>The check constraints of the \<^verbatim>\<open>plans\<close> table.\<close>

definition plan_checks :: "Plan \<Rightarrow> bool" where
  "plan_checks p \<longleftrightarrow> 0 \<le> CharsPerMonth p \<and> 0 < ReqPerMinute p \<and> 0 < MaxConcurrentStreams p
     \<and> 0 < MaxJobChars p \<and> 0 \<le> PriceUSDCents p"

definition UpsertPlan :: "Plan \<Rightarrow> accounts \<Rightarrow> (db_error + unit) \<times> accounts" where
  "UpsertPlan p d =
    (if \<not> plan_checks p then (Inl Constraint, d)
     else (Inr (), d\<lparr>db_plans := (if \<exists>q \<in> set (db_plans d). plan_ID q = plan_ID p
             then sql_update (\<lambda>q. plan_ID q = plan_ID p) (\<lambda>_. p) (db_plans d)
             else db_plans d @ [p])\<rparr>))"

definition CreateTenant :: "uuid \<Rightarrow> string \<Rightarrow> string \<Rightarrow> accounts \<Rightarrow> (db_error + unit) \<times> accounts" where
  "CreateTenant i planID name d =
    (if (\<exists>t \<in> set (db_tenants d). t_id t = i) \<or> \<not> (\<exists>p \<in> set (db_plans d). plan_ID p = planID)
        \<or> \<not> (1 \<le> rune_len name \<and> rune_len name \<le> 200)
     then (Inl Constraint, d)
     else (Inr (), d\<lparr>db_tenants := db_tenants d @ [\<lparr>t_id = i, t_plan_id = planID, t_name = name, t_status = Active_tenant\<rparr>]\<rparr>))"

definition CreateAPIKey :: "ApiKey \<Rightarrow> accounts \<Rightarrow> (db_error + ApiKey) \<times> accounts" where
  "CreateAPIKey k d =
    (if (\<exists>k' \<in> set (db_keys d). k_id k' = k_id k \<or> k_hash k' = k_hash k)
        \<or> \<not> (\<exists>t \<in> set (db_tenants d). t_id t = k_tenant_id k)
        \<or> \<not> (1 \<le> rune_len (k_name k) \<and> rune_len (k_name k) \<le> 200) \<or> length (k_hash k) \<noteq> 32
     then (Inl Constraint, d)
     else (Inr k, d\<lparr>db_keys := db_keys d @ [k]\<rparr>))"

definition GetAPIKeyByHash :: "byte list \<Rightarrow> accounts \<Rightarrow> db_error + ApiKey \<times> TenantRow \<times> Plan" where
  "GetAPIKeyByHash h d =
    (case find (\<lambda>k. k_hash k = h \<and> k_revoked_at k = None) (db_keys d) of None \<Rightarrow> Inl ErrNoRows
     | Some k \<Rightarrow>
        (case find (\<lambda>t. t_id t = k_tenant_id k) (db_tenants d) of None \<Rightarrow> Inl ErrNoRows
         | Some t \<Rightarrow>
            (case find (\<lambda>p. plan_ID p = t_plan_id t) (db_plans d) of None \<Rightarrow> Inl ErrNoRows
             | Some p \<Rightarrow> Inr (k, t, p))))"

text \<open>\<^verbatim>\<open>order by created_at desc\<close>.\<close>

definition ListAPIKeys :: "uuid \<Rightarrow> bool \<Rightarrow> accounts \<Rightarrow> ApiKey list" where
  "ListAPIKeys t includeRevoked d =
    rev (sort_key k_created_at (filter (\<lambda>k. k_tenant_id k = t \<and> (k_revoked_at k = None \<or> includeRevoked)) (db_keys d)))"

definition TouchAPIKeyLastUsed :: "int \<Rightarrow> uuid \<Rightarrow> accounts \<Rightarrow> accounts" where
  "TouchAPIKeyLastUsed now i d = d\<lparr>db_keys := sql_update (\<lambda>k. k_id k = i) (\<lambda>k. k\<lparr>k_last_used_at := Some now\<rparr>) (db_keys d)\<rparr>"

definition GetTenant :: "uuid \<Rightarrow> accounts \<Rightarrow> db_error + TenantRow \<times> Plan" where
  "GetTenant i d =
    (case find (\<lambda>t. t_id t = i) (db_tenants d) of None \<Rightarrow> Inl ErrNoRows
     | Some t \<Rightarrow> (case find (\<lambda>p. plan_ID p = t_plan_id t) (db_plans d) of None \<Rightarrow> Inl ErrNoRows | Some p \<Rightarrow> Inr (t, p)))"

definition RevokeAPIKey :: "int \<Rightarrow> uuid \<Rightarrow> uuid \<Rightarrow> accounts \<Rightarrow> nat \<times> accounts" where
  "RevokeAPIKey now i t d =
    (let w = (\<lambda>k. k_id k = i \<and> k_tenant_id k = t \<and> k_revoked_at k = None)
     in (sql_affected w (db_keys d), d\<lparr>db_keys := sql_update w (\<lambda>k. k\<lparr>k_revoked_at := Some now\<rparr>) (db_keys d)\<rparr>))"

definition CreateAuditEntry :: "AuditEntry \<Rightarrow> accounts \<Rightarrow> (db_error + unit) \<times> accounts" where
  "CreateAuditEntry a d =
    (if \<exists>b \<in> set (db_audit d). a_id b = a_id a then (Inl Constraint, d)
     else (Inr (), d\<lparr>db_audit := db_audit d @ [a]\<rparr>))"

section \<open>Plan tiers (\<^verbatim>\<open>plans.go\<close>, \<^verbatim>\<open>planrepo.go\<close>)\<close>

datatype plan_error = PlanInvalid string | DuplicatePlan string | NoPlans | ReadFailed | ParseFailed

definition Plan_validate :: "Plan \<Rightarrow> plan_error + unit" where
  "Plan_validate p =
    (if plan_ID p = [] then Inl (PlanInvalid [])
     else if CharsPerMonth p < 0 then Inl (PlanInvalid (plan_ID p))
     else if ReqPerMinute p \<le> 0 then Inl (PlanInvalid (plan_ID p))
     else if MaxConcurrentStreams p \<le> 0 then Inl (PlanInvalid (plan_ID p))
     else if MaxJobChars p \<le> 0 then Inl (PlanInvalid (plan_ID p))
     else if PriceUSDCents p < 0 then Inl (PlanInvalid (plan_ID p))
     else case OverageUSDPerMillion p of
            Some f \<Rightarrow> if f < 0 then Inl (PlanInvalid (plan_ID p)) else Inr ()
          | None \<Rightarrow> Inr ())"

fun Load_check :: "string list \<Rightarrow> Plan list \<Rightarrow> plan_error + unit" where
  "Load_check seen [] = Inr ()"
| "Load_check seen (p # ps) =
    (case Plan_validate p of Inl e \<Rightarrow> Inl e
     | Inr _ \<Rightarrow> if plan_ID p \<in> set seen then Inl (DuplicatePlan (plan_ID p)) else Load_check (plan_ID p # seen) ps)"

text \<open>\<open>read\<close> is the file system and \<open>parse\<close> the YAML decoder with unknown fields refused.\<close>

definition Load :: "(string \<Rightarrow> string option) \<Rightarrow> (string \<Rightarrow> Plan list option) \<Rightarrow> string \<Rightarrow> plan_error + Plan list" where
  "Load read parse path =
    (case read path of None \<Rightarrow> Inl ReadFailed
     | Some raw \<Rightarrow>
        (case parse raw of None \<Rightarrow> Inl ParseFailed
         | Some plans \<Rightarrow>
             if plans = [] then Inl NoPlans
             else case Load_check [] plans of Inl e \<Rightarrow> Inl e | Inr _ \<Rightarrow> Inr plans))"

fun upsert_tiers :: "(nat \<Rightarrow> fault) \<Rightarrow> Plan list \<Rightarrow> (accounts svc, db_error, unit) op" where
  "upsert_tiers F [] = returnE ()"
| "upsert_tiers F (p # ps) = bindE (call F DbDown (UpsertPlan p)) (\<lambda>_. upsert_tiers F ps)"

text \<open>
  \<open>overage_scan\<close> is the scan of the \<^verbatim>\<open>%.2f\<close> rendering into a numeric, which the column keeps to two
  decimals.
\<close>

definition UpsertPlans :: "(nat \<Rightarrow> fault) \<Rightarrow> (rat \<Rightarrow> rat) \<Rightarrow> Plan list \<Rightarrow> (accounts svc, db_error, unit) op" where
  "UpsertPlans F overage_scan tiers =
    in_tx F DbDown (upsert_tiers F (map (\<lambda>p. p\<lparr>OverageUSDPerMillion := map_option overage_scan (OverageUSDPerMillion p)\<rparr>) tiers))"

definition read_plan :: "(nat \<Rightarrow> fault) \<Rightarrow> string \<Rightarrow> (accounts svc, db_error, Plan) op" where
  "read_plan F i = call F DbDown (\<lambda>d. (GetPlan i d, d))"

definition PlanLimits_CharsPerMonth :: "(nat \<Rightarrow> fault) \<Rightarrow> string \<Rightarrow> (accounts svc, db_error, int) op" where
  "PlanLimits_CharsPerMonth F i = bindE (read_plan F i) (\<lambda>p. returnE (CharsPerMonth p))"

definition PlanLimits_MaxConcurrentStreams :: "(nat \<Rightarrow> fault) \<Rightarrow> string \<Rightarrow> (accounts svc, db_error, int) op" where
  "PlanLimits_MaxConcurrentStreams F i = bindE (read_plan F i) (\<lambda>p. returnE (MaxConcurrentStreams p))"

definition PlanLimits_MaxJobChars :: "(nat \<Rightarrow> fault) \<Rightarrow> string \<Rightarrow> (accounts svc, db_error, int) op" where
  "PlanLimits_MaxJobChars F i = bindE (read_plan F i) (\<lambda>p. returnE (MaxJobChars p))"

record cachedPlan =
  cp_reqPerMinute :: int
  cp_expiresAt :: int

definition PlanCacheTTL :: int where "PlanCacheTTL = 30 * 10 ^ 9"

text \<open>The cache is the second component of the state; \<open>now\<close> and \<open>now'\<close> are its two clock readings.\<close>

definition PlanLimits_ReqPerMinute :: "(nat \<Rightarrow> fault) \<Rightarrow> int \<Rightarrow> int \<Rightarrow> string
    \<Rightarrow> (accounts svc \<times> (string \<Rightarrow> cachedPlan option), db_error, int) op" where
  "PlanLimits_ReqPerMinute F now now' i s =
    (case snd s i of
       Some entry \<Rightarrow> if now < cp_expiresAt entry then (Inr (cp_reqPerMinute entry), s)
         else (case read_plan F i (fst s) of
                 (Inl e, a) \<Rightarrow> (Inl e, (a, snd s))
               | (Inr p, a) \<Rightarrow> (Inr (ReqPerMinute p),
                   (a, (snd s)(i \<mapsto> \<lparr>cp_reqPerMinute = ReqPerMinute p, cp_expiresAt = now' + PlanCacheTTL\<rparr>))))
     | None \<Rightarrow> (case read_plan F i (fst s) of
                 (Inl e, a) \<Rightarrow> (Inl e, (a, snd s))
               | (Inr p, a) \<Rightarrow> (Inr (ReqPerMinute p),
                   (a, (snd s)(i \<mapsto> \<lparr>cp_reqPerMinute = ReqPerMinute p, cp_expiresAt = now' + PlanCacheTTL\<rparr>)))))"

section \<open>Lemmas\<close>

lemma Plan_validate_ok: "Plan_validate p = Inr () \<Longrightarrow> plan_checks p \<and> plan_ID p \<noteq> []"
  by (auto simp: Plan_validate_def plan_checks_def split: if_splits option.splits)

lemma Load_check_ok:
  "Load_check seen ps = Inr () \<Longrightarrow> distinct (map plan_ID ps) \<and> set (map plan_ID ps) \<inter> set seen = {} \<and> (\<forall>p \<in> set ps. plan_checks p)"
  by (induction seen ps rule: Load_check.induct)
    (auto dest: Plan_validate_ok split: sum.splits if_splits)

lemma Load_ok:
  "Load read parse path = Inr ps \<Longrightarrow> ps \<noteq> [] \<and> distinct (map plan_ID ps) \<and> (\<forall>p \<in> set ps. plan_checks p)"
  by (auto simp: Load_def dest: Load_check_ok split: option.splits if_splits sum.splits)

lemma UpsertPlan_effect:
  assumes "UpsertPlan p d = (Inr (), d')"
  shows "find (\<lambda>q. plan_ID q = i) (db_plans d') = (if i = plan_ID p then Some p else find (\<lambda>q. plan_ID q = i) (db_plans d))"
    and "db_tenants d' = db_tenants d \<and> db_keys d' = db_keys d \<and> db_audit d' = db_audit d"
proof -
  have "find (\<lambda>q. plan_ID q = i) (sql_update (\<lambda>q. plan_ID q = plan_ID p) (\<lambda>_. p) rows) =
      (if i = plan_ID p \<and> (\<exists>q \<in> set rows. plan_ID q = i) then Some p else find (\<lambda>q. plan_ID q = i) rows)" for rows
    by (induction rows) (auto simp: sql_update_def)
  then show "find (\<lambda>q. plan_ID q = i) (db_plans d') = (if i = plan_ID p then Some p else find (\<lambda>q. plan_ID q = i) (db_plans d))"
    using assms find_None_key [of plan_ID "plan_ID p" "db_plans d"]
    by (auto simp: UpsertPlan_def find_append split: if_splits option.split)
  show "db_tenants d' = db_tenants d \<and> db_keys d' = db_keys d \<and> db_audit d' = db_audit d"
    using assms by (auto simp: UpsertPlan_def split: if_splits)
qed

lemma upsert_tiers_effect:
  assumes "upsert_tiers F ps s = (Inr (), s')" and "distinct (map plan_ID ps)"
  shows "find (\<lambda>q. plan_ID q = i) (db_plans (svc_data s')) =
      (case find (\<lambda>q. plan_ID q = i) ps of Some p \<Rightarrow> Some p | None \<Rightarrow> find (\<lambda>q. plan_ID q = i) (db_plans (svc_data s)))"
  using assms
proof (induction ps arbitrary: s)
  case Nil
  then show ?case by (simp add: returnE_def)
next
  case (Cons p ps)
  obtain s1 where 1: "call F DbDown (UpsertPlan p) s = (Inr (), s1)" and 2: "upsert_tiers F ps s1 = (Inr (), s')"
    using Cons.prems(1) by (auto simp: bindE_def split: prod.splits sum.splits)
  have none: "find (\<lambda>q. plan_ID q = plan_ID p) ps = None"
    using Cons.prems(2) find_None_key [of plan_ID "plan_ID p" ps] by (auto simp: image_iff)
  show ?case
    using Cons.IH [OF 2] Cons.prems(2) UpsertPlan_effect(1) [OF call_ok [OF 1], of i] none
    by (auto split: option.splits)
qed

section \<open>Properties\<close>

text \<open>
  C31: a plan file is applied whole or not at all. For a file that loads, the update ends
  either with the tables exactly as they were or with every tier of the file in force and
  every other plan untouched; wherever the database fails, no mix of old and new limits is
  left behind.
\<close>

theorem plan_file_applied_atomically:
  assumes "Load read parse path = Inr tiers" and "UpsertPlans F scan tiers s = (r, s')"
  shows "svc_data s' = svc_data s \<or>
    (\<forall>i. (case find (\<lambda>p. plan_ID p = i) tiers of
            Some p \<Rightarrow> GetPlan i (svc_data s') = Inr (p\<lparr>OverageUSDPerMillion := map_option scan (OverageUSDPerMillion p)\<rparr>)
          | None \<Rightarrow> GetPlan i (svc_data s') = GetPlan i (svc_data s)))"
proof -
  let ?g = "\<lambda>p. p\<lparr>OverageUSDPerMillion := map_option scan (OverageUSDPerMillion p)\<rparr>"
  have d: "distinct (map plan_ID (map ?g tiers))" using Load_ok [OF assms(1)] by (simp add: comp_def)
  have fg: "find (\<lambda>q. plan_ID q = i) (map ?g tiers) = map_option ?g (find (\<lambda>p. plan_ID p = i) tiers)" for i
    by (induction tiers) auto
  show ?thesis
    using assms(2) unfolding UpsertPlans_def
  proof (cases rule: in_tx_atomic)
    case (rolled_back e)
    then show ?thesis by simp
  next
    case (committed a s1 s2)
    then show ?thesis
      using upsert_tiers_effect [OF _ d, of F s1 s2] fg
      by (auto simp: GetPlan_def split: option.splits)
  qed
qed

theorem plan_file_applied_atomically_witness:
  "let p = \<lparr>plan_ID = ''free'', CharsPerMonth = 10000, ReqPerMinute = 20, MaxConcurrentStreams = 1, MaxJobChars = 5000,
        PriceUSDCents = 0, OverageUSDPerMillion = None\<rparr>;
     d = \<lparr>db_plans = [], db_tenants = [], db_keys = [], db_audit = []\<rparr>
   in Load (\<lambda>_. Some []) (\<lambda>_. Some [p]) ''plans.yaml'' = Inr [p]
    \<and> (let d' = svc_data (snd (UpsertPlans (\<lambda>_. Fine) id [p] \<lparr>svc_data = d, svc_calls = 0\<rparr>))
       in d' = d \<or> GetPlan ''free'' d' = Inr p)"
proof -
  define p where "p = \<lparr>plan_ID = ''free'', CharsPerMonth = 10000, ReqPerMinute = 20, MaxConcurrentStreams = 1, MaxJobChars = 5000,
        PriceUSDCents = 0, OverageUSDPerMillion = None\<rparr>"
  define d where "d = \<lparr>db_plans = [], db_tenants = [], db_keys = [], db_audit = []\<rparr>"
  have l: "Load (\<lambda>_. Some []) (\<lambda>_. Some [p]) ''plans.yaml'' = Inr [p]"
    by (simp add: Load_def Plan_validate_def p_def)
  obtain r s' where u: "UpsertPlans (\<lambda>_. Fine) id [p] \<lparr>svc_data = d, svc_calls = 0\<rparr> = (r, s')" by fastforce
  show ?thesis
    using plan_file_applied_atomically [OF l u] l u unfolding p_def [symmetric] d_def [symmetric]
    by (auto simp: Let_def p_def dest: spec [of _ "''free''"])
qed

end
