(* ===== verification/Auth.thy ===== *)
theory Auth
  imports Accounts
begin

text \<open>
  Packages \<^verbatim>\<open>internal/auth\<close> and \<^verbatim>\<open>internal/tenants\<close> with their repositories (\<^verbatim>\<open>authrepo.go\<close>,
  \<^verbatim>\<open>keyrepo.go\<close>, \<^verbatim>\<open>tenantrepo.go\<close>): the format of API keys, authentication, key management and
  tenant creation. SHA-256 is the parameter \<open>sha256\<close>; fresh identifiers and the entropy of a
  new key are arguments. No key cache is wired in, so \<^verbatim>\<open>Forget\<close> is not called.
\<close>

section \<open>Keys (\<^verbatim>\<open>key.go\<close>)\<close>

definition PrefixLive :: string where "PrefixLive = ''zt_live_''"

definition PrefixTest :: string where "PrefixTest = ''zt_test_''"

datatype auth_error = ErrUnauthorized | ErrScopeMissing string | ErrLookupFailure | ErrMalformedKey
  | ErrKeyNotFound | ErrInvalidKeyRequest | EntropyFailed | KeyStoreFailed

text \<open>\<^verbatim>\<open>base64.RawURLEncoding\<close>: 6-bit groups, no padding.\<close>

definition b64_char :: "nat \<Rightarrow> char" where
  "b64_char n = char_of (if n < 26 then 65 + n else if n < 52 then 71 + n else if n < 62 then n - 4
     else if n = 62 then 45 else 95)"

fun base64url :: "byte list \<Rightarrow> string" where
  "base64url [] = []"
| "base64url [a] = [b64_char (unat a div 4), b64_char (unat a mod 4 * 16)]"
| "base64url [a, b] = [b64_char (unat a div 4), b64_char (unat a mod 4 * 16 + unat b div 16), b64_char (unat b mod 16 * 4)]"
| "base64url (a # b # c # bs) =
    b64_char (unat a div 4) # b64_char (unat a mod 4 * 16 + unat b div 16)
    # b64_char (unat b mod 16 * 4 + unat c div 64) # b64_char (unat c mod 64) # base64url bs"

definition splitPrefix :: "string \<Rightarrow> (string \<times> string) option" where
  "splitPrefix secret =
    (if HasPrefix secret PrefixLive
     then if length PrefixLive < length secret then Some (PrefixLive, drop (length PrefixLive) secret) else None
     else if HasPrefix secret PrefixTest
     then if length PrefixTest < length secret then Some (PrefixTest, drop (length PrefixTest) secret) else None
     else None)"

definition StoredPrefix :: "string \<Rightarrow> string" where
  "StoredPrefix secret = (case splitPrefix secret of None \<Rightarrow> [] | Some (prefix, rest) \<Rightarrow> prefix @ take 8 rest)"

definition Hash :: "(string \<Rightarrow> byte list) \<Rightarrow> string \<Rightarrow> byte list" where
  "Hash sha256 secret = sha256 secret"

record Generated =
  g_Secret :: string
  g_Hash :: "byte list"
  g_Prefix :: string

text \<open>\<open>entropy\<close> is the answer of \<^verbatim>\<open>rand.Read\<close>: \<^verbatim>\<open>secretBytes\<close> random bytes, or a failure.\<close>

definition Generate :: "(string \<Rightarrow> byte list) \<Rightarrow> byte list option \<Rightarrow> string \<Rightarrow> auth_error + Generated" where
  "Generate sha256 entropy prefix =
    (if prefix \<noteq> PrefixLive \<and> prefix \<noteq> PrefixTest then Inl ErrMalformedKey
     else case entropy of None \<Rightarrow> Inl EntropyFailed
     | Some raw \<Rightarrow> let secret = prefix @ base64url raw
        in Inr \<lparr>g_Secret = secret, g_Hash = Hash sha256 secret, g_Prefix = StoredPrefix secret\<rparr>)"

definition ParseBearer :: "string \<Rightarrow> auth_error + string" where
  "ParseBearer header =
    (if length header < 7 \<or> \<not> EqualFold (take 7 header) ''bearer '' then Inl ErrMalformedKey
     else let secret = TrimSpace (drop 7 header)
       in if splitPrefix secret = None then Inl ErrMalformedKey else Inr secret)"

definition EqualHash :: "byte list \<Rightarrow> byte list \<Rightarrow> bool" where
  "EqualHash a b \<longleftrightarrow> a = b"

definition FingerprintForLogs :: "byte list \<Rightarrow> string" where
  "FingerprintForLogs h = (if length h < 6 then [] else hex (take 6 h))"

section \<open>Identities (\<^verbatim>\<open>identity.go\<close>, \<^verbatim>\<open>authrepo.go\<close>)\<close>

definition ScopeSynth :: string where "ScopeSynth = ''synth''"
definition ScopeJobs :: string where "ScopeJobs = ''jobs''"
definition ScopeUsage :: string where "ScopeUsage = ''usage''"
definition ScopeKeys :: string where "ScopeKeys = ''keys''"

definition DefaultTenantScopes :: "string list" where
  "DefaultTenantScopes = [ScopeSynth, ScopeJobs, ScopeUsage, ScopeKeys]"

record Identity =
  id_TenantID :: uuid
  id_KeyID :: uuid
  id_PlanID :: string
  id_Scopes :: "string list"
  id_StoreText :: bool
  id_KeyFingerprint :: string

definition Has :: "Identity \<Rightarrow> string \<Rightarrow> bool" where
  "Has i scope \<longleftrightarrow> scope \<in> set (id_Scopes i)"

definition Require :: "Identity \<Rightarrow> string \<Rightarrow> auth_error + unit" where
  "Require i scope = (if Has i scope then Inr () else Inl (ErrScopeMissing scope))"

definition FindByHash :: "(nat \<Rightarrow> fault) \<Rightarrow> byte list \<Rightarrow> (accounts svc, auth_error, Identity) op" where
  "FindByHash F h =
    catchE (call F DbDown (\<lambda>d. (GetAPIKeyByHash h d, d)))
      (\<lambda>e. if e = ErrNoRows then failE ErrUnauthorized else failE ErrLookupFailure)
      (\<lambda>(k, t, p). if t_status t \<noteq> Active_tenant then failE ErrUnauthorized
        else returnE \<lparr>id_TenantID = k_tenant_id k, id_KeyID = k_id k, id_PlanID = plan_ID p,
               id_Scopes = k_scopes k, id_StoreText = k_store_text k,
               id_KeyFingerprint = FingerprintForLogs (k_hash k)\<rparr>)"

definition Authenticate :: "(string \<Rightarrow> byte list) \<Rightarrow> (nat \<Rightarrow> fault) \<Rightarrow> string \<Rightarrow> (accounts svc, auth_error, Identity) op" where
  "Authenticate sha256 F secret =
    (if splitPrefix secret = None then failE ErrUnauthorized else FindByHash F (Hash sha256 secret))"

section \<open>Key management (\<^verbatim>\<open>keys.go\<close>, \<^verbatim>\<open>keyrepo.go\<close>)\<close>

definition maxKeyNameLen :: nat where "maxKeyNameLen = 200"

definition NewKeyScopes :: "string list" where "NewKeyScopes = [ScopeSynth]"

definition knownScope :: "string \<Rightarrow> bool" where
  "knownScope s \<longleftrightarrow> s = ScopeSynth \<or> s = ScopeJobs \<or> s = ScopeUsage \<or> s = ScopeKeys"

text \<open>A key record is the row without its digest.\<close>

definition KeyRepository_Create :: "(nat \<Rightarrow> fault) \<Rightarrow> int \<Rightarrow> uuid \<Rightarrow> uuid \<Rightarrow> string \<Rightarrow> string \<Rightarrow> string list \<Rightarrow> byte list
    \<Rightarrow> (accounts svc, db_error, ApiKey) op" where
  "KeyRepository_Create F now i t name prefix scopes h =
    call F DbDown (CreateAPIKey \<lparr>k_id = i, k_tenant_id = t, k_name = name, k_hash = h, k_prefix = prefix, k_scopes = scopes,
      k_store_text = False, k_created_at = now, k_last_used_at = None, k_revoked_at = None\<rparr>)"

definition KeyRepository_List :: "(nat \<Rightarrow> fault) \<Rightarrow> uuid \<Rightarrow> bool \<Rightarrow> (accounts svc, db_error, ApiKey list) op" where
  "KeyRepository_List F t includeRevoked = call F DbDown (\<lambda>d. (Inr (ListAPIKeys t includeRevoked d), d))"

definition KeyRepository_Revoke :: "(nat \<Rightarrow> fault) \<Rightarrow> int \<Rightarrow> uuid \<Rightarrow> uuid \<Rightarrow> (accounts svc, db_error, bool) op" where
  "KeyRepository_Revoke F now t i =
    bindE (call F DbDown (\<lambda>d. let (n, d') = RevokeAPIKey now i t d in (Inr n, d'))) (\<lambda>n. returnE (0 < n))"

fun check_scopes :: "Identity \<Rightarrow> string list \<Rightarrow> auth_error + unit" where
  "check_scopes caller [] = Inr ()"
| "check_scopes caller (s # ss) =
    (if \<not> knownScope s then Inl ErrInvalidKeyRequest
     else if \<not> Has caller s then Inl ErrInvalidKeyRequest else check_scopes caller ss)"

definition Keys_Create :: "(string \<Rightarrow> byte list) \<Rightarrow> (nat \<Rightarrow> fault) \<Rightarrow> int \<Rightarrow> byte list option \<Rightarrow> uuid \<Rightarrow> Identity \<Rightarrow> string
    \<Rightarrow> string list \<Rightarrow> (accounts svc, auth_error, ApiKey \<times> string) op" where
  "Keys_Create sha256 F now entropy newID caller name scopes0 =
    (if name = [] \<or> maxKeyNameLen < length name then failE ErrInvalidKeyRequest
     else let scopes = (if scopes0 = [] then NewKeyScopes else scopes0)
       in case check_scopes caller scopes of Inl e \<Rightarrow> failE e
        | Inr _ \<Rightarrow>
          (case Generate sha256 entropy PrefixLive of Inl e \<Rightarrow> failE e
           | Inr g \<Rightarrow>
               bindE (wrapE (\<lambda>_. KeyStoreFailed)
                   (KeyRepository_Create F now newID (id_TenantID caller) name (g_Prefix g) scopes (g_Hash g)))
                 (\<lambda>record. returnE (record, g_Secret g))))"

definition Keys_List :: "(nat \<Rightarrow> fault) \<Rightarrow> uuid \<Rightarrow> bool \<Rightarrow> (accounts svc, auth_error, ApiKey list) op" where
  "Keys_List F t includeRevoked = wrapE (\<lambda>_. KeyStoreFailed) (KeyRepository_List F t includeRevoked)"

definition Keys_Revoke :: "(nat \<Rightarrow> fault) \<Rightarrow> int \<Rightarrow> Identity \<Rightarrow> uuid \<Rightarrow> (accounts svc, auth_error, unit) op" where
  "Keys_Revoke F now caller keyID =
    bindE (wrapE (\<lambda>_. KeyStoreFailed) (KeyRepository_Revoke F now (id_TenantID caller) keyID))
      (\<lambda>revoked. if \<not> revoked then failE ErrKeyNotFound else returnE ())"

section \<open>Tenants (\<^verbatim>\<open>tenants/service.go\<close>, \<^verbatim>\<open>tenantrepo.go\<close>)\<close>

datatype tenant_error = ErrUnknownPlan string | ErrInvalidInput | TenantGenerate auth_error | TenantStoreFailed

definition maxNameLen :: nat where "maxNameLen = 200"

definition PlanExists :: "(nat \<Rightarrow> fault) \<Rightarrow> string \<Rightarrow> (accounts svc, db_error, bool) op" where
  "PlanExists F planID =
    catchE (read_plan F planID) (\<lambda>e. if e = ErrNoRows then returnE False else failE e) (\<lambda>_. returnE True)"

definition CreateTenantWithKey :: "(nat \<Rightarrow> fault) \<Rightarrow> (uuid \<Rightarrow> string) \<Rightarrow> TenantRow \<Rightarrow> ApiKey \<Rightarrow> uuid \<Rightarrow> string
    \<Rightarrow> (accounts svc, db_error, unit) op" where
  "CreateTenantWithKey F uuid_str tenant key auditID actor =
    in_tx F DbDown
      (bindE (call F DbDown (CreateTenant (t_id tenant) (t_plan_id tenant) (t_name tenant))) (\<lambda>_.
       bindE (call F DbDown (CreateAPIKey key)) (\<lambda>_.
       call F DbDown (CreateAuditEntry \<lparr>a_id = auditID, a_actor = actor, a_action = ''tenant.create'',
         a_target = Some (uuid_str (t_id tenant))\<rparr>))))"

definition Tenants_Create :: "(string \<Rightarrow> byte list) \<Rightarrow> (nat \<Rightarrow> fault) \<Rightarrow> (uuid \<Rightarrow> string) \<Rightarrow> int \<Rightarrow> byte list option
    \<Rightarrow> uuid \<Rightarrow> uuid \<Rightarrow> uuid \<Rightarrow> string \<Rightarrow> string \<Rightarrow> string \<Rightarrow> (accounts svc, tenant_error, TenantRow \<times> ApiKey \<times> string) op" where
  "Tenants_Create sha256 F uuid_str now entropy tenantID keyID auditID name planID actor =
    (if name = [] \<or> maxNameLen < length name then failE ErrInvalidInput
     else if planID = [] then failE ErrInvalidInput
     else bindE (wrapE (\<lambda>_. TenantStoreFailed) (PlanExists F planID)) (\<lambda>exists.
       if \<not> exists then failE (ErrUnknownPlan planID)
       else case Generate sha256 entropy PrefixLive of Inl e \<Rightarrow> failE (TenantGenerate e)
       | Inr g \<Rightarrow>
         (let tenant = \<lparr>t_id = tenantID, t_plan_id = planID, t_name = name, t_status = Active_tenant\<rparr>;
              key = \<lparr>k_id = keyID, k_tenant_id = tenantID, k_name = ''default'', k_hash = g_Hash g, k_prefix = g_Prefix g,
                     k_scopes = DefaultTenantScopes, k_store_text = False, k_created_at = now, k_last_used_at = None, k_revoked_at = None\<rparr>
          in bindE (wrapE (\<lambda>_. TenantStoreFailed) (CreateTenantWithKey F uuid_str tenant key auditID actor))
               (\<lambda>_. returnE (tenant, key, g_Secret g)))))"

section \<open>Lemmas\<close>

lemma b64_plain: "n < 64 \<Longrightarrow> plain (b64_char n)"
  by (auto simp: plain_def b64_char_def IsSpace_def)

lemma unat_byte: "unat (x :: byte) < 256"
  using unsigned_less [of x] by (simp add: nat_less_iff flip: unat_eq_nat_uint)

lemma b64_groups:
  "unat a div 4 < 64" "unat a mod 4 * 16 < 64" "unat a mod 4 * 16 + unat b div 16 < 64"
  "unat a mod 16 * 4 < 64" "unat a mod 16 * 4 + unat b div 64 < 64" "unat a mod 64 < 64"
  for a b :: byte
  using unat_byte [of a] unat_byte [of b] by linarith+

lemma base64url_plain: "list_all plain (base64url bs)"
  by (induction bs rule: base64url.induct) (simp_all add: b64_plain b64_groups)

lemma base64url_not_empty: "bs \<noteq> [] \<Longrightarrow> base64url bs \<noteq> []"
  by (cases bs rule: base64url.cases) auto

lemma Generate_live:
  assumes "Generate sha256 (Some raw) PrefixLive = Inr g" and "raw \<noteq> []"
  shows "splitPrefix (g_Secret g) \<noteq> None" and "ParseBearer (''Bearer '' @ g_Secret g) = Inr (g_Secret g)"
    and "g_Hash g = sha256 (g_Secret g)"
proof -
  have sec: "g_Secret g = PrefixLive @ base64url raw" "g_Hash g = sha256 (g_Secret g)"
    using assms(1) by (auto simp: Generate_def Hash_def Let_def)
  then show "g_Hash g = sha256 (g_Secret g)" by simp
  show sp: "splitPrefix (g_Secret g) \<noteq> None"
    using base64url_not_empty [OF assms(2)] by (simp add: sec(1) splitPrefix_def)
  have "list_all plain (g_Secret g)"
    using base64url_plain [of raw] by (simp add: sec(1) PrefixLive_def plain_def IsSpace_def)
  then have "TrimSpace (g_Secret g) = g_Secret g" by (rule TrimSpace_plain)
  moreover have "EqualFold ''Bearer '' ''bearer ''" by code_simp
  ultimately show "ParseBearer (''Bearer '' @ g_Secret g) = Inr (g_Secret g)"
    using sp by (auto simp: ParseBearer_def Let_def)
qed

text \<open>The constraints of the schema on keys.\<close>

definition keys_wf :: "accounts \<Rightarrow> bool" where
  "keys_wf d \<longleftrightarrow> distinct (map k_id (db_keys d)) \<and> distinct (map k_hash (db_keys d))"

lemma CreateAPIKey_ok:
  assumes "CreateAPIKey k d = (Inr k', d')"
  shows "k' = k" and "d' = d\<lparr>db_keys := db_keys d @ [k]\<rparr>"
    and "\<forall>k' \<in> set (db_keys d). k_id k' \<noteq> k_id k \<and> k_hash k' \<noteq> k_hash k"
  using assms by (auto simp: CreateAPIKey_def split: if_splits)

lemma CreateAPIKey_db:
  "snd (CreateAPIKey k d) = d \<or> (\<forall>k' \<in> set (db_keys d). k_id k' \<noteq> k_id k \<and> k_hash k' \<noteq> k_hash k)
     \<and> snd (CreateAPIKey k d) = d\<lparr>db_keys := db_keys d @ [k]\<rparr>"
  by (auto simp: CreateAPIKey_def)

lemma CreateTenant_ok: "CreateTenant i planID name d = (Inr u, d') \<Longrightarrow>
    d' = d\<lparr>db_tenants := db_tenants d @ [\<lparr>t_id = i, t_plan_id = planID, t_name = name, t_status = Active_tenant\<rparr>]\<rparr>"
  by (auto simp: CreateTenant_def split: if_splits)

lemma CreateAuditEntry_ok: "CreateAuditEntry a d = (Inr u, d') \<Longrightarrow> d' = d\<lparr>db_audit := db_audit d @ [a]\<rparr>"
  by (auto simp: CreateAuditEntry_def split: if_splits)

lemma FindByHash_ok:
  assumes "FindByHash F h s = (Inr i, s')"
  shows "\<exists>k \<in> set (db_keys (svc_data s)). \<exists>t \<in> set (db_tenants (svc_data s)). \<exists>p \<in> set (db_plans (svc_data s)).
      k_hash k = h \<and> k_revoked_at k = None \<and> t_id t = k_tenant_id k \<and> t_status t = Active_tenant \<and> plan_ID p = t_plan_id t
      \<and> i = \<lparr>id_TenantID = k_tenant_id k, id_KeyID = k_id k, id_PlanID = t_plan_id t, id_Scopes = k_scopes k,
             id_StoreText = k_store_text k, id_KeyFingerprint = FingerprintForLogs h\<rparr>"
    and "svc_data s' = svc_data s"
proof -
  obtain r s1 where c: "call F DbDown (\<lambda>d. (GetAPIKeyByHash h d, d)) s = (r, s1)" by fastforce
  obtain k t p where r: "r = Inr (k, t, p)" using assms c
    by (cases r) (auto simp: FindByHash_def catchE_def failE_def split: if_splits)
  have g: "GetAPIKeyByHash h (svc_data s) = Inr (k, t, p)" "svc_data s1 = svc_data s"
    using call_ok [OF c [unfolded r]] by auto
  have a: "t_status t = Active_tenant" "s' = s1"
    and i: "i = \<lparr>id_TenantID = k_tenant_id k, id_KeyID = k_id k, id_PlanID = plan_ID p, id_Scopes = k_scopes k,
             id_StoreText = k_store_text k, id_KeyFingerprint = FingerprintForLogs (k_hash k)\<rparr>"
    using assms c r by (auto simp: FindByHash_def catchE_def failE_def returnE_def split: if_splits)
  have s': "svc_data s' = svc_data s" using a(2) g(2) by simp
  have rows: "k \<in> set (db_keys (svc_data s))" "k_hash k = h" "k_revoked_at k = None"
    "t \<in> set (db_tenants (svc_data s))" "t_id t = k_tenant_id k" "p \<in> set (db_plans (svc_data s))" "plan_ID p = t_plan_id t"
    using g(1) by (auto simp: GetAPIKeyByHash_def dest!: find_SomeD split: option.splits)
  show "svc_data s' = svc_data s" by (rule s')
  show "\<exists>k \<in> set (db_keys (svc_data s)). \<exists>t \<in> set (db_tenants (svc_data s)). \<exists>p \<in> set (db_plans (svc_data s)).
      k_hash k = h \<and> k_revoked_at k = None \<and> t_id t = k_tenant_id k \<and> t_status t = Active_tenant \<and> plan_ID p = t_plan_id t
      \<and> i = \<lparr>id_TenantID = k_tenant_id k, id_KeyID = k_id k, id_PlanID = t_plan_id t, id_Scopes = k_scopes k,
             id_StoreText = k_store_text k, id_KeyFingerprint = FingerprintForLogs h\<rparr>"
    using rows a i by (intro bexI [of _ k] bexI [of _ t] bexI [of _ p]) simp_all
qed

text \<open>A key id that was used and whose every row is revoked.\<close>

definition revoked_id :: "accounts \<Rightarrow> uuid \<Rightarrow> bool" where
  "revoked_id d i \<longleftrightarrow> (\<exists>k \<in> set (db_keys d). k_id k = i) \<and> (\<forall>k \<in> set (db_keys d). k_id k = i \<longrightarrow> k_revoked_at k \<noteq> None)"

definition revoked_mono :: "accounts svc \<Rightarrow> accounts svc \<Rightarrow> bool" where
  "revoked_mono s s' \<longleftrightarrow> (\<forall>i. revoked_id (svc_data s) i \<longrightarrow> revoked_id (svc_data s') i)"

interpretation revoked: state_order revoked_mono
  by unfold_locales (auto simp: revoked_mono_def)

lemma keeps_call:
  assumes "\<And>d. revoked_mono \<lparr>svc_data = d, svc_calls = 0\<rparr> \<lparr>svc_data = snd (f d), svc_calls = 0\<rparr>"
  shows "keeps revoked_mono (call F err f)"
  unfolding keeps_def revoked_mono_def
  using assms [unfolded revoked_mono_def] call_data [of F err f] by (metis svc.select_convs(1))

lemma keeps_in_tx:
  assumes "keeps revoked_mono m"
  shows "keeps revoked_mono (in_tx F err m)"
  unfolding keeps_def
proof
  fix s
  obtain r s' where t: "in_tx F err m s = (r, s')" by fastforce
  then show "revoked_mono s (snd (in_tx F err m s))"
  proof (cases rule: in_tx_atomic)
    case (rolled_back e)
    then show ?thesis using t by (simp add: revoked_mono_def)
  next
    case (committed a s1 s2)
    then have "revoked_mono s1 s2" using assms by (metis keepsD)
    then show ?thesis using t committed by (simp add: revoked_mono_def)
  qed
qed

lemma revoked_mono_keys [intro]: "db_keys (snd (f d)) = db_keys d \<Longrightarrow> revoked_mono \<lparr>svc_data = d, svc_calls = 0\<rparr> \<lparr>svc_data = snd (f d), svc_calls = 0\<rparr>"
  by (simp add: revoked_mono_def revoked_id_def)

lemma keeps_CreateAPIKey: "keeps revoked_mono (call F err (CreateAPIKey k))"
  by (rule keeps_call) (auto simp: CreateAPIKey_def revoked_mono_def revoked_id_def)

lemma keeps_Revoke: "keeps revoked_mono (KeyRepository_Revoke F now t i)"
  unfolding KeyRepository_Revoke_def
  by (intro revoked.keeps_bindE revoked.keeps_returnE keeps_call)
    (fastforce simp: revoked_mono_def revoked_id_def RevokeAPIKey_def sql_update_def Let_def)

lemma keeps_FindByHash: "keeps revoked_mono (FindByHash F h)"
  unfolding FindByHash_def
  by (intro revoked.keeps_catchE revoked.keeps_if revoked.keeps_failE revoked.keeps_prod revoked.keeps_returnE keeps_call
      revoked_mono_keys) simp

lemma keeps_upsert_tiers: "keeps revoked_mono (upsert_tiers F ps)"
  by (induction ps) (auto intro!: revoked.keeps_returnE revoked.keeps_bindE keeps_call simp: UpsertPlan_def)

lemma keeps_read_plan: "keeps revoked_mono (read_plan F i)"
  unfolding read_plan_def by (intro keeps_call) (simp add: revoked.R_refl)

lemma keeps_CreateTenantWithKey: "keeps revoked_mono (CreateTenantWithKey F us t k a actor)"
  unfolding CreateTenantWithKey_def
  by (intro keeps_in_tx revoked.keeps_bindE keeps_CreateAPIKey keeps_call revoked_mono_keys)
    (auto simp: CreateTenant_def CreateAuditEntry_def)

text \<open>What the gateways do to the account tables, in any order.\<close>

inductive account_step :: "(string \<Rightarrow> byte list) \<Rightarrow> accounts svc \<Rightarrow> accounts svc \<Rightarrow> bool" for sha256 where
  step_authenticate: "account_step sha256 s (snd (Authenticate sha256 F secret s))"
| step_create: "account_step sha256 s (snd (Keys_Create sha256 F now ent i caller name scopes s))"
| step_revoke: "account_step sha256 s (snd (Keys_Revoke F now caller i s))"
| step_list: "account_step sha256 s (snd (Keys_List F t incl s))"
| step_tenant: "account_step sha256 s (snd (Tenants_Create sha256 F us now ent t i a name planID actor s))"
| step_plans: "account_step sha256 s (snd (UpsertPlans F scan tiers s))"

lemma account_step_revoked:
  assumes "account_step sha256 s s'"
  shows "revoked_mono s s'"
proof -
  have "keeps revoked_mono (Authenticate sha256 F secret)" for F secret
    unfolding Authenticate_def by (intro revoked.keeps_if revoked.keeps_failE keeps_FindByHash)
  moreover have "keeps revoked_mono (Keys_Create sha256 F now ent i caller name scopes)" for F now ent i caller name scopes
    unfolding Keys_Create_def KeyRepository_Create_def Let_def
    by (intro revoked.keeps_if revoked.keeps_failE revoked.keeps_sum revoked.keeps_bindE revoked.keeps_wrapE
        keeps_CreateAPIKey revoked.keeps_returnE)
  moreover have "keeps revoked_mono (Keys_Revoke F now caller i)" for F now caller i
    unfolding Keys_Revoke_def
    by (intro revoked.keeps_bindE revoked.keeps_wrapE keeps_Revoke revoked.keeps_if revoked.keeps_failE revoked.keeps_returnE)
  moreover have "keeps revoked_mono (Keys_List F t incl)" for F t incl
    unfolding Keys_List_def KeyRepository_List_def by (intro revoked.keeps_wrapE keeps_call revoked_mono_keys) simp
  moreover have "keeps revoked_mono (Tenants_Create sha256 F us now ent t i a name planID actor)" for F us now ent t i a name planID actor
    unfolding Tenants_Create_def PlanExists_def Let_def
    by (intro revoked.keeps_if revoked.keeps_failE revoked.keeps_sum revoked.keeps_bindE revoked.keeps_wrapE
        keeps_CreateTenantWithKey revoked.keeps_returnE revoked.keeps_catchE keeps_read_plan)
  moreover have "keeps revoked_mono (UpsertPlans F scan tiers)" for F scan tiers
    unfolding UpsertPlans_def by (intro keeps_in_tx keeps_upsert_tiers)
  ultimately show ?thesis using assms by (auto simp: keeps_def elim!: account_step.cases)
qed

lemma account_run_revoked: "(account_step sha256)\<^sup>*\<^sup>* s s' \<Longrightarrow> revoked_mono s s'"
  by (induction rule: rtranclp_induct) (auto intro: revoked.R_refl revoked.R_trans account_step_revoked)

lemma Keys_Revoke_ok:
  assumes "Keys_Revoke F now caller i s = (Inr (), s')" and "keys_wf (svc_data s)"
  shows "revoked_id (svc_data s') i"
    and "\<exists>k \<in> set (db_keys (svc_data s)). k_id k = i \<and> k_tenant_id k = id_TenantID caller"
proof -
  let ?w = "\<lambda>k. k_id k = i \<and> k_tenant_id k = id_TenantID caller \<and> k_revoked_at k = None"
  obtain n s1 where c: "call F DbDown (\<lambda>d. let (n, d') = RevokeAPIKey now i (id_TenantID caller) d in (Inr n, d')) s = (Inr n, s1)"
    and n: "0 < n" and s': "s' = s1"
    using assms(1) by (auto simp: Keys_Revoke_def KeyRepository_Revoke_def go_simps split: prod.splits sum.splits if_splits)
  have d: "n = sql_affected ?w (db_keys (svc_data s))"
    "db_keys (svc_data s1) = sql_update ?w (\<lambda>k. k\<lparr>k_revoked_at := Some now\<rparr>) (db_keys (svc_data s))"
    using call_ok [OF c] by (auto simp: RevokeAPIKey_def Let_def dest!: sym [of _ "svc_data s1"])
  then obtain k where k: "k \<in> set (db_keys (svc_data s))" "?w k" using n by auto
  then show "\<exists>k \<in> set (db_keys (svc_data s)). k_id k = i \<and> k_tenant_id k = id_TenantID caller" by auto
  have only: "k' = k" if "k' \<in> set (db_keys (svc_data s))" "k_id k' = i" for k'
    using assms(2) k that by (auto simp: keys_wf_def distinct_map inj_on_def)
  have "k\<lparr>k_revoked_at := Some now\<rparr> \<in> set (db_keys (svc_data s'))"
    using k d(2) s' by (auto simp: in_sql_update intro!: bexI [of _ k])
  moreover have "k_revoked_at y \<noteq> None" if y: "y \<in> set (db_keys (svc_data s'))" "k_id y = i" for y
  proof -
    obtain x where x: "x \<in> set (db_keys (svc_data s))" "y = (if ?w x then x\<lparr>k_revoked_at := Some now\<rparr> else x)"
      using y(1) d(2) s' by (auto simp: in_sql_update)
    then have "k_id x = i" using y(2) by (auto split: if_splits)
    with only [OF x(1)] k(2) x(2) show ?thesis by simp
  qed
  ultimately show "revoked_id (svc_data s') i"
    using k(2) unfolding revoked_id_def by (auto intro!: bexI [of _ "k\<lparr>k_revoked_at := Some now\<rparr>"])
qed

section \<open>Properties\<close>

text \<open>
  C20: authentication admits exactly the live keys of active tenants. When the database
  answers, a well-formed secret is accepted if and only if a key row carries its digest, is
  not revoked, and its tenant is active; the identity carries that row's tenant, scopes and
  plan. Every refusal is the same \<open>ErrUnauthorized\<close>, so a prober cannot tell the reasons
  apart, and nothing is changed.
\<close>

theorem authenticate_live_keys_only:
  assumes "keys_wf (svc_data s)" and "F (svc_calls s) = Fine" and "distinct (map t_id (db_tenants (svc_data s)))"
    and "\<forall>k \<in> set (db_keys (svc_data s)). \<exists>t \<in> set (db_tenants (svc_data s)). t_id t = k_tenant_id k"
    and "\<forall>t \<in> set (db_tenants (svc_data s)). \<exists>p \<in> set (db_plans (svc_data s)). plan_ID p = t_plan_id t"
    and "Authenticate sha256 F secret s = (r, s')"
  shows "svc_data s' = svc_data s
    \<and> (r = Inl ErrUnauthorized \<or> (\<exists>i. r = Inr i))
    \<and> ((\<exists>i. r = Inr i) \<longleftrightarrow> splitPrefix secret \<noteq> None \<and>
        (\<exists>k \<in> set (db_keys (svc_data s)). \<exists>t \<in> set (db_tenants (svc_data s)).
           k_hash k = sha256 secret \<and> k_revoked_at k = None \<and> t_id t = k_tenant_id k \<and> t_status t = Active_tenant))
    \<and> (\<forall>i. r = Inr i \<longrightarrow> (\<exists>k \<in> set (db_keys (svc_data s)). k_hash k = sha256 secret \<and> k_revoked_at k = None
           \<and> id_KeyID i = k_id k \<and> id_TenantID i = k_tenant_id k \<and> id_Scopes i = k_scopes k))"
proof (cases "splitPrefix secret = None")
  case True
  then show ?thesis using assms(6) by (auto simp: Authenticate_def failE_def)
next
  case False
  let ?d = "svc_data s"
  have run: "FindByHash F (sha256 secret) s = (r, s')" using assms(6) False by (simp add: Authenticate_def Hash_def)
  show ?thesis
  proof (cases "\<exists>k \<in> set (db_keys ?d). k_hash k = sha256 secret \<and> k_revoked_at k = None")
    case False
    then have "find (\<lambda>k. k_hash k = sha256 secret \<and> k_revoked_at k = None) (db_keys ?d) = None"
      by (auto simp: find_None_iff)
    then have "r = Inl ErrUnauthorized \<and> svc_data s' = ?d"
      using run by (auto simp: FindByHash_def catchE_def call_fine assms(2) GetAPIKeyByHash_def failE_def)
    then show ?thesis using False by auto
  next
    case True
    then obtain k where find: "find (\<lambda>k. k_hash k = sha256 secret \<and> k_revoked_at k = None) (db_keys ?d) = Some k"
      by (cases "find (\<lambda>k. k_hash k = sha256 secret \<and> k_revoked_at k = None) (db_keys ?d)") (auto simp: find_None_iff)
    note k = find_SomeD [OF find]
    obtain t where ft: "find (\<lambda>t. t_id t = k_tenant_id k) (db_tenants ?d) = Some t"
      using assms(4) k by (cases "find (\<lambda>t. t_id t = k_tenant_id k) (db_tenants ?d)") (auto simp: find_None_iff)
    note t = find_SomeD [OF ft]
    obtain p where fp: "find (\<lambda>p. plan_ID p = t_plan_id t) (db_plans ?d) = Some p"
      using assms(5) t by (cases "find (\<lambda>p. plan_ID p = t_plan_id t) (db_plans ?d)") (auto simp: find_None_iff)
    have same_key: "k' = k" if "k' \<in> set (db_keys ?d)" "k_hash k' = sha256 secret" for k'
      using assms(1) that k by (auto simp: keys_wf_def distinct_map inj_on_def)
    have same_tenant: "t' = t" if "t' \<in> set (db_tenants ?d)" "t_id t' = k_tenant_id k" for t'
      using assms(3) that t by (auto simp: distinct_map inj_on_def)
    have "svc_data s' = ?d \<and> (if t_status t = Active_tenant
        then (\<exists>i. r = Inr i \<and> id_KeyID i = k_id k \<and> id_TenantID i = k_tenant_id k \<and> id_Scopes i = k_scopes k)
        else r = Inl ErrUnauthorized)"
      using run find ft fp
      by (auto simp: FindByHash_def catchE_def call_fine assms(2) GetAPIKeyByHash_def failE_def returnE_def split: if_splits)
    moreover have "(\<exists>k' \<in> set (db_keys ?d). \<exists>t' \<in> set (db_tenants ?d). k_hash k' = sha256 secret \<and> k_revoked_at k' = None
        \<and> t_id t' = k_tenant_id k' \<and> t_status t' = Active_tenant) \<longleftrightarrow> t_status t = Active_tenant"
      using k t same_key same_tenant by metis
    ultimately show ?thesis
      using \<open>splitPrefix secret \<noteq> None\<close> conjunct1 [OF k] conjunct2 [OF k] by (cases "t_status t = Active_tenant") auto
  qed
qed

definition example_accounts :: accounts where
  "example_accounts = \<lparr>
     db_plans = [\<lparr>plan_ID = ''free'', CharsPerMonth = 10000, ReqPerMinute = 20, MaxConcurrentStreams = 1, MaxJobChars = 5000,
                   PriceUSDCents = 0, OverageUSDPerMillion = None\<rparr>],
     db_tenants = [\<lparr>t_id = 1, t_plan_id = ''free'', t_name = ''acme'', t_status = Active_tenant\<rparr>],
     db_keys = [\<lparr>k_id = 5, k_tenant_id = 1, k_name = ''default'', k_hash = [9], k_prefix = ''zt_live_abc'',
                  k_scopes = DefaultTenantScopes, k_store_text = False, k_created_at = 0, k_last_used_at = None, k_revoked_at = None\<rparr>],
     db_audit = []\<rparr>"

definition example_caller :: Identity where
  "example_caller = \<lparr>id_TenantID = 1, id_KeyID = 5, id_PlanID = ''free'', id_Scopes = DefaultTenantScopes,
     id_StoreText = False, id_KeyFingerprint = []\<rparr>"

theorem authenticate_live_keys_only_witness:
  "\<exists>i s'. Authenticate (\<lambda>_. [9]) (\<lambda>_. Fine) ''zt_live_abc'' \<lparr>svc_data = example_accounts, svc_calls = 0\<rparr> = (Inr i, s')
    \<and> (\<exists>k \<in> set (db_keys example_accounts). id_KeyID i = k_id k)"
proof -
  let ?s = "\<lparr>svc_data = example_accounts, svc_calls = 0\<rparr>"
  obtain r s' where a: "Authenticate (\<lambda>_. [9]) (\<lambda>_. Fine) ''zt_live_abc'' ?s = (r, s')" by fastforce
  have p: "splitPrefix ''zt_live_abc'' \<noteq> None" by (simp add: splitPrefix_def HasPrefix_def PrefixLive_def)
  have wf: "keys_wf (svc_data ?s)" "distinct (map t_id (db_tenants (svc_data ?s)))"
    "\<forall>k \<in> set (db_keys (svc_data ?s)). \<exists>t \<in> set (db_tenants (svc_data ?s)). t_id t = k_tenant_id k"
    "\<forall>t \<in> set (db_tenants (svc_data ?s)). \<exists>p \<in> set (db_plans (svc_data ?s)). plan_ID p = t_plan_id t"
    by (simp_all add: keys_wf_def example_accounts_def)
  note all = authenticate_live_keys_only [OF wf(1) _ wf(2-4) a]
  have "\<exists>k \<in> set (db_keys (svc_data ?s)). \<exists>t \<in> set (db_tenants (svc_data ?s)).
      k_hash k = [9] \<and> k_revoked_at k = None \<and> t_id t = k_tenant_id k \<and> t_status t = Active_tenant"
    by (simp add: example_accounts_def)
  then obtain i where i: "r = Inr i" using all p by auto
  then obtain k where "k \<in> set (db_keys (svc_data ?s))" "id_KeyID i = k_id k" using all by auto
  then show ?thesis using a i by auto
qed

text \<open>
  C19: revocation is immediate and final. Once a revoke of a key has succeeded, no secret ever
  authenticates as that key again, whatever keys, tenants and plans are created and revoked
  afterwards and whatever the database does to those calls; and only the owner's tenant can
  have revoked it.
\<close>

theorem revoked_key_never_authenticates:
  assumes "keys_wf (svc_data s)" and "Keys_Revoke F now caller keyID s = (Inr (), s1)"
    and "(account_step sha256)\<^sup>*\<^sup>* s1 s2"
    and "Authenticate sha256 G secret s2 = (Inr i, s3)"
  shows "id_KeyID i \<noteq> keyID
    \<and> (\<exists>k \<in> set (db_keys (svc_data s)). k_id k = keyID \<and> k_tenant_id k = id_TenantID caller)"
proof -
  have "revoked_id (svc_data s2) keyID"
    using Keys_Revoke_ok(1) [OF assms(2,1)] account_run_revoked [OF assms(3)] by (simp add: revoked_mono_def)
  moreover have "FindByHash G (sha256 secret) s2 = (Inr i, s3)"
    using assms(4) by (auto simp: Authenticate_def Hash_def failE_def split: if_splits)
  then obtain k where "k \<in> set (db_keys (svc_data s2))" "k_revoked_at k = None" "id_KeyID i = k_id k"
    using FindByHash_ok(1) by fastforce
  ultimately show ?thesis using Keys_Revoke_ok(2) [OF assms(2,1)] by (auto simp: revoked_id_def)
qed

theorem revoked_key_never_authenticates_witness:
  "\<exists>s1 i s3. Keys_Revoke (\<lambda>_. Fine) 3 example_caller 5 \<lparr>svc_data = example_accounts\<lparr>db_keys := db_keys example_accounts
        @ [(hd (db_keys example_accounts))\<lparr>k_id := 6, k_hash := [8]\<rparr>]\<rparr>, svc_calls = 0\<rparr> = (Inr (), s1)
    \<and> Authenticate (\<lambda>_. [8]) (\<lambda>_. Fine) ''zt_live_abc'' s1 = (Inr i, s3) \<and> id_KeyID i \<noteq> 5"
proof -
  let ?s = "\<lparr>svc_data = example_accounts\<lparr>db_keys := db_keys example_accounts
        @ [(hd (db_keys example_accounts))\<lparr>k_id := 6, k_hash := [8]\<rparr>]\<rparr>, svc_calls = 0\<rparr>"
  obtain s1 where r: "Keys_Revoke (\<lambda>_. Fine) 3 example_caller 5 ?s = (Inr (), s1)"
    and d: "svc_data s1 = snd (RevokeAPIKey 3 5 1 (svc_data ?s))"
    by (simp add: Keys_Revoke_def KeyRepository_Revoke_def RevokeAPIKey_def call_def go_simps example_accounts_def
        example_caller_def sql_affected_def Let_def)
  obtain i s3 where a: "Authenticate (\<lambda>_. [8]) (\<lambda>_. Fine) ''zt_live_abc'' s1 = (Inr i, s3)"
    by (simp add: Authenticate_def FindByHash_def call_def GetAPIKeyByHash_def d RevokeAPIKey_def sql_update_def Hash_def
        example_accounts_def go_simps splitPrefix_def HasPrefix_def PrefixLive_def Let_def)
  have w: "keys_wf (svc_data ?s)" by (simp add: keys_wf_def example_accounts_def)
  show ?thesis using revoked_key_never_authenticates [OF w r _ a] r a by auto
qed

text \<open>
  C21: a new key works and grants no more than its maker holds. The secret returned by a
  successful create parses from a bearer header and authenticates, as the new key, in the
  caller's tenant, with only known scopes, each of which the caller itself carries.
\<close>

theorem created_key_authenticates_without_escalation:
  assumes "Keys_Create sha256 F now (Some raw) newID caller name scopes s = (Inr (k, secret), s1)" and "raw \<noteq> []"
    and "find (\<lambda>t. t_id t = id_TenantID caller) (db_tenants (svc_data s)) = Some t" and "t_status t = Active_tenant"
    and "find (\<lambda>p. plan_ID p = t_plan_id t) (db_plans (svc_data s)) = Some p"
    and "G (svc_calls s1) = Fine"
  shows "ParseBearer (''Bearer '' @ secret) = Inr secret
    \<and> (\<exists>i s2. Authenticate sha256 G secret s1 = (Inr i, s2) \<and> id_KeyID i = newID
          \<and> id_TenantID i = id_TenantID caller \<and> set (id_Scopes i) \<subseteq> set (id_Scopes caller)
          \<and> list_all knownScope (id_Scopes i))"
proof -
  let ?scopes = "if scopes = [] then NewKeyScopes else scopes"
  obtain g where g: "Generate sha256 (Some raw) PrefixLive = Inr g" and sec: "secret = g_Secret g"
    and chk: "check_scopes caller ?scopes = Inr ()"
    and cr: "KeyRepository_Create F now newID (id_TenantID caller) name (g_Prefix g) ?scopes (g_Hash g) s = (Inr k, s1)"
    using assms(1) by (auto simp: Keys_Create_def go_simps Let_def split: if_splits sum.splits prod.splits)
  have "check_scopes caller ss = Inr () \<Longrightarrow> set ss \<subseteq> set (id_Scopes caller) \<and> list_all knownScope ss" for ss
    by (induction ss) (auto simp: Has_def split: if_splits)
  note scopes = this [OF chk]
  define row where "row = \<lparr>k_id = newID, k_tenant_id = id_TenantID caller, k_name = name, k_hash = g_Hash g, k_prefix = g_Prefix g,
      k_scopes = ?scopes, k_store_text = False, k_created_at = now, k_last_used_at = None, k_revoked_at = None\<rparr>"
  have ins: "CreateAPIKey row (svc_data s) = (Inr k, svc_data s1)"
    using call_ok cr by (fastforce simp: KeyRepository_Create_def row_def)
  note ok = CreateAPIKey_ok [OF ins]
  have "find (\<lambda>k. k_hash k = sha256 secret \<and> k_revoked_at k = None) (db_keys (svc_data s1)) = Some row"
    using ok(2,3) Generate_live(3) [OF g assms(2)] sec
    by (auto simp: find_append find_None_iff row_def split: option.split dest: find_SomeD)
  then have "\<exists>i s2. FindByHash G (sha256 secret) s1 = (Inr i, s2) \<and> id_KeyID i = newID \<and> id_TenantID i = id_TenantID caller
      \<and> id_Scopes i = ?scopes"
    using ok(2) assms(3-6)
    by (auto simp: FindByHash_def catchE_def call_fine GetAPIKeyByHash_def returnE_def row_def)
  then show ?thesis
    using Generate_live [OF g assms(2)] sec scopes by (auto simp: Authenticate_def Hash_def)
qed

theorem created_key_authenticates_without_escalation_witness:
  "\<exists>k secret s1. Keys_Create (\<lambda>_. replicate 32 7) (\<lambda>_. Fine) 3 (Some [1, 2, 3]) 6 example_caller ''ci'' [ScopeJobs]
      \<lparr>svc_data = example_accounts, svc_calls = 0\<rparr> = (Inr (k, secret), s1)
    \<and> (\<exists>i s2. Authenticate (\<lambda>_. replicate 32 7) (\<lambda>_. Fine) secret s1 = (Inr i, s2) \<and> id_KeyID i = 6
          \<and> set (id_Scopes i) \<subseteq> set DefaultTenantScopes)"
proof -
  let ?s = "\<lparr>svc_data = example_accounts, svc_calls = 0\<rparr>" and ?sha = "\<lambda>_ :: string. replicate 32 (7 :: byte)"
  have ne: "[9] \<noteq> replicate 32 (7 :: byte)" by (simp add: numeral_eq_Suc)
  obtain k secret s1 where c: "Keys_Create ?sha (\<lambda>_. Fine) 3 (Some [1, 2, 3]) 6 example_caller ''ci'' [ScopeJobs] ?s = (Inr (k, secret), s1)"
    by (simp add: Keys_Create_def KeyRepository_Create_def Generate_def Hash_def CreateAPIKey_def call_def go_simps Let_def Has_def
        example_caller_def example_accounts_def maxKeyNameLen_def DefaultTenantScopes_def knownScope_def rune_len_ascii ne)
  show ?thesis
    using created_key_authenticates_without_escalation [OF c, of "hd (db_tenants example_accounts)" "hd (db_plans example_accounts)" "\<lambda>_. Fine"] c
    by (auto simp: example_accounts_def example_caller_def)
qed

text \<open>
  C22: a tenant comes with its first key and its audit entry or not at all. After a create,
  whatever failed, either none of the account tables changed or the tenant, one working key
  with the default scopes and the \<open>tenant.create\<close> entry naming the operator were all added; a
  secret is handed out only in the second case.
\<close>

theorem tenant_creation_all_or_nothing:
  assumes "Tenants_Create sha256 F us now ent tenantID keyID auditID name planID actor s = (r, s')"
  shows "(svc_data s' = svc_data s \<and> (\<exists>e. r = Inl e)) \<or>
    (\<exists>key. k_id key = keyID \<and> k_tenant_id key = tenantID \<and> k_scopes key = DefaultTenantScopes \<and> k_revoked_at key = None
       \<and> svc_data s' = (svc_data s)\<lparr>
           db_tenants := db_tenants (svc_data s) @ [\<lparr>t_id = tenantID, t_plan_id = planID, t_name = name, t_status = Active_tenant\<rparr>],
           db_keys := db_keys (svc_data s) @ [key],
           db_audit := db_audit (svc_data s) @ [\<lparr>a_id = auditID, a_actor = actor, a_action = ''tenant.create'', a_target = Some (us tenantID)\<rparr>]\<rparr>
       \<and> (\<forall>t k secret. r = Inr (t, k, secret) \<longrightarrow> k = key \<and> k_hash key = sha256 secret))"
proof -
  have plan: "svc_data (snd (PlanExists F planID s)) = svc_data s" for s
    using call_data [of F DbDown "\<lambda>d. (GetPlan planID d, d)" s]
    by (auto simp: PlanExists_def read_plan_def go_simps split: prod.splits sum.splits)
  show ?thesis
  proof (cases "svc_data s' = svc_data s \<and> (\<exists>e. r = Inl e)")
    case False
    then obtain s1 g where s1: "svc_data s1 = svc_data s" and g: "Generate sha256 ent PrefixLive = Inr g"
      and tx: "Tenants_Create sha256 F us now ent tenantID keyID auditID name planID actor s =
        bindE (wrapE (\<lambda>_. TenantStoreFailed) (CreateTenantWithKey F us
            \<lparr>t_id = tenantID, t_plan_id = planID, t_name = name, t_status = Active_tenant\<rparr>
            \<lparr>k_id = keyID, k_tenant_id = tenantID, k_name = ''default'', k_hash = g_Hash g, k_prefix = g_Prefix g,
             k_scopes = DefaultTenantScopes, k_store_text = False, k_created_at = now, k_last_used_at = None, k_revoked_at = None\<rparr> auditID actor))
          (\<lambda>_. returnE (\<lparr>t_id = tenantID, t_plan_id = planID, t_name = name, t_status = Active_tenant\<rparr>,
            \<lparr>k_id = keyID, k_tenant_id = tenantID, k_name = ''default'', k_hash = g_Hash g, k_prefix = g_Prefix g,
             k_scopes = DefaultTenantScopes, k_store_text = False, k_created_at = now, k_last_used_at = None, k_revoked_at = None\<rparr>, g_Secret g)) s1"
      using assms plan [of s]
      by (auto simp: Tenants_Create_def bindE_def [of "wrapE _ (PlanExists _ _)"] wrapE_def [of _ "PlanExists _ _"] failE_def Let_def
          split: if_splits sum.splits prod.splits)
    define key where "key = \<lparr>k_id = keyID, k_tenant_id = tenantID, k_name = ''default'', k_hash = g_Hash g, k_prefix = g_Prefix g,
             k_scopes = DefaultTenantScopes, k_store_text = False, k_created_at = now, k_last_used_at = None, k_revoked_at = None\<rparr>"
    define ten where "ten = \<lparr>t_id = tenantID, t_plan_id = planID, t_name = name, t_status = Active_tenant\<rparr>"
    obtain rt s2 where c: "CreateTenantWithKey F us ten key auditID actor s1 = (rt, s2)" by fastforce
    have r: "s' = s2" "r = (case rt of Inl _ \<Rightarrow> Inl TenantStoreFailed | Inr _ \<Rightarrow> Inr (ten, key, g_Secret g))"
      using assms tx c by (auto simp: key_def ten_def go_simps split: sum.splits)
    have h: "k_hash key = sha256 (g_Secret g)" using g by (auto simp: key_def Generate_def Hash_def Let_def split: if_splits option.splits)
    from c have "svc_data s2 = svc_data s1 \<and> (\<exists>e. rt = Inl e) \<or> svc_data s2 = (svc_data s1)\<lparr>
           db_tenants := db_tenants (svc_data s1) @ [ten], db_keys := db_keys (svc_data s1) @ [key],
           db_audit := db_audit (svc_data s1) @ [\<lparr>a_id = auditID, a_actor = actor, a_action = ''tenant.create'', a_target = Some (us tenantID)\<rparr>]\<rparr>"
      unfolding CreateTenantWithKey_def
    proof (cases rule: in_tx_atomic)
      case (committed a t1 t2)
      obtain u v where c1: "call F DbDown (CreateTenant (t_id ten) (t_plan_id ten) (t_name ten)) t1 = (Inr (), u)"
        and c2: "call F DbDown (CreateAPIKey key) u = (Inr key, v)"
        and c3: "call F DbDown (CreateAuditEntry \<lparr>a_id = auditID, a_actor = actor, a_action = ''tenant.create'', a_target = Some (us (t_id ten))\<rparr>) v = (Inr (), t2)"
        using committed(2) by (auto simp: bindE_def dest: CreateAPIKey_ok(1) [OF call_ok] split: prod.splits sum.splits)
      have "svc_data t2 = (svc_data t1)\<lparr>db_tenants := db_tenants (svc_data t1) @ [ten], db_keys := db_keys (svc_data t1) @ [key],
           db_audit := db_audit (svc_data t1) @ [\<lparr>a_id = auditID, a_actor = actor, a_action = ''tenant.create'', a_target = Some (us tenantID)\<rparr>]\<rparr>"
        using CreateTenant_ok [OF call_ok [OF c1]] CreateAPIKey_ok(2) [OF call_ok [OF c2]] CreateAuditEntry_ok [OF call_ok [OF c3]]
        by (simp add: ten_def)
      then show ?thesis using committed by simp
    qed simp
    then show ?thesis using r h s1 False
      by (auto simp: key_def ten_def split: sum.splits intro!: exI [of _ key])
  qed simp
qed

theorem tenant_creation_all_or_nothing_witness:
  "let d = svc_data (snd (Tenants_Create (\<lambda>_. replicate 32 7) (\<lambda>n. if n = 3 then ReplyLost else Fine) (\<lambda>_. ''u'') 3 (Some [1]) 2 8 4
      ''zeta'' ''free'' ''ops'' \<lparr>svc_data = example_accounts, svc_calls = 0\<rparr>))
   in d = example_accounts \<or> (length (db_tenants d) = 2 \<and> length (db_keys d) = 2 \<and> length (db_audit d) = 1)"
proof -
  let ?run = "Tenants_Create (\<lambda>_. replicate 32 7) (\<lambda>n. if n = 3 then ReplyLost else Fine) (\<lambda>_. ''u'') 3 (Some [1]) 2 8 4
      ''zeta'' ''free'' ''ops'' \<lparr>svc_data = example_accounts, svc_calls = 0\<rparr>"
  obtain r s' where run: "?run = (r, s')" by fastforce
  have "svc_data s' = example_accounts \<or>
      (length (db_tenants (svc_data s')) = 2 \<and> length (db_keys (svc_data s')) = 2 \<and> length (db_audit (svc_data s')) = 1)"
    using tenant_creation_all_or_nothing [OF run] by (auto simp: example_accounts_def)
  then show ?thesis using run by (simp add: Let_def)
qed

end
