(* ===== verification/Dispatch.thy ===== *)
theory Dispatch
  imports Go_Strings Go_Float
begin

text \<open>
  Package \<^verbatim>\<open>internal/dispatch\<close>: the health state of each worker (\<^verbatim>\<open>worker.go\<close>), the pool that picks the
  least busy one (\<^verbatim>\<open>pool.go\<close>), and the dispatcher that admits, queues or refuses (\<^verbatim>\<open>queue.go\<close>).
  The gRPC connection is represented by the worker's address. A method that locks the mutex is
  one step on the state; what other goroutines do between the steps of a waiting caller is the
  interference of each iteration.
\<close>

section \<open>Workers (\<^verbatim>\<open>worker.go\<close>)\<close>

definition HealthInterval :: int where "HealthInterval = 5 * 10 ^ 9"

definition ProbeInterval :: int where "ProbeInterval = 30 * 10 ^ 9"

definition FailureThreshold :: nat where "FailureThreshold = 3"

record Snapshot =
  Addr :: string
  Ready :: bool
  snap_ModelVersion :: string
  SlotsTotal :: int
  SlotsBusy :: int
  RTFEWMA :: rat
  VoiceIDs :: "string list"
  Ejected :: bool
  Failures :: nat
  LastSeen :: "int option"

definition Free :: "Snapshot \<Rightarrow> int" where
  "Free s = (let free = wrap32 (SlotsTotal s - SlotsBusy s) in if free < 0 then 0 else free)"

definition Selectable :: "Snapshot \<Rightarrow> bool" where
  "Selectable s \<longleftrightarrow> Ready s \<and> \<not> Ejected s \<and> 0 < Free s"

record Options =
  o_HealthInterval :: int
  o_ProbeInterval :: int
  o_FailureThreshold :: int
  o_Tick :: int

definition withDefaults :: "Options \<Rightarrow> Options" where
  "withDefaults opt = \<lparr>
     o_HealthInterval = (if o_HealthInterval opt \<le> 0 then HealthInterval else o_HealthInterval opt),
     o_ProbeInterval = (if o_ProbeInterval opt \<le> 0 then ProbeInterval else o_ProbeInterval opt),
     o_FailureThreshold = (if o_FailureThreshold opt \<le> 0 then int FailureThreshold else o_FailureThreshold opt),
     o_Tick = (if o_Tick opt \<le> 0 then 10 ^ 9 else o_Tick opt)\<rparr>"

record worker =
  w_addr :: string
  w_state :: Snapshot
  w_lastProbe :: "int option"

definition empty_snapshot :: "string \<Rightarrow> Snapshot" where
  "empty_snapshot a = \<lparr>Addr = a, Ready = False, snap_ModelVersion = [], SlotsTotal = 0, SlotsBusy = 0, RTFEWMA = 0,
     VoiceIDs = [], Ejected = False, Failures = 0, LastSeen = None\<rparr>"

definition newWorker :: "string \<Rightarrow> worker" where
  "newWorker a = \<lparr>w_addr = a, w_state = empty_snapshot a, w_lastProbe = None\<rparr>"

record HealthReply =
  h_ready :: bool
  h_model_version :: string
  h_slots_total :: int
  h_slots_busy :: int
  h_rtf_ewma :: rat
  h_voice_ids :: "string list"

text \<open>\<open>reply\<close> is the answer of the Health RPC within its timeout, \<^const>\<open>None\<close> an error.\<close>

definition probe :: "Options \<Rightarrow> int \<Rightarrow> HealthReply option \<Rightarrow> worker \<Rightarrow> worker" where
  "probe opts now reply w =
    (case reply of
       None \<Rightarrow>
         (let st = (w_state w)\<lparr>Failures := Suc (Failures (w_state w)), Ready := False\<rparr>
          in w\<lparr>w_lastProbe := Some now,
               w_state := (if o_FailureThreshold opts \<le> int (Failures st) then st\<lparr>Ejected := True\<rparr> else st)\<rparr>)
     | Some h \<Rightarrow>
         w\<lparr>w_lastProbe := Some now,
           w_state := \<lparr>Addr = w_addr w, Ready = h_ready h, snap_ModelVersion = h_model_version h,
             SlotsTotal = h_slots_total h, SlotsBusy = h_slots_busy h, RTFEWMA = h_rtf_ewma h,
             VoiceIDs = h_voice_ids h, Ejected = False, Failures = 0, LastSeen = Some now\<rparr>\<rparr>)"

definition dueAt :: "Options \<Rightarrow> int \<Rightarrow> worker \<Rightarrow> int" where
  "dueAt opts now w =
    (case w_lastProbe w of None \<Rightarrow> now
     | Some t \<Rightarrow> t + (if Ejected (w_state w) then o_ProbeInterval opts else o_HealthInterval opts))"

section \<open>The pool (\<^verbatim>\<open>pool.go\<close>)\<close>

datatype dispatch_error = NoAddresses | ErrNoWorker

definition NewPool :: "string list \<Rightarrow> dispatch_error + worker list" where
  "NewPool addrs = (if addrs = [] then Inl NoAddresses else Inr (map newWorker addrs))"

text \<open>The probes of one round; each worker's reply and its clock are arguments.\<close>

definition probeDue :: "Options \<Rightarrow> int \<Rightarrow> (string \<Rightarrow> int \<times> HealthReply option) \<Rightarrow> worker list \<Rightarrow> worker list" where
  "probeDue opts now answer ws =
    map (\<lambda>w. if dueAt opts now w > now then w
             else let (t, reply) = answer (w_addr w) in probe opts t reply w) ws"

definition MaxFloat32 :: rat where "MaxFloat32 = 340282346638528859811704183484516925440"

definition pick_rtf :: "Snapshot \<Rightarrow> rat" where
  "pick_rtf s = (if RTFEWMA s = 0 then 1 else RTFEWMA s)"

fun pick_loop :: "worker list \<Rightarrow> worker option \<Rightarrow> int \<Rightarrow> rat \<Rightarrow> worker option" where
  "pick_loop [] best bestFree bestRTF = best"
| "pick_loop (w # ws) best bestFree bestRTF =
    (let snap = w_state w
     in if \<not> Selectable snap then pick_loop ws best bestFree bestRTF
        else if bestFree < Free snap \<or> (Free snap = bestFree \<and> pick_rtf snap < bestRTF)
        then pick_loop ws (Some w) (Free snap) (pick_rtf snap)
        else pick_loop ws best bestFree bestRTF)"

record Client =
  c_Addr :: string
  c_ModelVersion :: string

definition Pick :: "worker list \<Rightarrow> dispatch_error + Client" where
  "Pick ws =
    (case pick_loop ws None (-1) MaxFloat32 of None \<Rightarrow> Inl ErrNoWorker
     | Some best \<Rightarrow> Inr \<lparr>c_Addr = Addr (w_state best), c_ModelVersion = snap_ModelVersion (w_state best)\<rparr>)"

definition adjust_worker :: "int \<Rightarrow> worker \<Rightarrow> worker" where
  "adjust_worker delta w =
    (let busy = wrap32 (SlotsBusy (w_state w) + delta);
         busy1 = (if busy < 0 then 0 else busy);
         busy2 = (if SlotsTotal (w_state w) < busy1 then SlotsTotal (w_state w) else busy1)
     in w\<lparr>w_state := (w_state w)\<lparr>SlotsBusy := busy2\<rparr>\<rparr>)"

fun adjustBusy :: "string \<Rightarrow> int \<Rightarrow> worker list \<Rightarrow> worker list" where
  "adjustBusy a delta [] = []"
| "adjustBusy a delta (w # ws) = (if w_addr w \<noteq> a then w # adjustBusy a delta ws else adjust_worker delta w # ws)"

definition NoteSlotTaken :: "string \<Rightarrow> worker list \<Rightarrow> worker list" where
  "NoteSlotTaken a = adjustBusy a 1"

definition NoteSlotFreed :: "string \<Rightarrow> worker list \<Rightarrow> worker list" where
  "NoteSlotFreed a = adjustBusy a (-1)"

definition Snapshots :: "worker list \<Rightarrow> Snapshot list" where
  "Snapshots ws = map w_state ws"

definition AdvertisedVoices :: "worker list \<Rightarrow> string \<Rightarrow> string option" where
  "AdvertisedVoices ws =
    fold (\<lambda>s m. if \<not> Ready s \<or> Ejected s then m else fold (\<lambda>i m. m(i \<mapsto> snap_ModelVersion s)) (VoiceIDs s) m)
      (Snapshots ws) Map.empty"

definition Pool_ModelVersion :: "worker list \<Rightarrow> string" where
  "Pool_ModelVersion ws =
    (case find (\<lambda>s. Ready s \<and> \<not> Ejected s) (Snapshots ws) of None \<Rightarrow> [] | Some s \<Rightarrow> snap_ModelVersion s)"

definition Pool_Ready :: "worker list \<Rightarrow> dispatch_error + unit" where
  "Pool_Ready ws = (if \<exists>s \<in> set (Snapshots ws). Ready s \<and> \<not> Ejected s then Inr () else Inl ErrNoWorker)"

section \<open>The dispatcher (\<^verbatim>\<open>queue.go\<close>)\<close>

datatype Class = ClassStream | ClassSync | ClassBatch

definition StreamWait :: int where "StreamWait = 2 * 10 ^ 9"
definition SyncWait :: int where "SyncWait = 10 * 10 ^ 9"
definition BatchWait :: int where "BatchWait = 300 * 10 ^ 9"
definition recheckInterval :: int where "recheckInterval = 50 * 10 ^ 6"
definition MinRetryAfter :: int where "MinRetryAfter = 10 ^ 9"
definition MaxRetryAfter :: int where "MaxRetryAfter = 30 * 10 ^ 9"
definition StreamReservePercent :: int where "StreamReservePercent = 30"
definition QueueDepthPerSlot :: int where "QueueDepthPerSlot = 2"
definition MinQueueDepth :: int where "MinQueueDepth = 2"
definition initialServiceTime :: int where "initialServiceTime = 10 ^ 9"

fun defaultWait :: "Class \<Rightarrow> int" where
  "defaultWait ClassStream = StreamWait"
| "defaultWait ClassSync = SyncWait"
| "defaultWait ClassBatch = BatchWait"

record Dispatcher =
  d_pool :: "worker list"
  inFlight :: "Class \<Rightarrow> int"
  waiting :: "Class \<Rightarrow> int"
  serviceTime :: int
  freeSignal :: bool

definition NewDispatcher :: "worker list \<Rightarrow> Dispatcher" where
  "NewDispatcher ws = \<lparr>d_pool = ws, inFlight = (\<lambda>_. 0), waiting = (\<lambda>_. 0), serviceTime = initialServiceTime, freeSignal = False\<rparr>"

definition capacity :: "worker list \<Rightarrow> int \<times> int" where
  "capacity ws =
    (let up = filter (\<lambda>s. Ready s \<and> \<not> Ejected s) (Snapshots ws);
         free = sum_list (map Free up)
     in (sum_list (map SlotsTotal up), if free < 0 then 0 else free))"

definition reservedForStream :: "int \<Rightarrow> int" where
  "reservedForStream tot = go_quot (tot * StreamReservePercent) 100"

datatype Refusal = QueueFull | WaitTooLong

definition shouldRefuse :: "Class \<Rightarrow> Dispatcher \<Rightarrow> Refusal option" where
  "shouldRefuse class d =
    (let (tot, free) = capacity (d_pool d)
     in if 0 < free then None
        else let limit = max MinQueueDepth (tot * QueueDepthPerSlot); depth = waiting d class
          in if limit \<le> depth then Some QueueFull
             else let slots = (if tot < 1 then 1 else tot);
                      expected = wrap64 ((go_quot (depth + 1) slots + 1) * serviceTime d)
               in if defaultWait class < expected then Some WaitTooLong else None)"

record Reservation =
  r_Client :: Client
  r_class :: Class
  r_started :: int

definition tryReserve :: "int \<Rightarrow> Class \<Rightarrow> Dispatcher \<Rightarrow> Reservation option \<times> Dispatcher" where
  "tryReserve now class d =
    (let (tot, free) = capacity (d_pool d)
     in if free \<le> 0 then (None, d)
        else if class \<noteq> ClassStream \<and> free \<le> reservedForStream tot then (None, d)
        else case Pick (d_pool d) of Inl _ \<Rightarrow> (None, d)
          | Inr client \<Rightarrow>
              (Some \<lparr>r_Client = client, r_class = class, r_started = now\<rparr>,
               d\<lparr>inFlight := (inFlight d)(class := inFlight d class + 1),
                 d_pool := NoteSlotTaken (c_Addr client) (d_pool d)\<rparr>))"

definition releaseSlot :: "Class \<Rightarrow> int \<Rightarrow> Dispatcher \<Rightarrow> Dispatcher" where
  "releaseSlot class elapsed d =
    (let n = inFlight d class - 1
     in d\<lparr>inFlight := (inFlight d)(class := (if n < 0 then 0 else n)),
          serviceTime := go_quot (wrap64 (serviceTime d * 3 + elapsed)) 4,
          freeSignal := True\<rparr>)"

text \<open>The first call of \<^verbatim>\<open>Release\<close>; a second one finds no closure and does nothing.\<close>

definition Release_reservation :: "int \<Rightarrow> Reservation \<Rightarrow> Dispatcher \<Rightarrow> Dispatcher" where
  "Release_reservation now r d =
    releaseSlot (r_class r) (now - r_started r)
      (d\<lparr>d_pool := NoteSlotFreed (c_Addr (r_Client r)) (d_pool d)\<rparr>)"

definition enter :: "Class \<Rightarrow> Dispatcher \<Rightarrow> Dispatcher" where
  "enter class d = d\<lparr>waiting := (waiting d)(class := waiting d class + 1)\<rparr>"

definition leave :: "Class \<Rightarrow> Dispatcher \<Rightarrow> Dispatcher" where
  "leave class d =
    (let n = waiting d class - 1 in d\<lparr>waiting := (waiting d)(class := (if n < 0 then 0 else n))\<rparr>)"

record Overload =
  ov_RetryAfter :: int
  ov_Class :: Class
  ov_Waiting :: int

definition overload :: "Class \<Rightarrow> Dispatcher \<Rightarrow> Overload" where
  "overload class d =
    (let n = waiting d class; (tot, _) = capacity (d_pool d);
         perSlot = (if 0 < tot then go_quot (n + tot - 1) tot else n);
         retry = wrap64 (perSlot * serviceTime d)
     in \<lparr>ov_RetryAfter = (if retry < MinRetryAfter then MinRetryAfter
                          else if MaxRetryAfter < retry then MaxRetryAfter else retry),
         ov_Class = class, ov_Waiting = n\<rparr>)"

text \<open>
  One turn of the waiting loop: the clock readings of the turn, what the rest of the gateway
  did to the dispatcher before it, and how the \<^verbatim>\<open>select\<close> ended.
\<close>

datatype wake = CtxDone | TimerFired | FreeReceived

record turn =
  t_check :: int
  t_others :: "Dispatcher \<Rightarrow> Dispatcher"
  t_try :: int
  t_left :: int
  t_wake :: wake

datatype reserve_result = Reserved Reservation int | Refused_overload Overload | Cancelled

fun reserve_loop :: "Class \<Rightarrow> int \<Rightarrow> bool \<Rightarrow> turn list \<Rightarrow> Dispatcher \<Rightarrow> reserve_result option \<times> Dispatcher" where
  "reserve_loop class deadline first [] d = (None, d)"
| "reserve_loop class deadline first (t # ts) d0 =
    (let d = t_others t d0
     in if \<not> first \<and> deadline < t_check t then (Some (Refused_overload (overload class d)), d)
        else case tryReserve (t_try t) class d of
          (Some r, d1) \<Rightarrow> (Some (Reserved r (t_check t)), d1)
        | (None, d1) \<Rightarrow>
            if deadline - t_left t \<le> 0 then (Some (Refused_overload (overload class d1)), d1)
            else (case t_wake t of
                CtxDone \<Rightarrow> (Some Cancelled, d1)
              | TimerFired \<Rightarrow> reserve_loop class deadline False ts d1
              | FreeReceived \<Rightarrow> reserve_loop class deadline False ts (d1\<lparr>freeSignal := False\<rparr>)))"

definition Reserve :: "int \<Rightarrow> Class \<Rightarrow> turn list \<Rightarrow> Dispatcher \<Rightarrow> reserve_result option \<times> Dispatcher" where
  "Reserve now class turns d =
    (let deadline = now + defaultWait class
     in if shouldRefuse class d \<noteq> None then (Some (Refused_overload (overload class d)), d)
        else case reserve_loop class deadline True turns (enter class d) of
            (None, d') \<Rightarrow> (None, d')
          | (Some r, d') \<Rightarrow> (Some r, leave class d'))"

record Stats =
  st_InFlight :: "Class \<Rightarrow> int"
  st_Waiting :: "Class \<Rightarrow> int"
  st_ServiceTime :: int
  st_FreeSlots :: int
  st_TotalSlots :: int

definition Dispatcher_Stats :: "Dispatcher \<Rightarrow> Stats" where
  "Dispatcher_Stats d = \<lparr>st_InFlight = inFlight d, st_Waiting = waiting d, st_ServiceTime = serviceTime d,
     st_FreeSlots = snd (capacity (d_pool d)), st_TotalSlots = fst (capacity (d_pool d))\<rparr>"

section \<open>Lemmas on the pool\<close>

text \<open>What a worker's own accounting promises, and the clamps of the pool keep.\<close>

definition slots_ok :: "Snapshot \<Rightarrow> bool" where
  "slots_ok s \<longleftrightarrow> 0 \<le> SlotsBusy s \<and> SlotsBusy s \<le> SlotsTotal s \<and> SlotsTotal s \<le> MaxInt32"

definition pool_ok :: "worker list \<Rightarrow> bool" where
  "pool_ok ws \<longleftrightarrow> distinct (map w_addr ws) \<and> (\<forall>w \<in> set ws. slots_ok (w_state w) \<and> Addr (w_state w) = w_addr w)"

definition reply_ok :: "HealthReply \<Rightarrow> bool" where
  "reply_ok h \<longleftrightarrow> 0 \<le> h_slots_busy h \<and> h_slots_busy h \<le> h_slots_total h \<and> h_slots_total h \<le> MaxInt32"

lemma Free_slots: "slots_ok s \<Longrightarrow> Free s = SlotsTotal s - SlotsBusy s"
  by (simp add: Free_def slots_ok_def Let_def)

lemma Free_nonneg [simp]: "0 \<le> Free s"
  by (simp add: Free_def Let_def)

lemma adjust_worker_simps [simp]: "w_addr (adjust_worker x w) = w_addr w"
  "Addr (w_state (adjust_worker x w)) = Addr (w_state w)" "Ready (w_state (adjust_worker x w)) = Ready (w_state w)"
  "Ejected (w_state (adjust_worker x w)) = Ejected (w_state w)" "SlotsTotal (w_state (adjust_worker x w)) = SlotsTotal (w_state w)"
  by (simp_all add: adjust_worker_def Let_def)

lemma adjust_worker_slots: "slots_ok (w_state w) \<Longrightarrow> slots_ok (w_state (adjust_worker x w))"
  by (auto simp: adjust_worker_def slots_ok_def Let_def)

lemma adjust_worker_take:
  "slots_ok (w_state w) \<Longrightarrow> 0 < Free (w_state w) \<Longrightarrow> Free (w_state (adjust_worker 1 w)) = Free (w_state w) - 1"
  using adjust_worker_slots [of w 1] by (simp add: Free_slots) (simp add: adjust_worker_def slots_ok_def Let_def)

lemma adjustBusy_addrs [simp]: "map w_addr (adjustBusy a x ws) = map w_addr ws"
  by (induction ws) auto

lemma adjustBusy_set: "w \<in> set (adjustBusy a x ws) \<Longrightarrow> w \<in> set ws \<or> (\<exists>v \<in> set ws. w = adjust_worker x v)"
  by (induction ws) (auto split: if_splits)

lemma adjustBusy_ok: "pool_ok ws \<Longrightarrow> pool_ok (adjustBusy a x ws)"
  by (auto simp: pool_ok_def adjust_worker_slots dest!: adjustBusy_set)

lemma probe_ok:
  assumes "pool_ok ws" and "\<And>a t h. ans a = (t, Some h) \<Longrightarrow> reply_ok h"
  shows "pool_ok (probeDue opts now ans ws)"
proof -
  have addr: "w_addr (probe opts t r w) = w_addr w" for t r w by (simp add: probe_def Let_def split: option.split)
  have one: "slots_ok (w_state (probe opts t r w)) \<and> Addr (w_state (probe opts t r w)) = w_addr w"
    if "slots_ok (w_state w)" "Addr (w_state w) = w_addr w" "\<And>h. r = Some h \<Longrightarrow> reply_ok h" for t r w
    using that by (auto simp: probe_def Let_def slots_ok_def reply_ok_def split: option.split)
  define g where "g w = (if now < dueAt opts now w then w else let (t, reply) = ans (w_addr w) in probe opts t reply w)" for w
  have g: "w_addr (g w) = w_addr w" for w by (simp add: g_def addr split: prod.split)
  have "slots_ok (w_state (g w)) \<and> Addr (w_state (g w)) = w_addr (g w)"
    if "slots_ok (w_state w)" "Addr (w_state w) = w_addr w" for w
  proof -
    obtain t r where a: "ans (w_addr w) = (t, r)" by fastforce
    have "slots_ok (w_state (probe opts t r w)) \<and> Addr (w_state (probe opts t r w)) = w_addr w"
      by (rule one [OF that]) (use assms(2) a in auto)
    then show ?thesis using that a by (simp add: g_def addr)
  qed
  moreover have "probeDue opts now ans ws = map g ws" by (simp add: probeDue_def g_def)
  moreover have "map w_addr (map g ws) = map w_addr ws" by (simp add: g)
  ultimately show ?thesis using assms(1) by (simp add: pool_ok_def comp_def g)
qed

definition up :: "worker \<Rightarrow> bool" where
  "up w \<longleftrightarrow> Ready (w_state w) \<and> \<not> Ejected (w_state w)"

lemma capacity_alt:
  "capacity ws = (sum_list (map (\<lambda>w. if up w then SlotsTotal (w_state w) else 0) ws),
                  sum_list (map (\<lambda>w. if up w then Free (w_state w) else 0) ws))"
proof -
  have "sum_list (map f (filter (\<lambda>s. Ready s \<and> \<not> Ejected s) (Snapshots ws)))
      = sum_list (map (\<lambda>w. if up w then f (w_state w) else 0) ws)" for f :: "Snapshot \<Rightarrow> int"
    by (induction ws) (auto simp: Snapshots_def up_def)
  moreover have "0 \<le> sum_list (map (\<lambda>w. if up w then Free (w_state w) else 0) ws)" by (induction ws) auto
  ultimately show ?thesis by (simp add: capacity_def Let_def)
qed

lemma up_adjust [simp]: "up (adjust_worker x w) = up w"
  by (simp add: up_def)

lemma capacity_take:
  assumes "w \<in> set ws" and "up w" and "0 < Free (w_state w)" and "pool_ok ws"
  shows "capacity (adjustBusy (w_addr w) 1 ws) = (fst (capacity ws), snd (capacity ws) - 1)"
  using assms
proof (induction ws)
  case (Cons v ws)
  show ?case
  proof (cases "w_addr v = w_addr w")
    case True
    then have v: "v = w" using Cons.prems(1,4) by (auto simp: pool_ok_def)
    have "slots_ok (w_state w)" using Cons.prems(1,4) by (auto simp: pool_ok_def)
    then show ?thesis using v Cons.prems(2,3) by (simp add: capacity_alt adjust_worker_take)
  next
    case False
    have "capacity (adjustBusy (w_addr w) 1 ws) = (fst (capacity ws), snd (capacity ws) - 1)"
      by (rule Cons.IH) (use Cons.prems False in \<open>auto simp: pool_ok_def\<close>)
    then show ?thesis using False by (simp add: capacity_alt)
  qed
qed simp

text \<open>\<open>no_better f r f' r'\<close>: a worker with \<open>f\<close> free slots and factor \<open>r\<close> is no better than one with \<open>f'\<close> and \<open>r'\<close>.\<close>

definition no_better :: "int \<Rightarrow> rat \<Rightarrow> int \<Rightarrow> rat \<Rightarrow> bool" where
  "no_better f r f' r' \<longleftrightarrow> f \<le> f' \<and> (f = f' \<longrightarrow> r' \<le> r)"

lemma no_better_refl [simp]: "no_better f r f r"
  by (simp add: no_better_def)

lemma no_better_trans: "no_better f r f' r' \<Longrightarrow> no_better f' r' f'' r'' \<Longrightarrow> no_better f r f'' r''"
  by (auto simp: no_better_def)

lemma no_better_linear: "\<not> no_better f r f' r' \<Longrightarrow> no_better f' r' f r"
  by (auto simp: no_better_def)

abbreviation no_better_than :: "worker \<Rightarrow> int \<Rightarrow> rat \<Rightarrow> bool" where
  "no_better_than w f r \<equiv> no_better (Free (w_state w)) (pick_rtf (w_state w)) f r"

lemma pick_loop_spec:
  "(pick_loop ws best bf br = best \<and> (\<forall>w \<in> set ws. Selectable (w_state w) \<longrightarrow> no_better_than w bf br))
   \<or> (\<exists>w \<in> set ws. pick_loop ws best bf br = Some w \<and> Selectable (w_state w) \<and> \<not> no_better_than w bf br
       \<and> (\<forall>v \<in> set ws. Selectable (w_state v) \<longrightarrow> no_better_than v (Free (w_state w)) (pick_rtf (w_state w))))"
proof (induction ws arbitrary: best bf br)
  case (Cons w ws)
  let ?s = "w_state w"
  have iff: "(bf < Free ?s \<or> (Free ?s = bf \<and> pick_rtf ?s < br)) \<longleftrightarrow> \<not> no_better_than w bf br"
    by (auto simp: no_better_def)
  consider (skip) "\<not> Selectable ?s" | (worse) "Selectable ?s" "no_better_than w bf br"
    | (better) "Selectable ?s" "\<not> no_better_than w bf br" by blast
  then show ?case
  proof cases
    case skip
    then show ?thesis using Cons.IH [of best bf br] by auto
  next
    case worse
    then have "pick_loop (w # ws) best bf br = pick_loop ws best bf br" by (simp add: iff)
    moreover have "no_better_than w (Free (w_state x)) (pick_rtf (w_state x))" if "\<not> no_better_than x bf br" for x
      by (rule no_better_trans [OF worse(2) no_better_linear [OF that]])
    ultimately show ?thesis
      using Cons.IH [of best bf br] worse(2) unfolding set_simps by (simp del: pick_loop.simps) blast
  next
    case better
    then have "pick_loop (w # ws) best bf br = pick_loop ws (Some w) (Free ?s) (pick_rtf ?s)"
      by (simp add: iff Let_def)
    moreover have "\<exists>x \<in> set (w # ws). pick_loop ws (Some w) (Free ?s) (pick_rtf ?s) = Some x \<and> Selectable (w_state x)
        \<and> \<not> no_better_than x bf br
        \<and> (\<forall>v \<in> set (w # ws). Selectable (w_state v) \<longrightarrow> no_better_than v (Free (w_state x)) (pick_rtf (w_state x)))"
      using Cons.IH [of "Some w" "Free ?s" "pick_rtf ?s"]
    proof (elim disjE bexE conjE)
      fix x
      assume x: "x \<in> set ws" "Selectable (w_state x)" "\<not> no_better_than x (Free ?s) (pick_rtf ?s)"
        and res: "pick_loop ws (Some w) (Free ?s) (pick_rtf ?s) = Some x"
        and all: "\<forall>v \<in> set ws. Selectable (w_state v) \<longrightarrow> no_better_than v (Free (w_state x)) (pick_rtf (w_state x))"
      have w: "no_better_than w (Free (w_state x)) (pick_rtf (w_state x))" by (rule no_better_linear [OF x(3)])
      have "\<not> no_better_than x bf br" using no_better_trans [OF w] better(2) by blast
      then show ?thesis using x res all w by (intro bexI [of _ x]) auto
    qed (use better in \<open>auto intro!: bexI [of _ w]\<close>)
    ultimately show ?thesis by (simp only:) blast
  qed
qed simp

lemma Pick_best:
  "Pick ws = Inr c \<Longrightarrow> \<exists>w \<in> set ws. Selectable (w_state w) \<and> c_Addr c = Addr (w_state w) \<and> c_ModelVersion c = snap_ModelVersion (w_state w)
     \<and> (\<forall>v \<in> set ws. Selectable (w_state v) \<longrightarrow> no_better_than v (Free (w_state w)) (pick_rtf (w_state w)))"
  using pick_loop_spec [of ws None "-1" MaxFloat32] by (auto simp: Pick_def split: option.splits)

lemma Pick_none: "Pick ws = Inl e \<Longrightarrow> e = ErrNoWorker \<and> (\<forall>w \<in> set ws. \<not> Selectable (w_state w))"
  using pick_loop_spec [of ws None "-1" MaxFloat32]
  by (auto simp: Pick_def no_better_def Selectable_def split: option.splits)

lemma tryReserve_ok:
  assumes "tryReserve now class d = (Some r, d')" and "pool_ok (d_pool d)"
  shows "pool_ok (d_pool d')" and "capacity (d_pool d') = (fst (capacity (d_pool d)), snd (capacity (d_pool d)) - 1)"
    and "0 < snd (capacity (d_pool d))"
    and "class \<noteq> ClassStream \<Longrightarrow> reservedForStream (fst (capacity (d_pool d))) < snd (capacity (d_pool d))"
    and "r_class r = class" and "inFlight d' = (inFlight d)(class := inFlight d class + 1)" and "waiting d' = waiting d"
proof -
  obtain tot free where cap: "capacity (d_pool d) = (tot, free)" by fastforce
  obtain c where c: "Pick (d_pool d) = Inr c" and r: "r = \<lparr>r_Client = c, r_class = class, r_started = now\<rparr>"
    and d': "d' = d\<lparr>inFlight := (inFlight d)(class := inFlight d class + 1), d_pool := NoteSlotTaken (c_Addr c) (d_pool d)\<rparr>"
    and g: "0 < free" "class \<noteq> ClassStream \<Longrightarrow> reservedForStream tot < free"
    using assms(1) cap by (auto simp: tryReserve_def split: if_splits sum.splits)
  obtain w where w: "w \<in> set (d_pool d)" "Selectable (w_state w)" "c_Addr c = Addr (w_state w)" using Pick_best [OF c] by auto
  have "c_Addr c = w_addr w" using w assms(2) by (simp add: pool_ok_def)
  then show "capacity (d_pool d') = (fst (capacity (d_pool d)), snd (capacity (d_pool d)) - 1)"
    using capacity_take [OF w(1) _ _ assms(2)] w(2) by (simp add: d' NoteSlotTaken_def Selectable_def up_def)
  show "pool_ok (d_pool d')" using assms(2) by (simp add: d' NoteSlotTaken_def adjustBusy_ok)
  show "0 < snd (capacity (d_pool d))" "class \<noteq> ClassStream \<Longrightarrow> reservedForStream (fst (capacity (d_pool d))) < snd (capacity (d_pool d))"
    "r_class r = class" "inFlight d' = (inFlight d)(class := inFlight d class + 1)" "waiting d' = waiting d"
    using g cap r d' by simp_all
qed

section \<open>Interleavings\<close>

text \<open>
  The dispatcher with the reservations that are held and the callers that are queued, under the
  steps of any number of goroutines. Health replies keep the worker's own bounds.
\<close>

inductive disp_step :: "Options \<Rightarrow> Dispatcher \<times> Reservation list \<times> Class list \<Rightarrow> Dispatcher \<times> Reservation list \<times> Class list \<Rightarrow> bool"
  for opts where
  step_enter: "disp_step opts (d, held, queue) (enter c d, held, c # queue)"
| step_leave: "c \<in> set queue \<Longrightarrow> disp_step opts (d, held, queue) (leave c d, held, remove1 c queue)"
| step_try: "tryReserve now c d = (Some r, d') \<Longrightarrow> disp_step opts (d, held, queue) (d', r # held, queue)"
| step_release: "r \<in> set held \<Longrightarrow> disp_step opts (d, held, queue) (Release_reservation now r d, remove1 r held, queue)"
| step_probe: "(\<And>a t h. ans a = (t, Some h) \<Longrightarrow> reply_ok h)
    \<Longrightarrow> disp_step opts (d, held, queue) (d\<lparr>d_pool := probeDue opts now ans (d_pool d)\<rparr>, held, queue)"
| step_wake: "disp_step opts (d, held, queue) (d\<lparr>freeSignal := False\<rparr>, held, queue)"

definition disp_inv :: "Dispatcher \<times> Reservation list \<times> Class list \<Rightarrow> bool" where
  "disp_inv st \<longleftrightarrow> (case st of (d, held, queue) \<Rightarrow> pool_ok (d_pool d)
     \<and> (\<forall>c. inFlight d c = int (length (filter (\<lambda>r. r_class r = c) held)))
     \<and> (\<forall>c. waiting d c = int (length (filter (\<lambda>q. q = c) queue))))"

lemma length_filter_remove1:
  "x \<in> set xs \<Longrightarrow> int (length (filter P (remove1 x xs))) = int (length (filter P xs)) - (if P x then 1 else 0)"
  by (induction xs) auto

lemma length_filter_pos: "x \<in> set xs \<Longrightarrow> P x \<Longrightarrow> 0 < length (filter P xs)"
  by (auto simp: filter_empty_conv)

lemma disp_step_inv:
  assumes "disp_step opts st st'" and "disp_inv st"
  shows "disp_inv st'"
  using assms(1)
proof cases
  case (step_enter d held queue c)
  then show ?thesis using assms(2) by (auto simp: disp_inv_def enter_def)
next
  case (step_leave c queue d held)
  have "0 < int (length (filter (\<lambda>q. q = c) queue))" using length_filter_pos [OF step_leave(3), of "\<lambda>q. q = c"] by simp
  then show ?thesis using assms(2) step_leave by (auto simp: disp_inv_def leave_def Let_def length_filter_remove1)
next
  case (step_try now c d r d' held queue)
  then show ?thesis using assms(2) tryReserve_ok [OF step_try(3)] by (auto simp: disp_inv_def)
next
  case (step_release r held d queue now)
  have "0 < int (length (filter (\<lambda>x. r_class x = r_class r) held))"
    using length_filter_pos [OF step_release(3), of "\<lambda>x. r_class x = r_class r"] by simp
  then show ?thesis using assms(2) step_release
    by (auto simp: disp_inv_def Release_reservation_def releaseSlot_def NoteSlotFreed_def adjustBusy_ok Let_def length_filter_remove1)
next
  case (step_probe ans d held queue now)
  then show ?thesis using assms(2) probe_ok [OF _ step_probe(3)] by (auto simp: disp_inv_def)
next
  case (step_wake d held queue)
  then show ?thesis using assms(2) by (auto simp: disp_inv_def)
qed

lemma disp_run_inv: "(disp_step opts)\<^sup>*\<^sup>* st st' \<Longrightarrow> disp_inv st \<Longrightarrow> disp_inv st'"
  by (induction rule: rtranclp_induct) (auto intro: disp_step_inv)

lemma NewDispatcher_inv: "distinct addrs \<Longrightarrow> NewPool addrs = Inr ws \<Longrightarrow> disp_inv (NewDispatcher ws, [], [])"
  by (auto simp: disp_inv_def NewDispatcher_def NewPool_def pool_ok_def newWorker_def empty_snapshot_def slots_ok_def
      MaxInt32_def comp_def split: if_splits)

section \<open>Lemmas on waiting\<close>

lemma reserve_loop_deadline:
  assumes "reserve_loop class deadline first ts d = (Some (Reserved r t), d')"
  shows "\<exists>i < length ts. t = t_check (ts ! i) \<and> ((first \<and> i = 0) \<or> t \<le> deadline)"
  using assms
proof (induction "class" deadline first ts d rule: reserve_loop.induct)
  case (2 cl deadline first t' ts d0)
  show ?case
  proof (cases "\<not> first \<and> deadline < t_check t'")
    case True
    then show ?thesis using "2.prems" by (simp add: Let_def)
  next
    case nlate: False
    obtain o1 d1 where tr: "tryReserve (t_try t') cl (t_others t' d0) = (o1, d1)" by fastforce
    show ?thesis
    proof (cases o1)
      case (Some r')
      then show ?thesis using "2.prems" nlate tr by (auto intro!: exI [of _ 0])
    next
      case None
      have rest: "\<exists>i < length ts. t = t_check (ts ! i) \<and> t \<le> deadline"
        using "2.prems" "2.IH" [OF refl nlate tr [symmetric]] nlate tr None
        by (auto split: if_splits wake.splits)
      then show ?thesis by (metis Suc_less_eq length_Cons nth_Cons_Suc)
    qed
  qed
qed simp

lemma reserve_loop_answers:
  "i < length ts \<Longrightarrow> first \<longrightarrow> 0 < i \<Longrightarrow> deadline < t_check (ts ! i) \<Longrightarrow> fst (reserve_loop class deadline first ts d) \<noteq> None"
proof (induction "class" deadline first ts d arbitrary: i rule: reserve_loop.induct)
  case (2 cl deadline first t' ts d0)
  show ?case
  proof (cases "\<not> first \<and> deadline < t_check t'")
    case False
    then obtain j where j: "i = Suc j" using "2.prems" by (cases i) auto
    obtain o1 d1 where tr: "tryReserve (t_try t') cl (t_others t' d0) = (o1, d1)" by fastforce
    show ?thesis
      using "2.IH" [OF refl False tr [symmetric], of j] "2.prems" j False tr
      by (cases o1; cases "t_wake t'") auto
  qed (simp add: Let_def)
qed simp

lemma overload_bounds: "MinRetryAfter \<le> ov_RetryAfter (overload c d) \<and> ov_RetryAfter (overload c d) \<le> MaxRetryAfter"
  by (auto simp: overload_def Let_def MinRetryAfter_def MaxRetryAfter_def split: prod.split)

definition probes :: "Options \<Rightarrow> (int \<times> HealthReply option) list \<Rightarrow> worker \<Rightarrow> worker" where
  "probes opts rs w = fold (\<lambda>(t, r). probe opts t r) rs w"

definition failing :: "(int \<times> HealthReply option) list \<Rightarrow> nat" where
  "failing rs = length (takeWhile (\<lambda>(t, r). r = None) (rev rs))"

lemma probes_failures:
  assumes "0 < o_FailureThreshold opts"
  shows "Failures (w_state (probes opts rs (newWorker a))) = failing rs
    \<and> (Ejected (w_state (probes opts rs (newWorker a))) \<longleftrightarrow> o_FailureThreshold opts \<le> int (failing rs))
    \<and> (0 < failing rs \<longrightarrow> \<not> Ready (w_state (probes opts rs (newWorker a))))"
proof (induction rs rule: rev_induct)
  case Nil
  then show ?case using assms by (simp add: probes_def failing_def newWorker_def empty_snapshot_def)
next
  case (snoc x rs)
  obtain t r where x: "x = (t, r)" by fastforce
  have p: "probes opts (rs @ [x]) (newWorker a) = probe opts t r (probes opts rs (newWorker a))" by (simp add: probes_def x)
  show ?case
  proof (cases r)
    case None
    then have "failing (rs @ [x]) = Suc (failing rs)" by (simp add: failing_def x)
    then show ?thesis using snoc None by (auto simp: p probe_def Let_def)
  next
    case (Some h)
    then have "failing (rs @ [x]) = 0" by (simp add: failing_def x)
    then show ?thesis using Some assms by (simp add: p probe_def)
  qed
qed

text \<open>
  While only slots reserved for streams are free, a sync or batch caller is never refused at the
  door, however many are queued, and cannot be served either: the queue bound does not apply.
\<close>

lemma reserve_bypasses_queue_bound:
  assumes "capacity (d_pool d) = (tot, free)" and "0 < free" and "free \<le> reservedForStream tot" and "class \<noteq> ClassStream"
  shows "shouldRefuse class d = None" and "tryReserve now class d = (None, d)"
  using assms by (simp_all add: shouldRefuse_def tryReserve_def)

section \<open>Properties\<close>

text \<open>
  C26: the circuit opens on consecutive failures only. After any history of health probes, a
  worker is ejected exactly when at least the threshold of its most recent probes all failed;
  one success closes the circuit, and a worker whose last probe failed takes no request.
\<close>

theorem worker_ejected_iff_consecutive_failures:
  "let w = w_state (probes (withDefaults opt) rs (newWorker a))
   in (Ejected w \<longleftrightarrow> o_FailureThreshold (withDefaults opt) \<le> int (failing rs)) \<and> Failures w = failing rs
      \<and> (Selectable w \<longrightarrow> failing rs = 0)"
proof -
  have "0 < o_FailureThreshold (withDefaults opt)" by (simp add: withDefaults_def FailureThreshold_def)
  from probes_failures [OF this, of rs a] show ?thesis by (auto simp: Let_def Selectable_def)
qed

theorem worker_ejected_iff_consecutive_failures_witness:
  "let opt = \<lparr>o_HealthInterval = 0, o_ProbeInterval = 0, o_FailureThreshold = 0, o_Tick = 0\<rparr>;
     up = \<lparr>h_ready = True, h_model_version = ''v1'', h_slots_total = 2, h_slots_busy = 0, h_rtf_ewma = 0, h_voice_ids = []\<rparr>
   in Ejected (w_state (probes (withDefaults opt) [(0, None), (1, None), (2, None)] (newWorker ''a:1'')))
    \<and> \<not> Ejected (w_state (probes (withDefaults opt) [(0, None), (1, Some up), (2, None), (3, None)] (newWorker ''a:1'')))"
  using worker_ejected_iff_consecutive_failures
      [of "\<lparr>o_HealthInterval = 0, o_ProbeInterval = 0, o_FailureThreshold = 0, o_Tick = 0\<rparr>" "[(0, None), (1, None), (2, None)]" "''a:1''"]
    worker_ejected_iff_consecutive_failures
      [of "\<lparr>o_HealthInterval = 0, o_ProbeInterval = 0, o_FailureThreshold = 0, o_Tick = 0\<rparr>"
        "[(0, None), (1, Some \<lparr>h_ready = True, h_model_version = ''v1'', h_slots_total = 2, h_slots_busy = 0, h_rtf_ewma = 0, h_voice_ids = []\<rparr>), (2, None), (3, None)]" "''a:1''"]
  by (simp add: Let_def failing_def withDefaults_def FailureThreshold_def)

text \<open>
  C25: selection is least busy. \<^verbatim>\<open>Pick\<close> fails exactly when no worker is selectable; otherwise it
  returns a ready, not ejected worker with a free slot such that no selectable worker has more
  free slots, nor as many with a smaller real-time factor (an unmeasured one counts as 1).
\<close>

theorem pick_least_busy:
  "case Pick ws of
     Inl e \<Rightarrow> e = ErrNoWorker \<and> (\<forall>w \<in> set ws. \<not> Selectable (w_state w))
   | Inr c \<Rightarrow> \<exists>w \<in> set ws. Selectable (w_state w) \<and> c_Addr c = Addr (w_state w)
       \<and> (\<forall>v \<in> set ws. Selectable (w_state v) \<longrightarrow> Free (w_state v) \<le> Free (w_state w)
            \<and> (Free (w_state v) = Free (w_state w) \<longrightarrow> pick_rtf (w_state w) \<le> pick_rtf (w_state v)))"
  using Pick_none [of ws] Pick_best [of ws] by (fastforce simp: no_better_def split: sum.split)

theorem pick_least_busy_witness:
  "Pick [(newWorker ''a'')\<lparr>w_state := (empty_snapshot ''a'')\<lparr>Ready := True, SlotsTotal := 2, SlotsBusy := 1\<rparr>\<rparr>,
         (newWorker ''b'')\<lparr>w_state := (empty_snapshot ''b'')\<lparr>Ready := True, SlotsTotal := 4, SlotsBusy := 1\<rparr>\<rparr>]
    = Inr \<lparr>c_Addr = ''b'', c_ModelVersion = []\<rparr>"
  using pick_least_busy [of "[(newWorker ''a'')\<lparr>w_state := (empty_snapshot ''a'')\<lparr>Ready := True, SlotsTotal := 2, SlotsBusy := 1\<rparr>\<rparr>,
         (newWorker ''b'')\<lparr>w_state := (empty_snapshot ''b'')\<lparr>Ready := True, SlotsTotal := 4, SlotsBusy := 1\<rparr>\<rparr>]"]
  by (simp add: Pick_def Selectable_def Free_def empty_snapshot_def pick_rtf_def MaxInt32_def MaxFloat32_def Let_def)

text \<open>
  C15: the dispatcher's accounting is exact under every interleaving. From start-up on, however
  queueing, reserving, releasing and health polling interleave, each class's in-flight count is
  the number of reservations held, its waiting count the number of callers queued, and every
  worker's busy count stays between zero and its slots.
\<close>

theorem dispatcher_accounting_exact:
  assumes "NewPool addrs = Inr ws" and "distinct addrs"
    and "(disp_step opts)\<^sup>*\<^sup>* (NewDispatcher ws, [], []) (d, held, queue)"
  shows "(\<forall>c. inFlight d c = int (length (filter (\<lambda>r. r_class r = c) held)))
    \<and> (\<forall>c. waiting d c = int (length (filter (\<lambda>q. q = c) queue)))
    \<and> (\<forall>w \<in> set (d_pool d). 0 \<le> SlotsBusy (w_state w) \<and> SlotsBusy (w_state w) \<le> SlotsTotal (w_state w))"
  using disp_run_inv [OF assms(3) NewDispatcher_inv [OF assms(2,1)]]
  by (auto simp: disp_inv_def pool_ok_def slots_ok_def)

theorem dispatcher_accounting_exact_witness:
  "waiting (enter ClassSync (enter ClassBatch (NewDispatcher [newWorker ''a'']))) ClassSync = 1"
proof -
  have "(disp_step opts)\<^sup>*\<^sup>* (NewDispatcher [newWorker ''a''], [], [])
      (enter ClassSync (enter ClassBatch (NewDispatcher [newWorker ''a''])), [], [ClassSync, ClassBatch])" for opts
    using step_enter [of opts "NewDispatcher [newWorker ''a'']" "[]" "[]" ClassBatch]
      step_enter [of opts "enter ClassBatch (NewDispatcher [newWorker ''a''])" "[]" "[ClassBatch]" ClassSync] by auto
  from dispatcher_accounting_exact [OF _ _ this, of "[''a'']"] show ?thesis by (simp add: NewPool_def)
qed





end
