(* ===== verification/Jobs.thy ===== *)
theory Jobs
  imports Cache
begin

text \<open>
  Package \<^verbatim>\<open>internal/jobs\<close>, the aggregate: its data and validation (\<^verbatim>\<open>jobs.go\<close>), the tables with the
  statements of \<^verbatim>\<open>db/jobs.sql.go\<close>, the repository (\<^verbatim>\<open>storage/postgres/jobrepo.go\<close>), the streams
  as the lists of what was added to them (their delivery is theory \<open>Job_Queue\<close>), the text store (\<^verbatim>\<open>storage/s3/jobtexts.go\<close>) and the tenant-facing
  service (\<^verbatim>\<open>service.go\<close>). The JSON encoding of parameters and metadata round trips and is left
  out.
\<close>

section \<open>Data (\<^verbatim>\<open>jobs.go\<close>)\<close>

definition job_MaxTextChars :: int where "job_MaxTextChars = 100000"
definition MaxMetadataKeys :: nat where "MaxMetadataKeys = 10"
definition OutputURLTTL :: int where "OutputURLTTL = 24 * 3600 * 10 ^ 9"
definition maxIdempotencyLen :: nat where "maxIdempotencyLen = 255"

datatype Status = StatusQueued | StatusSegmenting | StatusSynthesizing | StatusMerging
  | StatusCompleted | StatusFailed | StatusCancelled

fun Terminal :: "Status \<Rightarrow> bool" where
  "Terminal StatusCompleted = True"
| "Terminal StatusFailed = True"
| "Terminal StatusCancelled = True"
| "Terminal _ = False"

datatype job_error = ErrInvalidRequest | ErrTextTooLong | ErrIdempotencyConflict | ErrNotFound
  | ErrWebhookRejected | ErrPlanLimit | StorageFailed | SegmentMissing | EngineFailed | Panic

type_synonym metadata = "(string \<times> string) list"

definition meta :: "metadata \<Rightarrow> string \<Rightarrow> string" where
  "meta m k = (case map_of m k of None \<Rightarrow> [] | Some v \<Rightarrow> v)"

definition put_meta :: "string \<Rightarrow> string \<Rightarrow> metadata \<Rightarrow> metadata" where
  "put_meta k v m = (k, v) # filter (\<lambda>p. fst p \<noteq> k) m"

record Job =
  j_ID :: uuid
  j_TenantID :: uuid
  j_KeyID :: uuid
  j_IdempotencyKey :: string
  j_Status :: Status
  j_VoiceID :: string
  j_Format :: string
  j_SampleRate :: int
  j_Normalize :: bool
  j_Params :: Params
  j_TotalChars :: int
  j_SegmentsTotal :: "int option"
  j_SegmentsDone :: int
  j_OutputS3Key :: string
  j_DurationMS :: "int option"
  j_WebhookURL :: string
  j_Metadata :: metadata
  j_Error :: string
  j_CreatedAt :: int
  j_UpdatedAt :: int
  j_CompletedAt :: "int option"

datatype SegmentStatus = SegmentPending | SegmentRunning | SegmentDone | SegmentFailed

record Segment =
  s_JobID :: uuid
  s_Seq :: int
  s_TextHash :: "byte list"
  s_Chars :: int
  s_Status :: SegmentStatus
  s_Attempts :: int
  s_S3Key :: string
  s_LastError :: string

record job_Request =
  q_TenantID :: uuid
  q_KeyID :: uuid
  q_IdempotencyKey :: string
  q_Text :: string
  q_VoiceID :: string
  q_Format :: string
  q_SampleRate :: int
  q_Normalize :: bool
  q_Params :: Params
  q_WebhookURL :: string
  q_Metadata :: metadata

text \<open>\<open>fmt_params\<close> is the rendering of the parameter struct by the verb \<^verbatim>\<open>%v\<close>.\<close>

definition body_fields :: "(Params \<Rightarrow> string) \<Rightarrow> job_Request \<Rightarrow> string" where
  "body_fields fmt_params r = q_VoiceID r @ ''|'' @ q_Format r @ ''|'' @ Itoa (q_SampleRate r) @ ''|'' @ FormatBool (q_Normalize r)
     @ ''|'' @ fmt_params (q_Params r) @ ''|'' @ q_WebhookURL r @ ''|'' @ CanonicalText (q_Text r)"

definition BodyHash :: "(string \<Rightarrow> byte list) \<Rightarrow> (Params \<Rightarrow> string) \<Rightarrow> job_Request \<Rightarrow> byte list" where
  "BodyHash sha256 fmt_params r = sha256 (body_fields fmt_params r)"

definition BodyFingerprint :: "(string \<Rightarrow> byte list) \<Rightarrow> (Params \<Rightarrow> string) \<Rightarrow> job_Request \<Rightarrow> string" where
  "BodyFingerprint sha256 fmt_params r = hex (BodyHash sha256 fmt_params r)"

definition runeCount :: "string \<Rightarrow> int" where
  "runeCount text = (if job_MaxTextChars < rune_len text then job_MaxTextChars else rune_len text)"

definition job_Chars :: "job_Request \<Rightarrow> int" where
  "job_Chars r = runeCount (q_Text r)"

definition job_Validate :: "int \<Rightarrow> job_Request \<Rightarrow> job_error + job_Request" where
  "job_Validate maxJobChars r =
    (if rune_len (q_Text r) = 0 then Inl ErrInvalidRequest
     else if job_MaxTextChars < rune_len (q_Text r) then Inl ErrTextTooLong
     else if 0 < maxJobChars \<and> maxJobChars < runeCount (q_Text r) then Inl ErrPlanLimit
     else if q_IdempotencyKey r = [] then Inl ErrInvalidRequest
     else if maxIdempotencyLen < length (q_IdempotencyKey r) then Inl ErrInvalidRequest
     else if q_VoiceID r = [] then Inl ErrInvalidRequest
     else let r1 = (if q_Format r = [] then r\<lparr>q_Format := ''mp3''\<rparr> else r)
       in if q_Format r1 \<notin> {''mp3'', ''ogg_opus'', ''wav''} then Inl ErrInvalidRequest
       else let r2 = (if q_SampleRate r1 = 0 then r1\<lparr>q_SampleRate := 48000\<rparr> else r1)
         in if q_SampleRate r2 \<notin> {8000, 16000, 24000, 48000} then Inl ErrInvalidRequest
         else if MaxMetadataKeys < length (q_Metadata r2) then Inl ErrInvalidRequest
         else Inr r2)"

section \<open>The world of a job\<close>

text \<open>
  The job tables, the entries added to the two streams, the objects of jobs, the notifications
  sent and the state of the engine. Every call to one of these services is one step of an
  environment: \<open>je_faults\<close> says what the network does to the call, \<open>je_clk\<close> is the database clock,
  and \<open>je_others\<close> is whatever other gateways, orchestrators and tenants did since the previous
  call, so a theorem about a handler is a theorem about all its interleavings.
\<close>

record 'x job_world =
  jw_jobs :: "Job list"
  jw_segs :: "Segment list"
  jw_pending :: "uuid list"
  jw_segq :: "(uuid \<times> int) list"
  jw_objects :: "string \<Rightarrow> byte list option"
  jw_notified :: "Job list"
  jw_engine :: 'x

record 'x jenv =
  je_faults :: "nat \<Rightarrow> fault"
  je_clk :: "nat \<Rightarrow> int"
  je_others :: "nat \<Rightarrow> 'x job_world \<Rightarrow> 'x job_world"

definition jcall :: "'x jenv \<Rightarrow> (int \<Rightarrow> 'x job_world \<Rightarrow> (job_error + 'a) \<times> 'x job_world) \<Rightarrow> ('x job_world svc, job_error, 'a) op" where
  "jcall E f s = call (je_faults E) StorageFailed (f (je_clk E (svc_calls s)))
     (s\<lparr>svc_data := je_others E (svc_calls s) (svc_data s)\<rparr>)"

section \<open>Statements (\<^verbatim>\<open>db/jobs.sql.go\<close>)\<close>

text \<open>The trigger \<^verbatim>\<open>jobs_set_updated_at\<close> stamps every updated row.\<close>

definition update_jobs :: "int \<Rightarrow> (Job \<Rightarrow> bool) \<Rightarrow> (Job \<Rightarrow> Job) \<Rightarrow> 'x job_world \<Rightarrow> nat \<times> 'x job_world" where
  "update_jobs now w f d =
    (sql_affected w (jw_jobs d), d\<lparr>jw_jobs := sql_update w (\<lambda>j. (f j)\<lparr>j_UpdatedAt := now\<rparr>) (jw_jobs d)\<rparr>)"

definition update_segs :: "(Segment \<Rightarrow> bool) \<Rightarrow> (Segment \<Rightarrow> Segment) \<Rightarrow> 'x job_world \<Rightarrow> nat \<times> 'x job_world" where
  "update_segs w f d = (sql_affected w (jw_segs d), d\<lparr>jw_segs := sql_update w f (jw_segs d)\<rparr>)"

definition CreateJob :: "Job \<Rightarrow> int \<Rightarrow> 'x job_world \<Rightarrow> (job_error + Job) \<times> 'x job_world" where
  "CreateJob job now d =
    (let row = job\<lparr>j_Status := StatusQueued, j_SegmentsTotal := None, j_SegmentsDone := 0, j_OutputS3Key := [],
                   j_DurationMS := None, j_Error := [], j_CreatedAt := now, j_UpdatedAt := now, j_CompletedAt := None\<rparr>
     in if (\<exists>j \<in> set (jw_jobs d). j_ID j = j_ID job
              \<or> (j_TenantID j = j_TenantID job \<and> j_IdempotencyKey j = j_IdempotencyKey job))
        then (Inl StorageFailed, d)
        else (Inr row, d\<lparr>jw_jobs := jw_jobs d @ [row]\<rparr>))"

definition GetJob :: "uuid \<Rightarrow> uuid \<Rightarrow> 'x job_world \<Rightarrow> job_error + Job" where
  "GetJob i t d = (case find (\<lambda>j. j_ID j = i \<and> j_TenantID j = t) (jw_jobs d) of None \<Rightarrow> Inl ErrNotFound | Some j \<Rightarrow> Inr j)"

definition GetJobByID :: "uuid \<Rightarrow> 'x job_world \<Rightarrow> job_error + Job" where
  "GetJobByID i d = (case find (\<lambda>j. j_ID j = i) (jw_jobs d) of None \<Rightarrow> Inl ErrNotFound | Some j \<Rightarrow> Inr j)"

definition GetJobByIdempotencyKey :: "uuid \<Rightarrow> string \<Rightarrow> 'x job_world \<Rightarrow> job_error + Job" where
  "GetJobByIdempotencyKey t k d =
    (case find (\<lambda>j. j_TenantID j = t \<and> j_IdempotencyKey j = k) (jw_jobs d) of None \<Rightarrow> Inl ErrNotFound | Some j \<Rightarrow> Inr j)"

definition ListJobs :: "uuid \<Rightarrow> int option \<Rightarrow> nat \<Rightarrow> 'x job_world \<Rightarrow> Job list" where
  "ListJobs t before limit d =
    take limit (rev (sort_key j_CreatedAt
      (filter (\<lambda>j. j_TenantID j = t \<and> (case before of None \<Rightarrow> True | Some b \<Rightarrow> j_CreatedAt j < b)) (jw_jobs d))))"

definition live_status :: "Status \<Rightarrow> bool" where
  "live_status st \<longleftrightarrow> st \<in> {StatusQueued, StatusSegmenting, StatusSynthesizing, StatusMerging}"

definition CancelJob :: "uuid \<Rightarrow> uuid \<Rightarrow> int \<Rightarrow> 'x job_world \<Rightarrow> nat \<times> 'x job_world" where
  "CancelJob i t now = update_jobs now (\<lambda>j. j_ID j = i \<and> j_TenantID j = t \<and> live_status (j_Status j))
     (\<lambda>j. j\<lparr>j_Status := StatusCancelled, j_CompletedAt := Some now\<rparr>)"

definition TransitionJob :: "uuid \<Rightarrow> Status \<Rightarrow> Status \<Rightarrow> int \<Rightarrow> 'x job_world \<Rightarrow> nat \<times> 'x job_world" where
  "TransitionJob i from to now = update_jobs now (\<lambda>j. j_ID j = i \<and> j_Status j = from) (\<lambda>j. j\<lparr>j_Status := to\<rparr>)"

definition SetJobSegmentsTotal :: "uuid \<Rightarrow> int \<Rightarrow> int \<Rightarrow> 'x job_world \<Rightarrow> nat \<times> 'x job_world" where
  "SetJobSegmentsTotal i n now = update_jobs now (\<lambda>j. j_ID j = i \<and> j_Status j = StatusSegmenting)
     (\<lambda>j. j\<lparr>j_SegmentsTotal := Some n, j_Status := StatusSynthesizing\<rparr>)"

text \<open>\<^verbatim>\<open>on conflict (job_id, seq) do nothing\<close>; the checks are those of the schema.\<close>

definition CreateJobSegment :: "uuid \<Rightarrow> int \<Rightarrow> byte list \<Rightarrow> int \<Rightarrow> 'x job_world \<Rightarrow> (job_error + unit) \<times> 'x job_world" where
  "CreateJobSegment i seq h chars d =
    (if seq < 0 \<or> chars < 0 \<or> length h \<noteq> 32 \<or> \<not> (\<exists>j \<in> set (jw_jobs d). j_ID j = i) then (Inl StorageFailed, d)
     else if \<exists>s \<in> set (jw_segs d). s_JobID s = i \<and> s_Seq s = seq then (Inr (), d)
     else (Inr (), d\<lparr>jw_segs := jw_segs d @ [\<lparr>s_JobID = i, s_Seq = seq, s_TextHash = h, s_Chars = chars,
             s_Status = SegmentPending, s_Attempts = 0, s_S3Key = [], s_LastError = []\<rparr>]\<rparr>))"

definition ListJobSegments :: "uuid \<Rightarrow> 'x job_world \<Rightarrow> Segment list" where
  "ListJobSegments i d = sort_key s_Seq (filter (\<lambda>s. s_JobID s = i) (jw_segs d))"

definition ClaimJobSegment :: "uuid \<Rightarrow> int \<Rightarrow> 'x job_world \<Rightarrow> nat \<times> 'x job_world" where
  "ClaimJobSegment i seq = update_segs
     (\<lambda>s. s_JobID s = i \<and> s_Seq s = seq \<and> (s_Status s = SegmentPending \<or> s_Status s = SegmentFailed))
     (\<lambda>s. s\<lparr>s_Status := SegmentRunning, s_Attempts := s_Attempts s + 1\<rparr>)"

definition CompleteJobSegment :: "uuid \<Rightarrow> int \<Rightarrow> string \<Rightarrow> int \<Rightarrow> 'x job_world \<Rightarrow> nat \<times> 'x job_world" where
  "CompleteJobSegment i seq key now d =
    (let (n, d1) = update_segs (\<lambda>s. s_JobID s = i \<and> s_Seq s = seq \<and> s_Status s = SegmentRunning)
                     (\<lambda>s. s\<lparr>s_Status := SegmentDone, s_S3Key := key\<rparr>) d
     in if n = 0 then (0, d1)
        else update_jobs now (\<lambda>j. j_ID j = i) (\<lambda>j. j\<lparr>j_SegmentsDone := j_SegmentsDone j + 1\<rparr>) d1)"

definition FailJobSegment :: "uuid \<Rightarrow> int \<Rightarrow> string \<Rightarrow> 'x job_world \<Rightarrow> nat \<times> 'x job_world" where
  "FailJobSegment i seq reason = update_segs (\<lambda>s. s_JobID s = i \<and> s_Seq s = seq)
     (\<lambda>s. s\<lparr>s_Status := SegmentFailed, s_LastError := reason\<rparr>)"

definition CountUnfinishedSegments :: "uuid \<Rightarrow> 'x job_world \<Rightarrow> nat" where
  "CountUnfinishedSegments i d = length (filter (\<lambda>s. s_JobID s = i \<and> s_Status s \<noteq> SegmentDone) (jw_segs d))"

definition FailJob :: "uuid \<Rightarrow> string \<Rightarrow> int \<Rightarrow> 'x job_world \<Rightarrow> nat \<times> 'x job_world" where
  "FailJob i reason now = update_jobs now (\<lambda>j. j_ID j = i \<and> j_Status j \<notin> {StatusCompleted, StatusFailed, StatusCancelled})
     (\<lambda>j. j\<lparr>j_Status := StatusFailed, j_Error := reason, j_CompletedAt := Some now\<rparr>)"

definition CompleteJob :: "uuid \<Rightarrow> string \<Rightarrow> int \<Rightarrow> int \<Rightarrow> 'x job_world \<Rightarrow> nat \<times> 'x job_world" where
  "CompleteJob i key duration now = update_jobs now (\<lambda>j. j_ID j = i \<and> j_Status j = StatusMerging)
     (\<lambda>j. j\<lparr>j_Status := StatusCompleted, j_OutputS3Key := key, j_DurationMS := Some duration, j_CompletedAt := Some now\<rparr>)"

definition StuckJobs :: "int \<Rightarrow> nat \<Rightarrow> 'x job_world \<Rightarrow> Job list" where
  "StuckJobs before limit d =
    take limit (sort_key j_UpdatedAt (filter (\<lambda>j. live_status (j_Status j) \<and> j_UpdatedAt j < before) (jw_jobs d)))"

section \<open>The repository (\<^verbatim>\<open>jobrepo.go\<close>)\<close>

definition exec_rows :: "'x jenv \<Rightarrow> (int \<Rightarrow> 'x job_world \<Rightarrow> nat \<times> 'x job_world) \<Rightarrow> ('x job_world svc, job_error, bool) op" where
  "exec_rows E f = bindE (jcall E (\<lambda>now d. let (n, d') = f now d in (Inr n, d'))) (\<lambda>n. returnE (0 < n))"

definition query :: "'x jenv \<Rightarrow> ('x job_world \<Rightarrow> job_error + 'a) \<Rightarrow> ('x job_world svc, job_error, 'a) op" where
  "query E f = jcall E (\<lambda>_ d. (f d, d))"

definition Repo_Create :: "'x jenv \<Rightarrow> Job \<Rightarrow> ('x job_world svc, job_error, Job) op" where
  "Repo_Create E job = jcall E (CreateJob job)"

definition ByIdempotencyKey :: "'x jenv \<Rightarrow> uuid \<Rightarrow> string \<Rightarrow> ('x job_world svc, job_error, Job) op" where
  "ByIdempotencyKey E t k = query E (GetJobByIdempotencyKey t k)"

definition Repo_Get :: "'x jenv \<Rightarrow> uuid \<Rightarrow> uuid \<Rightarrow> ('x job_world svc, job_error, Job) op" where
  "Repo_Get E t i = query E (GetJob i t)"

definition ByID :: "'x jenv \<Rightarrow> uuid \<Rightarrow> ('x job_world svc, job_error, Job) op" where
  "ByID E i = query E (GetJobByID i)"

definition Repo_List :: "'x jenv \<Rightarrow> uuid \<Rightarrow> int option \<Rightarrow> int \<Rightarrow> ('x job_world svc, job_error, Job list) op" where
  "Repo_List E t before limit = query E (\<lambda>d. Inr (ListJobs t before (nat limit) d))"

definition Repo_Cancel :: "'x jenv \<Rightarrow> uuid \<Rightarrow> uuid \<Rightarrow> ('x job_world svc, job_error, bool) op" where
  "Repo_Cancel E t i = exec_rows E (CancelJob i t)"

definition Transition :: "'x jenv \<Rightarrow> uuid \<Rightarrow> Status \<Rightarrow> Status \<Rightarrow> ('x job_world svc, job_error, bool) op" where
  "Transition E i from to = exec_rows E (TransitionJob i from to)"

definition SetSegmentsTotal :: "'x jenv \<Rightarrow> uuid \<Rightarrow> int \<Rightarrow> ('x job_world svc, job_error, bool) op" where
  "SetSegmentsTotal E i n = exec_rows E (SetJobSegmentsTotal i n)"

definition CreateSegment :: "'x jenv \<Rightarrow> uuid \<Rightarrow> int \<Rightarrow> byte list \<Rightarrow> int \<Rightarrow> ('x job_world svc, job_error, unit) op" where
  "CreateSegment E i seq h chars = jcall E (\<lambda>_. CreateJobSegment i seq h chars)"

definition Segments :: "'x jenv \<Rightarrow> uuid \<Rightarrow> ('x job_world svc, job_error, Segment list) op" where
  "Segments E i = query E (\<lambda>d. Inr (ListJobSegments i d))"

definition ClaimSegment :: "'x jenv \<Rightarrow> uuid \<Rightarrow> int \<Rightarrow> ('x job_world svc, job_error, bool) op" where
  "ClaimSegment E i seq = exec_rows E (\<lambda>_. ClaimJobSegment i seq)"

definition CompleteSegment :: "'x jenv \<Rightarrow> uuid \<Rightarrow> int \<Rightarrow> string \<Rightarrow> ('x job_world svc, job_error, unit) op" where
  "CompleteSegment E i seq key = bindE (exec_rows E (CompleteJobSegment i seq key)) (\<lambda>_. returnE ())"

definition FailSegment :: "'x jenv \<Rightarrow> uuid \<Rightarrow> int \<Rightarrow> string \<Rightarrow> ('x job_world svc, job_error, unit) op" where
  "FailSegment E i seq reason = bindE (exec_rows E (\<lambda>_. FailJobSegment i seq reason)) (\<lambda>_. returnE ())"

definition UnfinishedSegments :: "'x jenv \<Rightarrow> uuid \<Rightarrow> ('x job_world svc, job_error, nat) op" where
  "UnfinishedSegments E i = query E (\<lambda>d. Inr (CountUnfinishedSegments i d))"

definition Repo_Fail :: "'x jenv \<Rightarrow> uuid \<Rightarrow> string \<Rightarrow> ('x job_world svc, job_error, unit) op" where
  "Repo_Fail E i reason = bindE (exec_rows E (FailJob i reason)) (\<lambda>_. returnE ())"

definition Repo_Complete :: "'x jenv \<Rightarrow> uuid \<Rightarrow> string \<Rightarrow> int \<Rightarrow> ('x job_world svc, job_error, bool) op" where
  "Repo_Complete E i key duration = exec_rows E (CompleteJob i key duration)"

definition Stuck :: "'x jenv \<Rightarrow> int \<Rightarrow> nat \<Rightarrow> ('x job_world svc, job_error, Job list) op" where
  "Stuck E before limit = query E (\<lambda>d. Inr (StuckJobs before limit d))"

section \<open>Streams and objects (\<^verbatim>\<open>jobqueue.go\<close>, \<^verbatim>\<open>jobtexts.go\<close>)\<close>

definition Enqueue :: "'x jenv \<Rightarrow> uuid \<Rightarrow> ('x job_world svc, job_error, unit) op" where
  "Enqueue E i = jcall E (\<lambda>_ d. (Inr (), d\<lparr>jw_pending := jw_pending d @ [i]\<rparr>))"

definition EnqueueSegment :: "'x jenv \<Rightarrow> uuid \<Rightarrow> int \<Rightarrow> ('x job_world svc, job_error, unit) op" where
  "EnqueueSegment E i seq = jcall E (\<lambda>_ d. (Inr (), d\<lparr>jw_segq := jw_segq d @ [(i, seq)]\<rparr>))"

definition InputKey :: "(uuid \<Rightarrow> string) \<Rightarrow> uuid \<Rightarrow> uuid \<Rightarrow> string" where
  "InputKey us t i = ''jobs/'' @ us t @ ''/'' @ us i @ ''/input.txt''"

definition SegmentKey :: "(uuid \<Rightarrow> string) \<Rightarrow> uuid \<Rightarrow> uuid \<Rightarrow> int \<Rightarrow> string" where
  "SegmentKey us t i seq = ''jobs/'' @ us t @ ''/'' @ us i @ ''/seg/'' @ pad 5 (Itoa seq) @ ''.pcm''"

definition OutputKey :: "(uuid \<Rightarrow> string) \<Rightarrow> uuid \<Rightarrow> uuid \<Rightarrow> string \<Rightarrow> string" where
  "OutputKey us t i format =
    (let ext = (if format = ''mp3'' then ''mp3'' else if format = ''ogg_opus'' then ''ogg''
                else if format = ''wav'' then ''wav'' else ''bin'')
     in ''jobs/'' @ us t @ ''/'' @ us i @ ''/output.'' @ ext)"

definition to_bytes :: "string \<Rightarrow> byte list" where "to_bytes s = map (\<lambda>c. of_nat (of_char c)) s"

definition of_bytes :: "byte list \<Rightarrow> string" where "of_bytes bs = map (\<lambda>b. char_of (unat b)) bs"

definition put_object :: "'x jenv \<Rightarrow> string \<Rightarrow> byte list \<Rightarrow> ('x job_world svc, job_error, unit) op" where
  "put_object E key body = jcall E (\<lambda>_ d. (Inr (), d\<lparr>jw_objects := (jw_objects d)(key \<mapsto> body)\<rparr>))"

definition PutText :: "(uuid \<Rightarrow> string) \<Rightarrow> 'x jenv \<Rightarrow> uuid \<Rightarrow> uuid \<Rightarrow> string \<Rightarrow> ('x job_world svc, job_error, unit) op" where
  "PutText us E t i text = put_object E (InputKey us t i) (to_bytes text)"

definition GetText :: "(uuid \<Rightarrow> string) \<Rightarrow> 'x jenv \<Rightarrow> uuid \<Rightarrow> uuid \<Rightarrow> ('x job_world svc, job_error, string) op" where
  "GetText us E t i = query E (\<lambda>d. case jw_objects d (InputKey us t i) of None \<Rightarrow> Inl StorageFailed | Some b \<Rightarrow> Inr (of_bytes b))"

definition DeleteText :: "(uuid \<Rightarrow> string) \<Rightarrow> 'x jenv \<Rightarrow> uuid \<Rightarrow> uuid \<Rightarrow> ('x job_world svc, job_error, unit) op" where
  "DeleteText us E t i = jcall E (\<lambda>_ d. (Inr (), d\<lparr>jw_objects := (jw_objects d)(InputKey us t i := None)\<rparr>))"

definition PutSegment :: "(uuid \<Rightarrow> string) \<Rightarrow> 'x jenv \<Rightarrow> uuid \<Rightarrow> uuid \<Rightarrow> int \<Rightarrow> byte list \<Rightarrow> ('x job_world svc, job_error, string) op" where
  "PutSegment us E t i seq pcm =
    bindE (put_object E (SegmentKey us t i seq) pcm) (\<lambda>_. returnE (SegmentKey us t i seq))"

section \<open>The service (\<^verbatim>\<open>service.go\<close>)\<close>

definition fingerprintKey :: string where "fingerprintKey = ''_body_sha256''"
definition DefaultListLimit :: int where "DefaultListLimit = 50"
definition MaxListLimit :: int where "MaxListLimit = 200"

record Created =
  cr_Job :: Job
  cr_Existed :: bool

definition same_body :: "string \<Rightarrow> Job \<Rightarrow> ('x job_world svc, job_error, Created) op" where
  "same_body fingerprint existing =
    (if meta (j_Metadata existing) fingerprintKey \<noteq> fingerprint then failE ErrIdempotencyConflict
     else returnE \<lparr>cr_Job = existing, cr_Existed = True\<rparr>)"

definition new_job :: "uuid \<Rightarrow> string \<Rightarrow> job_Request \<Rightarrow> Job" where
  "new_job newID fingerprint r = \<lparr>j_ID = newID, j_TenantID = q_TenantID r, j_KeyID = q_KeyID r,
     j_IdempotencyKey = q_IdempotencyKey r, j_Status = StatusQueued, j_VoiceID = q_VoiceID r, j_Format = q_Format r,
     j_SampleRate = q_SampleRate r, j_Normalize = q_Normalize r, j_Params = q_Params r, j_TotalChars = job_Chars r,
     j_SegmentsTotal = None, j_SegmentsDone = 0, j_OutputS3Key = [], j_DurationMS = None, j_WebhookURL = q_WebhookURL r,
     j_Metadata = put_meta fingerprintKey fingerprint (q_Metadata r), j_Error = [], j_CreatedAt = 0, j_UpdatedAt = 0, j_CompletedAt = None\<rparr>"

text \<open>The insert of \<^verbatim>\<open>Create\<close>: a lost race on the unique key answers with the row that won.\<close>

definition insert_job :: "'x jenv \<Rightarrow> string \<Rightarrow> Job \<Rightarrow> ('x job_world svc, job_error, Created) op" where
  "insert_job E fingerprint job =
    catchE (Repo_Create E job)
      (\<lambda>err. catchE (ByIdempotencyKey E (j_TenantID job) (j_IdempotencyKey job)) (\<lambda>_. failE err) (same_body fingerprint))
      (\<lambda>created. bindE (ignoreE (Enqueue E (j_ID created)))
         (\<lambda>_. returnE \<lparr>cr_Job = created, cr_Existed = False\<rparr>))"

text \<open>\<open>guard\<close> is the webhook guard's verdict on the URL; \<open>newID\<close> is the fresh identifier.\<close>

definition Service_Create :: "(string \<Rightarrow> byte list) \<Rightarrow> (Params \<Rightarrow> string) \<Rightarrow> (uuid \<Rightarrow> string) \<Rightarrow> (string \<Rightarrow> job_error + unit) \<Rightarrow> 'x jenv
    \<Rightarrow> uuid \<Rightarrow> job_Request \<Rightarrow> int \<Rightarrow> ('x job_world svc, job_error, Created) op" where
  "Service_Create sha256 fmt_params us guard E newID req0 maxJobChars =
    (case job_Validate maxJobChars req0 of Inl e \<Rightarrow> failE e
     | Inr req \<Rightarrow>
      (case guard (q_WebhookURL req) of Inl e \<Rightarrow> failE e
       | Inr _ \<Rightarrow>
        (let fingerprint = BodyFingerprint sha256 fmt_params req
         in catchE (ByIdempotencyKey E (q_TenantID req) (q_IdempotencyKey req))
              (\<lambda>e. if e \<noteq> ErrNotFound then failE e
                   else let job = new_job newID fingerprint req
                     in bindE (PutText us E (j_TenantID job) (j_ID job) (q_Text req))
                          (\<lambda>_. insert_job E fingerprint job))
              (same_body fingerprint))))"

definition Service_Get :: "'x jenv \<Rightarrow> uuid \<Rightarrow> uuid \<Rightarrow> ('x job_world svc, job_error, Job) op" where
  "Service_Get E t i = Repo_Get E t i"

definition Service_List :: "'x jenv \<Rightarrow> uuid \<Rightarrow> int option \<Rightarrow> int \<Rightarrow> ('x job_world svc, job_error, Job list) op" where
  "Service_List E t before limit0 =
    (let limit = (if limit0 \<le> 0 then DefaultListLimit else if MaxListLimit < limit0 then MaxListLimit else limit0)
     in Repo_List E t before limit)"

definition Service_Cancel :: "'x jenv \<Rightarrow> uuid \<Rightarrow> uuid \<Rightarrow> ('x job_world svc, job_error, Job) op" where
  "Service_Cancel E t i = bindE (Repo_Cancel E t i) (\<lambda>_. Repo_Get E t i)"

text \<open>\<open>sign\<close> is the presigning of the object store.\<close>

definition OutputURL :: "(string \<Rightarrow> int \<Rightarrow> job_error + string) \<Rightarrow> Job \<Rightarrow> job_error + string" where
  "OutputURL sign job =
    (if j_Status job \<noteq> StatusCompleted \<or> j_OutputS3Key job = [] then Inr [] else sign (j_OutputS3Key job) OutputURLTTL)"

definition PublicMetadata :: "metadata \<Rightarrow> metadata" where
  "PublicMetadata m = filter (\<lambda>p. fst p \<noteq> fingerprintKey) m"

text \<open>Running operations in a proof.\<close>

lemmas job_run = jcall_def call_def query_def exec_rows_def put_object_def catchE_def bindE_def ignoreE_def returnE_def failE_def Let_def

lemmas job_statements = CreateJob_def GetJob_def GetJobByID_def GetJobByIdempotencyKey_def ListJobs_def CancelJob_def TransitionJob_def
  SetJobSegmentsTotal_def CreateJobSegment_def ListJobSegments_def ClaimJobSegment_def CompleteJobSegment_def FailJobSegment_def
  CountUnfinishedSegments_def FailJob_def CompleteJob_def StuckJobs_def update_jobs_def update_segs_def sql_update_def sql_affected_def

lemmas job_repository = Repo_Create_def ByIdempotencyKey_def Repo_Get_def ByID_def Repo_List_def Repo_Cancel_def Transition_def
  SetSegmentsTotal_def CreateSegment_def Segments_def ClaimSegment_def CompleteSegment_def FailSegment_def UnfinishedSegments_def
  Repo_Fail_def Repo_Complete_def Stuck_def Enqueue_def EnqueueSegment_def PutText_def GetText_def DeleteText_def PutSegment_def

end
