(* ===== verification/Job_Tables.thy ===== *)
theory Job_Tables
  imports Jobs
begin

text \<open>
  The job tables under concurrency. \<open>db_step\<close> is one statement of \<^verbatim>\<open>db/jobs.sql.go\<close> executed by
  anyone, or a change to anything but the two tables. \<open>tables_le\<close> is how rows evolve, \<open>tables_ok\<close>
  what every reachable pair of tables satisfies; both are kept by every statement. The locale
  \<open>job_environment\<close> is the contract between a handler and everyone else: between two calls of the
  handler the others only run statements too.
\<close>

section \<open>Statements as steps\<close>

inductive db_step :: "'x job_world \<Rightarrow> 'x job_world \<Rightarrow> bool" where
  db_create: "db_step d (snd (CreateJob job now d))"
| db_cancel: "db_step d (snd (CancelJob i t now d))"
| db_segmenting: "db_step d (snd (TransitionJob i StatusQueued StatusSegmenting now d))"
| db_merging: "db_step d (snd (TransitionJob i StatusSynthesizing StatusMerging now d))"
| db_set_total: "db_step d (snd (SetJobSegmentsTotal i n now d))"
| db_create_segment: "db_step d (snd (CreateJobSegment i seq h chars d))"
| db_claim_segment: "db_step d (snd (ClaimJobSegment i seq d))"
| db_complete_segment: "db_step d (snd (CompleteJobSegment i seq key now d))"
| db_fail_segment: "db_step d (snd (FailJobSegment i seq reason d))"
| db_fail: "db_step d (snd (FailJob i reason now d))"
| db_complete: "db_step d (snd (CompleteJob i key duration now d))"
| db_other: "jw_jobs d' = jw_jobs d \<Longrightarrow> jw_segs d' = jw_segs d \<Longrightarrow> db_step d d'"

lemmas db_steps [intro] = db_step.intros [THEN r_into_rtranclp [where r = db_step]]

section \<open>How rows evolve\<close>

fun rank :: "Status \<Rightarrow> nat" where
  "rank StatusQueued = 0"
| "rank StatusSegmenting = 1"
| "rank StatusSynthesizing = 2"
| "rank StatusMerging = 3"
| "rank _ = 4"

definition may_follow :: "Status \<Rightarrow> Status \<Rightarrow> bool" where
  "may_follow st st' \<longleftrightarrow> st' = st \<or> rank st < rank st'"

definition job_le :: "Job \<Rightarrow> Job \<Rightarrow> bool" where
  "job_le j j' \<longleftrightarrow> j_ID j' = j_ID j \<and> j_TenantID j' = j_TenantID j \<and> j_KeyID j' = j_KeyID j
     \<and> j_IdempotencyKey j' = j_IdempotencyKey j \<and> j_VoiceID j' = j_VoiceID j \<and> j_Format j' = j_Format j
     \<and> j_SampleRate j' = j_SampleRate j \<and> j_Normalize j' = j_Normalize j \<and> j_Params j' = j_Params j
     \<and> j_TotalChars j' = j_TotalChars j \<and> j_WebhookURL j' = j_WebhookURL j \<and> j_Metadata j' = j_Metadata j
     \<and> j_CreatedAt j' = j_CreatedAt j \<and> may_follow (j_Status j) (j_Status j')
     \<and> j_SegmentsDone j \<le> j_SegmentsDone j'
     \<and> (Terminal (j_Status j) \<longrightarrow> j_Status j' = j_Status j \<and> j_Error j' = j_Error j
          \<and> j_OutputS3Key j' = j_OutputS3Key j \<and> j_DurationMS j' = j_DurationMS j
          \<and> j_CompletedAt j' = j_CompletedAt j \<and> j_SegmentsTotal j' = j_SegmentsTotal j)"

definition seg_le :: "Segment \<Rightarrow> Segment \<Rightarrow> bool" where
  "seg_le s s' \<longleftrightarrow> s_JobID s' = s_JobID s \<and> s_Seq s' = s_Seq s \<and> s_TextHash s' = s_TextHash s
     \<and> s_Chars s' = s_Chars s \<and> s_Attempts s \<le> s_Attempts s'"

lemma Terminal_rank: "Terminal st \<longleftrightarrow> rank st = 4"
  by (cases st) auto

lemma live_rank: "live_status st \<longleftrightarrow> rank st < 4"
  by (cases st) (auto simp: live_status_def)

lemma not_ended_rank: "st \<notin> {StatusCompleted, StatusFailed, StatusCancelled} \<longleftrightarrow> rank st < 4"
  by (cases st) auto

lemmas status_rank = Terminal_rank live_rank not_ended_rank

lemma job_le_refl [simp, intro]: "job_le j j"
  by (simp add: job_le_def may_follow_def)

lemma job_le_trans: "job_le a b \<Longrightarrow> job_le b c \<Longrightarrow> job_le a c"
  unfolding job_le_def may_follow_def by auto

lemma seg_le_refl [simp, intro]: "seg_le s s"
  by (simp add: seg_le_def)

lemma seg_le_trans: "seg_le a b \<Longrightarrow> seg_le b c \<Longrightarrow> seg_le a c"
  by (auto simp: seg_le_def)

text \<open>Tables only grow at the end, and the rows that were there evolve.\<close>

definition rows_le :: "('r \<Rightarrow> 'r \<Rightarrow> bool) \<Rightarrow> 'r list \<Rightarrow> 'r list \<Rightarrow> bool" where
  "rows_le le xs ys \<longleftrightarrow> length xs \<le> length ys \<and> (\<forall>i < length xs. le (xs ! i) (ys ! i))"

definition tables_le :: "'x job_world \<Rightarrow> 'x job_world \<Rightarrow> bool" where
  "tables_le d d' \<longleftrightarrow> rows_le job_le (jw_jobs d) (jw_jobs d') \<and> rows_le seg_le (jw_segs d) (jw_segs d')"

lemma rows_le_refl: "(\<And>r. le r r) \<Longrightarrow> rows_le le xs xs"
  by (simp add: rows_le_def)

lemma rows_le_trans:
  "(\<And>a b c. le a b \<Longrightarrow> le b c \<Longrightarrow> le a c) \<Longrightarrow> rows_le le xs ys \<Longrightarrow> rows_le le ys zs \<Longrightarrow> rows_le le xs zs"
  unfolding rows_le_def by (meson less_le_trans order_trans)

lemma rows_le_update: "(\<And>r. le r r) \<Longrightarrow> (\<And>r. w r \<Longrightarrow> le r (f r)) \<Longrightarrow> rows_le le xs (sql_update w f xs)"
  by (auto simp: rows_le_def sql_update_def)

lemma rows_le_append: "(\<And>r. le r r) \<Longrightarrow> rows_le le xs (xs @ ys)"
  by (simp add: rows_le_def nth_append)

lemma rows_leD: "rows_le le xs ys \<Longrightarrow> x \<in> set xs \<Longrightarrow> \<exists>y \<in> set ys. le x y"
  unfolding rows_le_def in_set_conv_nth by (meson less_le_trans nth_mem)

lemma tables_le_refl [simp, intro]: "tables_le d d"
  by (simp add: tables_le_def rows_le_refl)

lemma tables_le_trans: "tables_le a b \<Longrightarrow> tables_le b c \<Longrightarrow> tables_le a c"
  unfolding tables_le_def by (meson rows_le_trans job_le_trans seg_le_trans)

lemma tables_le_update_jobs:
  "(\<And>j. w j \<Longrightarrow> job_le j ((f j)\<lparr>j_UpdatedAt := now\<rparr>)) \<Longrightarrow> tables_le d (snd (update_jobs now w f d))"
  by (simp add: tables_le_def update_jobs_def rows_le_refl rows_le_update)

lemma tables_le_update_segs: "(\<And>s. w s \<Longrightarrow> seg_le s (f s)) \<Longrightarrow> tables_le d (snd (update_segs w f d))"
  by (simp add: tables_le_def update_segs_def rows_le_refl rows_le_update)

lemma tables_le_CompleteJobSegment: "tables_le d (snd (CompleteJobSegment i seq key now d))"
proof -
  let ?w = "\<lambda>s. s_JobID s = i \<and> s_Seq s = seq \<and> s_Status s = SegmentRunning"
  obtain n d1 where 1: "update_segs ?w (\<lambda>s. s\<lparr>s_Status := SegmentDone, s_S3Key := key\<rparr>) d = (n, d1)"
    by fastforce
  have "tables_le d d1"
    using tables_le_update_segs [of ?w "\<lambda>s. s\<lparr>s_Status := SegmentDone, s_S3Key := key\<rparr>" d] 1
    by (simp add: seg_le_def)
  moreover have "tables_le d1 (snd (update_jobs now (\<lambda>j. j_ID j = i) (\<lambda>j. j\<lparr>j_SegmentsDone := j_SegmentsDone j + 1\<rparr>) d1))"
    by (rule tables_le_update_jobs) (simp add: job_le_def may_follow_def)
  ultimately show ?thesis
    by (auto simp: CompleteJobSegment_def 1 Let_def intro: tables_le_trans)
qed

lemma db_step_tables_le: "db_step d d' \<Longrightarrow> tables_le d d'"
proof (induction rule: db_step.induct)
  case (db_create d job now)
  then show ?case
    by (simp add: CreateJob_def Let_def tables_le_def rows_le_refl rows_le_append)
next
  case (db_create_segment d i seq h chars)
  then show ?case
    by (simp add: CreateJobSegment_def tables_le_def rows_le_refl rows_le_append)
next
  case (db_complete_segment d i seq key now)
  then show ?case by (rule tables_le_CompleteJobSegment)
next
  case (db_other d' d)
  then show ?case by (simp add: tables_le_def rows_le_refl)
qed (unfold CancelJob_def TransitionJob_def SetJobSegmentsTotal_def ClaimJobSegment_def FailJobSegment_def
       FailJob_def CompleteJob_def,
     (rule tables_le_update_jobs tables_le_update_segs,
      (simp only: status_rank)?, force simp: job_le_def may_follow_def seg_le_def Terminal_rank)+)

lemma db_steps_tables_le: "db_step\<^sup>*\<^sup>* d d' \<Longrightarrow> tables_le d d'"
  by (induction rule: rtranclp_induct) (auto intro: tables_le_trans db_step_tables_le)

section \<open>What every reachable pair of tables satisfies\<close>

definition done_count :: "'x job_world \<Rightarrow> uuid \<Rightarrow> nat" where
  "done_count d i = length (filter (\<lambda>s. s_JobID s = i \<and> s_Status s = SegmentDone) (jw_segs d))"

definition row_ok :: "Job \<Rightarrow> bool" where
  "row_ok j \<longleftrightarrow> (j_CompletedAt j \<noteq> None \<longleftrightarrow> Terminal (j_Status j))
     \<and> (j_DurationMS j \<noteq> None \<longleftrightarrow> j_Status j = StatusCompleted)
     \<and> (j_Status j \<in> {StatusSynthesizing, StatusMerging, StatusCompleted} \<longrightarrow> j_SegmentsTotal j \<noteq> None)"

definition seg_ok :: "Segment \<Rightarrow> bool" where
  "seg_ok s \<longleftrightarrow> 0 \<le> s_Seq s \<and> 0 \<le> s_Attempts s \<and> (s_Status s \<in> {SegmentRunning, SegmentDone} \<longrightarrow> 1 \<le> s_Attempts s)"

definition keys_ok :: "'x job_world \<Rightarrow> bool" where
  "keys_ok d \<longleftrightarrow> distinct (map j_ID (jw_jobs d)) \<and> distinct (map (\<lambda>j. (j_TenantID j, j_IdempotencyKey j)) (jw_jobs d))
     \<and> distinct (map (\<lambda>s. (s_JobID s, s_Seq s)) (jw_segs d)) \<and> (\<forall>s \<in> set (jw_segs d). s_JobID s \<in> j_ID ` set (jw_jobs d))"

definition tables_ok :: "'x job_world \<Rightarrow> bool" where
  "tables_ok d \<longleftrightarrow> keys_ok d \<and> (\<forall>j \<in> set (jw_jobs d). row_ok j \<and> int (done_count d (j_ID j)) \<le> j_SegmentsDone j)
     \<and> (\<forall>s \<in> set (jw_segs d). seg_ok s)"

lemma update_jobs_sel:
  "jw_jobs (snd (update_jobs now w f d)) = sql_update w (\<lambda>j. (f j)\<lparr>j_UpdatedAt := now\<rparr>) (jw_jobs d)"
  "jw_segs (snd (update_jobs now w f d)) = jw_segs d"
  "fst (update_jobs now w f d) = sql_affected w (jw_jobs d)"
  by (simp_all add: update_jobs_def)

lemma update_segs_sel:
  "jw_segs (snd (update_segs w f d)) = sql_update w f (jw_segs d)"
  "jw_jobs (snd (update_segs w f d)) = jw_jobs d"
  "fst (update_segs w f d) = sql_affected w (jw_segs d)"
  by (simp_all add: update_segs_def)

lemma count_update_le:
  "(\<And>r. w r \<Longrightarrow> P (f r) \<Longrightarrow> P r) \<Longrightarrow> length (filter P (sql_update w f rows)) \<le> length (filter P rows)"
  by (induction rows) (auto simp: sql_update_def le_Suc_eq)

lemma count_update_add:
  "(\<And>r. w r \<Longrightarrow> \<not> P r \<and> P (f r)) \<Longrightarrow> length (filter P (sql_update w f rows)) = length (filter P rows) + sql_affected w rows"
  by (induction rows) (auto simp: sql_update_def sql_affected_def)

lemma affected_unique: "distinct (map key rows) \<Longrightarrow> (\<And>r. w r \<Longrightarrow> key r = k) \<Longrightarrow> sql_affected w rows \<le> 1"
proof (induction rows)
  case (Cons r rows)
  show ?case
  proof (cases "w r")
    case True
    then have "filter w rows = []" using Cons.prems by (fastforce simp: filter_empty_conv)
    then show ?thesis by (simp add: sql_affected_def)
  next
    case False
    then show ?thesis using Cons by (simp add: sql_affected_def)
  qed
qed (simp add: sql_affected_def)

lemma keys_ok_update_jobs:
  assumes "keys_ok d" and "\<And>j. j_ID (f j) = j_ID j \<and> j_TenantID (f j) = j_TenantID j \<and> j_IdempotencyKey (f j) = j_IdempotencyKey j"
  shows "keys_ok (snd (update_jobs now w f d))"
proof -
  let ?g = "\<lambda>j. (f j)\<lparr>j_UpdatedAt := now\<rparr>"
  have 1: "map j_ID (sql_update w ?g (jw_jobs d)) = map j_ID (jw_jobs d)"
    using assms(2) by (intro sql_update_map_id) simp
  have 2: "map (\<lambda>j. (j_TenantID j, j_IdempotencyKey j)) (sql_update w ?g (jw_jobs d))
      = map (\<lambda>j. (j_TenantID j, j_IdempotencyKey j)) (jw_jobs d)"
    using assms(2) by (intro sql_update_map_id) simp
  have 3: "j_ID ` set (sql_update w ?g (jw_jobs d)) = j_ID ` set (jw_jobs d)"
    using arg_cong [OF 1, of set] by simp
  show ?thesis using assms(1) unfolding keys_ok_def update_jobs_sel 1 2 3 .
qed

lemma keys_ok_update_segs:
  assumes "keys_ok d" and "\<And>s. s_JobID (f s) = s_JobID s \<and> s_Seq (f s) = s_Seq s"
  shows "keys_ok (snd (update_segs w f d))"
proof -
  have 1: "map (\<lambda>s. (s_JobID s, s_Seq s)) (sql_update w f (jw_segs d)) = map (\<lambda>s. (s_JobID s, s_Seq s)) (jw_segs d)"
    using assms(2) by (intro sql_update_map_id) simp
  have 2: "s_JobID ` set (sql_update w f (jw_segs d)) = s_JobID ` set (jw_segs d)"
    using arg_cong [OF 1, of "\<lambda>l. set (map fst l)"] by (simp add: comp_def)
  have "\<forall>s \<in> set (sql_update w f (jw_segs d)). s_JobID s \<in> s_JobID ` set (jw_segs d)"
    using 2 by blast
  then show ?thesis using assms(1) by (auto simp only: keys_ok_def update_segs_sel 1)
qed

lemma tables_ok_update_jobs:
  assumes "tables_ok d" and "\<And>j. j_ID (f j) = j_ID j \<and> j_TenantID (f j) = j_TenantID j \<and> j_IdempotencyKey (f j) = j_IdempotencyKey j"
    and "\<And>j. w j \<Longrightarrow> row_ok j \<Longrightarrow> row_ok ((f j)\<lparr>j_UpdatedAt := now\<rparr>)" and "\<And>j. j_SegmentsDone j \<le> j_SegmentsDone (f j)"
  shows "tables_ok (snd (update_jobs now w f d))"
proof -
  have keys: "keys_ok (snd (update_jobs now w f d))"
    using assms(1,2) by (intro keys_ok_update_jobs) (auto simp: tables_ok_def)
  have "row_ok j' \<and> int (done_count d (j_ID j')) \<le> j_SegmentsDone j'"
    if mem: "j' \<in> set (jw_jobs (snd (update_jobs now w f d)))" for j'
  proof -
    obtain j where j: "j \<in> set (jw_jobs d)" and j': "j' = (if w j then (f j)\<lparr>j_UpdatedAt := now\<rparr> else j)"
      using mem unfolding update_jobs_sel in_sql_update by blast
    have "row_ok j \<and> int (done_count d (j_ID j)) \<le> j_SegmentsDone j" using assms(1) j by (simp add: tables_ok_def)
    then show ?thesis using assms(2-4) [of j] j' by (auto intro: order_trans)
  qed
  moreover have "done_count (snd (update_jobs now w f d)) = done_count d" "jw_segs (snd (update_jobs now w f d)) = jw_segs d"
    by (simp_all add: done_count_def fun_eq_iff update_jobs_sel)
  ultimately show ?thesis using assms(1) keys by (simp add: tables_ok_def)
qed

lemma tables_ok_update_segs:
  assumes "tables_ok d" and "\<And>s. s_JobID (f s) = s_JobID s \<and> s_Seq (f s) = s_Seq s"
    and "\<And>s. w s \<Longrightarrow> seg_ok s \<Longrightarrow> seg_ok (f s)" and "\<And>s. s_Status (f s) \<noteq> SegmentDone"
  shows "tables_ok (snd (update_segs w f d))"
proof -
  have keys: "keys_ok (snd (update_segs w f d))"
    using assms(1,2) by (intro keys_ok_update_segs) (auto simp: tables_ok_def)
  have "done_count (snd (update_segs w f d)) i \<le> done_count d i" for i
    unfolding done_count_def update_segs_sel
    using assms(4) by (intro count_update_le) simp
  then have "int (done_count (snd (update_segs w f d)) (j_ID j)) \<le> j_SegmentsDone j" if "j \<in> set (jw_jobs d)" for j
    using assms(1) that unfolding tables_ok_def by (meson order_trans of_nat_mono)
  moreover have "\<forall>s \<in> set (jw_segs (snd (update_segs w f d))). seg_ok s"
    using assms(1,3) by (auto simp: update_segs_sel in_sql_update tables_ok_def)
  ultimately show ?thesis using assms(1) keys by (simp add: tables_ok_def update_segs_sel)
qed

lemma tables_ok_CreateJob:
  assumes "tables_ok d"
  shows "tables_ok (snd (CreateJob job now d))"
proof (cases "\<exists>j \<in> set (jw_jobs d). j_ID j = j_ID job \<or> (j_TenantID j = j_TenantID job \<and> j_IdempotencyKey j = j_IdempotencyKey job)")
  case True
  then show ?thesis using assms by (simp add: CreateJob_def)
next
  case False
  let ?row = "job\<lparr>j_Status := StatusQueued, j_SegmentsTotal := None, j_SegmentsDone := 0, j_OutputS3Key := [],
     j_DurationMS := None, j_Error := [], j_CreatedAt := now, j_UpdatedAt := now, j_CompletedAt := None\<rparr>"
  have d': "snd (CreateJob job now d) = d\<lparr>jw_jobs := jw_jobs d @ [?row]\<rparr>"
    using False by (simp add: CreateJob_def Let_def)
  have "s_JobID s \<noteq> j_ID job" if "s \<in> set (jw_segs d)" for s
    using assms False that unfolding tables_ok_def keys_ok_def by (metis imageE)
  then have "filter (\<lambda>s. s_JobID s = j_ID job \<and> s_Status s = SegmentDone) (jw_segs d) = []"
    by (auto simp: filter_empty_conv)
  then have "done_count (d\<lparr>jw_jobs := jw_jobs d @ [?row]\<rparr>) (j_ID job) = 0" by (simp add: done_count_def)
  moreover have "done_count (d\<lparr>jw_jobs := jw_jobs d @ [?row]\<rparr>) = done_count d" by (simp add: done_count_def fun_eq_iff)
  moreover have "keys_ok (d\<lparr>jw_jobs := jw_jobs d @ [?row]\<rparr>)"
    using assms False by (auto simp: tables_ok_def keys_ok_def)
  ultimately show ?thesis using assms by (auto simp: d' tables_ok_def row_ok_def)
qed

lemma tables_ok_CreateJobSegment:
  assumes "tables_ok d"
  shows "tables_ok (snd (CreateJobSegment i seq h chars d))"
proof -
  let ?row = "\<lparr>s_JobID = i, s_Seq = seq, s_TextHash = h, s_Chars = chars, s_Status = SegmentPending,
     s_Attempts = 0, s_S3Key = [], s_LastError = []\<rparr>"
  have "tables_ok (d\<lparr>jw_segs := jw_segs d @ [?row]\<rparr>)"
    if "0 \<le> seq" and "\<exists>j \<in> set (jw_jobs d). j_ID j = i" and "\<not> (\<exists>s \<in> set (jw_segs d). s_JobID s = i \<and> s_Seq s = seq)"
  proof -
    have "keys_ok (d\<lparr>jw_segs := jw_segs d @ [?row]\<rparr>)"
      using assms that by (auto simp: tables_ok_def keys_ok_def)
    moreover have "done_count (d\<lparr>jw_segs := jw_segs d @ [?row]\<rparr>) = done_count d"
      by (simp add: done_count_def fun_eq_iff)
    ultimately show ?thesis using assms that(1) by (auto simp: tables_ok_def seg_ok_def)
  qed
  then show ?thesis using assms by (auto simp: CreateJobSegment_def not_less)
qed

lemma tables_ok_CompleteJobSegment:
  assumes "tables_ok d"
  shows "tables_ok (snd (CompleteJobSegment i seq key now d))"
proof -
  let ?w = "\<lambda>s. s_JobID s = i \<and> s_Seq s = seq \<and> s_Status s = SegmentRunning"
  let ?f = "\<lambda>s. s\<lparr>s_Status := SegmentDone, s_S3Key := key\<rparr>"
  let ?g = "\<lambda>j. j\<lparr>j_SegmentsDone := j_SegmentsDone j + 1\<rparr>"
  let ?d1 = "snd (update_segs ?w ?f d)"
  let ?d2 = "snd (update_jobs now (\<lambda>j. j_ID j = i) ?g ?d1)"
  have d': "snd (CompleteJobSegment i seq key now d) = (if sql_affected ?w (jw_segs d) = 0 then d else ?d2)"
    using sql_update_no_match [of "jw_segs d" ?w ?f]
    by (auto simp: CompleteJobSegment_def update_segs_def sql_affected_pos [symmetric] simp del: sql_affected_pos)
  have one: "sql_affected ?w (jw_segs d) \<le> 1"
    using assms by (intro affected_unique [where key = "\<lambda>s. (s_JobID s, s_Seq s)" and k = "(i, seq)"])
      (auto simp: tables_ok_def keys_ok_def)
  have same: "done_count ?d1 i' \<le> done_count d i'" if "i' \<noteq> i" for i'
    unfolding done_count_def update_segs_sel using that by (intro count_update_le) simp
  have more: "done_count ?d1 i = done_count d i + sql_affected ?w (jw_segs d)"
    unfolding done_count_def update_segs_sel by (intro count_update_add) simp
  have "keys_ok ?d1" using assms by (intro keys_ok_update_segs) (auto simp: tables_ok_def)
  then have keys: "keys_ok ?d2" by (intro keys_ok_update_jobs) simp_all
  have dc: "done_count ?d2 = done_count ?d1" by (simp add: done_count_def fun_eq_iff update_jobs_sel)
  have "row_ok j' \<and> int (done_count ?d2 (j_ID j')) \<le> j_SegmentsDone j'" if mem: "j' \<in> set (jw_jobs ?d2)" for j'
  proof -
    obtain j where j: "j \<in> set (jw_jobs d)" and j': "j' = (if j_ID j = i then (?g j)\<lparr>j_UpdatedAt := now\<rparr> else j)"
      using mem unfolding update_jobs_sel update_segs_sel in_sql_update by blast
    have ok: "row_ok j" "int (done_count d (j_ID j)) \<le> j_SegmentsDone j" using assms j by (auto simp: tables_ok_def)
    show ?thesis
    proof (cases "j_ID j = i")
      case True
      then show ?thesis using ok one by (simp add: j' dc more row_ok_def)
    next
      case False
      then show ?thesis using ok same [OF False] by (simp add: j' dc)
    qed
  qed
  moreover have "\<forall>s \<in> set (jw_segs ?d2). seg_ok s"
    using assms by (auto simp: update_jobs_sel update_segs_sel in_sql_update tables_ok_def seg_ok_def)
  ultimately show ?thesis using assms keys by (simp add: d' tables_ok_def)
qed

lemma db_step_tables_ok: "db_step d d' \<Longrightarrow> tables_ok d \<Longrightarrow> tables_ok d'"
proof (induction rule: db_step.induct)
  case (db_other d' d)
  then show ?case by (simp add: tables_ok_def keys_ok_def done_count_def)
next
  case (db_claim_segment d i seq)
  then show ?case unfolding ClaimJobSegment_def by (intro tables_ok_update_segs) (auto simp: seg_ok_def)
next
  case (db_fail_segment d i seq reason)
  then show ?case unfolding FailJobSegment_def by (intro tables_ok_update_segs) (auto simp: seg_ok_def)
qed (unfold CancelJob_def TransitionJob_def SetJobSegmentsTotal_def FailJob_def CompleteJob_def,
     (intro tables_ok_CreateJob tables_ok_CreateJobSegment tables_ok_CompleteJobSegment tables_ok_update_jobs;
      force simp: row_ok_def live_status_def)+)

lemma db_steps_tables_ok: "db_step\<^sup>*\<^sup>* d d' \<Longrightarrow> tables_ok d \<Longrightarrow> tables_ok d'"
  by (induction rule: rtranclp_induct) (auto intro: db_step_tables_ok)

section \<open>Handlers among others\<close>

definition db_later :: "'x job_world svc \<Rightarrow> 'x job_world svc \<Rightarrow> bool" where
  "db_later s t \<longleftrightarrow> db_step\<^sup>*\<^sup>* (svc_data s) (svc_data t)"

interpretation db: state_order db_later
  by unfold_locales (auto simp: db_later_def)

locale job_environment =
  fixes E :: "'x jenv"
  assumes others: "db_step\<^sup>*\<^sup>* d (je_others E n d)"
begin

lemma jcall_keeps:
  assumes "\<And>now d. db_step\<^sup>*\<^sup>* d (snd (f now d))"
  shows "keeps db_later (jcall E f)"
  unfolding keeps_def
proof
  fix s :: "'x job_world svc"
  let ?s0 = "s\<lparr>svc_data := je_others E (svc_calls s) (svc_data s)\<rparr>"
  have 0: "db_step\<^sup>*\<^sup>* (svc_data s) (svc_data ?s0)" using others by simp
  have "svc_data (snd (jcall E f s)) = svc_data ?s0 \<or> svc_data (snd (jcall E f s)) = snd (f (je_clk E (svc_calls s)) (svc_data ?s0))"
    unfolding jcall_def by (rule call_data)
  then show "db_later s (snd (jcall E f s))"
    unfolding db_later_def using 0 assms by (metis rtranclp_trans)
qed

lemma jcall_ok:
  assumes "jcall E f s = (Inr a, s')"
  obtains now d where "db_step\<^sup>*\<^sup>* (svc_data s) d" and "f now d = (Inr a, svc_data s')"
  using call_ok [OF assms [unfolded jcall_def]] others [of "svc_data s" "svc_calls s"] that by auto

lemma jcall_error:
  assumes "jcall E f s = (Inl e, s')"
  obtains "e = StorageFailed" | now d where "db_step\<^sup>*\<^sup>* (svc_data s) d" and "f now d = (Inl e, svc_data s')"
proof -
  let ?s0 = "s\<lparr>svc_data := je_others E (svc_calls s) (svc_data s)\<rparr>"
  have 0: "db_step\<^sup>*\<^sup>* (svc_data s) (svc_data ?s0)" using others by simp
  have "call (je_faults E) StorageFailed (f (je_clk E (svc_calls s))) ?s0 = (Inl e, s')"
    using assms by (simp add: jcall_def)
  then show ?thesis
  proof (cases rule: call_cases)
    case worked
    then show ?thesis by (intro that(2) [OF 0, of "je_clk E (svc_calls s)"]) (simp add: prod_eq_iff)
  qed (use that(1) in simp_all)
qed

lemma exec_rows_keeps: "(\<And>now d. db_step\<^sup>*\<^sup>* d (snd (f now d))) \<Longrightarrow> keeps db_later (exec_rows E f)"
  unfolding exec_rows_def by (intro keeps_intros jcall_keeps) (auto simp: case_prod_beta Let_def)

lemma query_keeps [keeps_intros]: "keeps db_later (query E f)"
  unfolding query_def by (intro jcall_keeps) auto

lemma query_ok:
  assumes "query E f s = (Inr a, s')"
  shows "db_step\<^sup>*\<^sup>* (svc_data s) (svc_data s')" and "f (svc_data s') = Inr a"
proof -
  obtain now d where "db_step\<^sup>*\<^sup>* (svc_data s) d" and "(f d, d) = (Inr a, svc_data s')"
    using assms unfolding query_def by (rule jcall_ok)
  then show "db_step\<^sup>*\<^sup>* (svc_data s) (svc_data s')" and "f (svc_data s') = Inr a" by auto
qed

lemma query_error:
  assumes "query E f s = (Inl e, s')" and "e \<noteq> StorageFailed"
  shows "db_step\<^sup>*\<^sup>* (svc_data s) (svc_data s')" and "f (svc_data s') = Inl e"
proof -
  obtain now d where "db_step\<^sup>*\<^sup>* (svc_data s) d" and "(f d, d) = (Inl e, svc_data s')"
    using assms(1) unfolding query_def by (rule jcall_error) (use assms(2) in simp)
  then show "db_step\<^sup>*\<^sup>* (svc_data s) (svc_data s')" and "f (svc_data s') = Inl e" by auto
qed

lemma exec_rows_ok:
  assumes "exec_rows E f s = (Inr b, s')"
  obtains now d where "db_step\<^sup>*\<^sup>* (svc_data s) d" and "svc_data s' = snd (f now d)" and "b \<longleftrightarrow> 0 < fst (f now d)"
proof (cases "jcall E (\<lambda>now d. let (n, d') = f now d in (Inr n, d')) s")
  case (Pair r s1)
  then obtain n where r: "r = Inr n" and "s' = s1" "b \<longleftrightarrow> 0 < n"
    using assms by (cases r) (simp_all add: exec_rows_def bindE_def returnE_def)
  obtain now d where 1: "db_step\<^sup>*\<^sup>* (svc_data s) d" and 2: "(let (n, d') = f now d in (Inr n, d')) = (Inr n :: job_error + nat, svc_data s1)"
    by (rule jcall_ok [OF Pair [unfolded r]])
  have "fst (f now d) = n" and "svc_data s1 = snd (f now d)" using 2 by (simp_all add: case_prod_beta Let_def)
  then show ?thesis using that [OF 1, of now] \<open>s' = s1\<close> \<open>b \<longleftrightarrow> 0 < n\<close> by simp
qed

lemma repository_keeps [keeps_intros]:
  "keeps db_later (Repo_Create E job)" "keeps db_later (ByIdempotencyKey E t k)" "keeps db_later (Repo_Get E t i)"
  "keeps db_later (ByID E i)" "keeps db_later (Repo_List E t before limit)" "keeps db_later (Repo_Cancel E t i)"
  "keeps db_later (Transition E i StatusQueued StatusSegmenting)" "keeps db_later (Transition E i StatusSynthesizing StatusMerging)"
  "keeps db_later (SetSegmentsTotal E i n)" "keeps db_later (CreateSegment E i seq h chars)" "keeps db_later (Segments E i)"
  "keeps db_later (ClaimSegment E i seq)" "keeps db_later (CompleteSegment E i seq key)" "keeps db_later (FailSegment E i seq reason)"
  "keeps db_later (UnfinishedSegments E i)" "keeps db_later (Repo_Fail E i reason)" "keeps db_later (Repo_Complete E i key duration)"
  "keeps db_later (Stuck E cutoff count)"
  unfolding Repo_Create_def ByIdempotencyKey_def Repo_Get_def ByID_def Repo_List_def Repo_Cancel_def Transition_def SetSegmentsTotal_def
    CreateSegment_def Segments_def ClaimSegment_def CompleteSegment_def FailSegment_def UnfinishedSegments_def Repo_Fail_def
    Repo_Complete_def Stuck_def
  by (intro keeps_intros exec_rows_keeps jcall_keeps db_steps)+

lemma stores_keep [keeps_intros]:
  "keeps db_later (Enqueue E i)" "keeps db_later (EnqueueSegment E i seq)" "keeps db_later (PutText us E t i text)"
  "keeps db_later (GetText us E t i)" "keeps db_later (DeleteText us E t i)" "keeps db_later (PutSegment us E t i seq pcm)"
  unfolding Enqueue_def EnqueueSegment_def PutText_def GetText_def DeleteText_def PutSegment_def put_object_def
  by (intro keeps_intros jcall_keeps db_steps; simp)+

lemma same_body_keeps [keeps_intros]: "keeps db_later (same_body fp existing)"
  unfolding same_body_def by (intro keeps_intros)

lemma Service_Create_keeps: "keeps db_later (Service_Create sha256 fmt us guard E newID req maxJobChars)"
  unfolding Service_Create_def insert_job_def Let_def by (intro keeps_intros)

lemma Service_Cancel_keeps: "keeps db_later (Service_Cancel E t i)"
  unfolding Service_Cancel_def by (intro keeps_intros)

end

text \<open>
  Two environments of the code: a deployment with one actor at a time, and one where the owner of
  a job cancels it just before the \<open>k\<close>-th call.
\<close>

definition quiet :: "(nat \<Rightarrow> fault) \<Rightarrow> (nat \<Rightarrow> int) \<Rightarrow> 'x jenv" where
  "quiet F clk = \<lparr>je_faults = F, je_clk = clk, je_others = (\<lambda>_ d. d)\<rparr>"

definition cancelled_at :: "nat \<Rightarrow> uuid \<Rightarrow> uuid \<Rightarrow> 'x jenv \<Rightarrow> 'x jenv" where
  "cancelled_at k i t E = E\<lparr>je_others := (\<lambda>n d. if n = k then snd (CancelJob i t (je_clk E n) (je_others E n d)) else je_others E n d)\<rparr>"

interpretation quiet: job_environment "quiet F clk" for F clk
  by unfold_locales (simp add: quiet_def)

lemma job_environment_cancelled_at: "job_environment E \<Longrightarrow> job_environment (cancelled_at k i t E)"
  by (auto simp: job_environment_def cancelled_at_def intro: rtranclp.rtrancl_into_rtrancl db_cancel)

interpretation cancelled: job_environment "cancelled_at k i t (quiet F clk)" for k i t F clk
  by (rule job_environment_cancelled_at) (rule quiet.job_environment_axioms)

end
