(* ===== verification/Job_Service.thy ===== *)
theory Job_Service
  imports Job_Tables "HOL-Library.Multiset"
begin

text \<open>
  What the tenant-facing service of jobs promises under concurrency: idempotent creation, tenant
  isolation and a cancellation that sticks.
\<close>

section \<open>Lookups\<close>

lemma meta_put_meta [simp]: "meta (put_meta k v m) k = v"
  by (simp add: meta_def put_meta_def)

lemma find_by_key:
  assumes "tables_ok d" and "j \<in> set (jw_jobs d)"
  shows "GetJobByIdempotencyKey (j_TenantID j) (j_IdempotencyKey j) d = Inr j"
proof -
  have "find (\<lambda>x. j_TenantID x = j_TenantID j \<and> j_IdempotencyKey x = j_IdempotencyKey j) (jw_jobs d) = Some j"
    using assms by (intro find_unique_key [where key = "\<lambda>j. (j_TenantID j, j_IdempotencyKey j)", simplified])
      (auto simp: tables_ok_def keys_ok_def)
  then show ?thesis by (simp add: GetJobByIdempotencyKey_def)
qed

lemma find_by_id:
  assumes "tables_ok d" and "j \<in> set (jw_jobs d)"
  shows "GetJobByID (j_ID j) d = Inr j"
proof -
  have "find (\<lambda>x. j_ID x = j_ID j) (jw_jobs d) = Some j"
    using assms by (intro find_unique_key [where key = j_ID]) (auto simp: tables_ok_def keys_ok_def)
  then show ?thesis by (simp add: GetJobByID_def)
qed

lemma lookup_rows:
  "GetJob i t d = Inr j \<Longrightarrow> j \<in> set (jw_jobs d) \<and> j_ID j = i \<and> j_TenantID j = t"
  "GetJobByID i d = Inr j \<Longrightarrow> j \<in> set (jw_jobs d) \<and> j_ID j = i"
  "GetJobByIdempotencyKey t k d = Inr j \<Longrightarrow> j \<in> set (jw_jobs d) \<and> j_TenantID j = t \<and> j_IdempotencyKey j = k"
  by (auto simp: GetJob_def GetJobByID_def GetJobByIdempotencyKey_def dest!: find_SomeD split: option.splits)

lemma later_row:
  assumes "db_step\<^sup>*\<^sup>* d d'" and "j \<in> set (jw_jobs d)"
  obtains j' where "j' \<in> set (jw_jobs d')" and "job_le j j'"
  using rows_leD [of job_le "jw_jobs d" "jw_jobs d'" j] db_steps_tables_le [OF assms(1)] assms(2)
  by (auto simp: tables_le_def)

lemma new_job_sel [simp]:
  "j_ID (new_job newID fp req) = newID" "j_TenantID (new_job newID fp req) = q_TenantID req"
  "j_IdempotencyKey (new_job newID fp req) = q_IdempotencyKey req"
  "meta (j_Metadata (new_job newID fp req)) fingerprintKey = fp"
  by (simp_all add: new_job_def)

lemma created_row:
  "CreateJob job now d = (Inr row, d') \<Longrightarrow> row \<in> set (jw_jobs d') \<and> j_ID row = j_ID job \<and> j_TenantID row = j_TenantID job
     \<and> j_IdempotencyKey row = j_IdempotencyKey job \<and> j_Metadata row = j_Metadata job"
  by (auto simp: CreateJob_def Let_def split: if_splits)

lemma unique_id:
  assumes "tables_ok d" and "a \<in> set (jw_jobs d)" and "b \<in> set (jw_jobs d)" and "j_ID a = j_ID b"
  shows "a = b"
  using find_by_id [OF assms(1,2)] find_by_id [OF assms(1,3)] assms(4) by (metis sum.inject(2))

lemma job_le_id: "job_le j j' \<Longrightarrow> j_ID j' = j_ID j \<and> j_TenantID j' = j_TenantID j"
  by (simp add: job_le_def)

lemma job_le_terminal: "job_le j j' \<Longrightarrow> Terminal (j_Status j) \<Longrightarrow> j_Status j' = j_Status j"
  by (simp add: job_le_def)

lemma later_same_row:
  assumes "db_step\<^sup>*\<^sup>* d d'" and "tables_ok d" and "j \<in> set (jw_jobs d)" and "j' \<in> set (jw_jobs d')" and "j_ID j' = j_ID j"
  shows "job_le j j'"
proof -
  obtain j2 where j2: "j2 \<in> set (jw_jobs d')" "job_le j j2" using assms(1,3) by (rule later_row)
  have "j2 = j'"
    using assms(5) job_le_id [OF j2(2)] by (intro unique_id [OF db_steps_tables_ok [OF assms(1,2)] j2(1) assms(4)]) simp
  then show ?thesis using j2(2) by simp
qed

text \<open>The row a successful create answers for.\<close>

definition stored :: "job_Request \<Rightarrow> string \<Rightarrow> uuid \<Rightarrow> 'x job_world \<Rightarrow> bool" where
  "stored req fp i d \<longleftrightarrow> (\<exists>j \<in> set (jw_jobs d). j_ID j = i \<and> j_TenantID j = q_TenantID req
     \<and> j_IdempotencyKey j = q_IdempotencyKey req \<and> meta (j_Metadata j) fingerprintKey = fp)"

lemma stored_later:
  assumes "stored req fp i d" and "db_step\<^sup>*\<^sup>* d d'"
  shows "stored req fp i d'"
proof -
  obtain j where j: "j \<in> set (jw_jobs d)" and "j_ID j = i" "j_TenantID j = q_TenantID req"
    "j_IdempotencyKey j = q_IdempotencyKey req" "meta (j_Metadata j) fingerprintKey = fp"
    using assms(1) by (auto simp: stored_def)
  moreover obtain j' where "j' \<in> set (jw_jobs d')" and "job_le j j'" using assms(2) j by (rule later_row)
  ultimately show ?thesis by (auto simp: stored_def job_le_def intro!: bexI [of _ j'])
qed

lemma same_body_ok:
  "same_body fp existing s = (Inr c, s') \<Longrightarrow> s' = s \<and> c = \<lparr>cr_Job = existing, cr_Existed = True\<rparr> \<and> meta (j_Metadata existing) fingerprintKey = fp"
  by (auto simp: same_body_def failE_def returnE_def split: if_splits)

context job_environment
begin

lemma key_lookup_stored:
  assumes "ByIdempotencyKey E (q_TenantID req) (q_IdempotencyKey req) s = (Inr existing, s1)"
    and "same_body fp existing s1 = (Inr c, s')"
  shows "stored req fp (j_ID (cr_Job c)) (svc_data s')"
proof -
  have "GetJobByIdempotencyKey (q_TenantID req) (q_IdempotencyKey req) (svc_data s1) = Inr existing"
    using assms(1) unfolding ByIdempotencyKey_def by (rule query_ok)
  from lookup_rows(3) [OF this] show ?thesis using same_body_ok [OF assms(2)] by (auto simp: stored_def)
qed

lemma Repo_Create_stored:
  assumes "Repo_Create E (new_job newID fp req) s = (Inr created, s1)"
  shows "j_ID created = newID \<and> stored req fp newID (svc_data s1)"
proof -
  obtain now d where "CreateJob (new_job newID fp req) now d = (Inr created, svc_data s1)"
    using jcall_ok [OF assms [unfolded Repo_Create_def]] by blast
  from created_row [OF this] show ?thesis by (auto simp: stored_def)
qed

lemma insert_job_stored:
  assumes "insert_job E fp (new_job newID fp req) s = (Inr c, s')"
  shows "stored req fp (j_ID (cr_Job c)) (svc_data s')"
proof (cases "Repo_Create E (new_job newID fp req) s")
  case (Pair r s1)
  show ?thesis
  proof (cases r)
    case (Inl err)
    obtain r2 s2 where look: "ByIdempotencyKey E (q_TenantID req) (q_IdempotencyKey req) s1 = (r2, s2)" by fastforce
    show ?thesis
      using assms key_lookup_stored [of req s1 _ s2 fp c s'] look
      by (cases r2) (simp_all add: insert_job_def catchE_def Pair Inl failE_def)
  next
    case (Inr created)
    have "db_later s1 (snd (Enqueue E newID s1))" using stores_keep(1) by (simp add: keeps_def)
    moreover have "j_ID created = newID \<and> stored req fp newID (svc_data s1)"
      using Repo_Create_stored Pair Inr by simp
    ultimately show ?thesis
      using assms by (auto simp: insert_job_def catchE_def Pair Inr bindE_def ignoreE_def returnE_def db_later_def intro: stored_later)
  qed
qed

text \<open>The validated request of a create that got past its guards.\<close>

lemma Service_Create_accepted:
  assumes "Service_Create sha256 fmt us guard E newID req maxJobChars s = (Inr c, s')"
  obtains v where "job_Validate maxJobChars req = Inr v" and "guard (q_WebhookURL v) = Inr ()"
    and "stored v (BodyFingerprint sha256 fmt v) (j_ID (cr_Job c)) (svc_data s')"
proof -
  obtain v where v: "job_Validate maxJobChars req = Inr v" and g: "guard (q_WebhookURL v) = Inr ()"
    using assms by (auto simp: Service_Create_def failE_def split: sum.splits)
  let ?fp = "BodyFingerprint sha256 fmt v"
  obtain r s1 where look: "ByIdempotencyKey E (q_TenantID v) (q_IdempotencyKey v) s = (r, s1)" by fastforce
  have "stored v ?fp (j_ID (cr_Job c)) (svc_data s')"
  proof (cases r)
    case (Inr existing)
    then show ?thesis using assms look key_lookup_stored by (simp add: Service_Create_def v g Let_def catchE_def)
  next
    case (Inl e)
    obtain r2 s2 where put: "PutText us E (q_TenantID v) newID (q_Text v) s1 = (r2, s2)" by fastforce
    show ?thesis
      using assms look put Inl
      by (cases r2) (auto simp: Service_Create_def v g Let_def catchE_def bindE_def failE_def
          intro: insert_job_stored split: if_splits)
  qed
  then show ?thesis using that v g by blast
qed

end

lemma stored_once:
  assumes "stored v fp i d" and "tables_ok d"
  shows "length (filter (\<lambda>j. j_TenantID j = q_TenantID v \<and> j_IdempotencyKey j = q_IdempotencyKey v) (jw_jobs d)) = 1"
proof -
  obtain j where j: "j \<in> set (jw_jobs d)" "j_TenantID j = q_TenantID v" "j_IdempotencyKey j = q_IdempotencyKey v"
    using assms(1) by (auto simp: stored_def)
  have "filter (\<lambda>x. (j_TenantID x, j_IdempotencyKey x) = (j_TenantID j, j_IdempotencyKey j)) (jw_jobs d) = [j]"
    using assms(2) j(1) by (intro filter_unique_key) (auto simp: tables_ok_def keys_ok_def)
  then show ?thesis using j by simp
qed

lemma second_create:
  assumes env: "job_environment E" and ok: "tables_ok (svc_data s)" and st: "stored v fp i (svc_data s)"
    and v': "job_Validate cap req' = Inr v'" "guard (q_WebhookURL v') = Inr ()"
    and same: "q_TenantID v' = q_TenantID v" "q_IdempotencyKey v' = q_IdempotencyKey v"
    and run: "Service_Create sha256 fmt us guard E newID req' cap s = (r, s')"
  shows "(r = Inl StorageFailed \<and> je_faults E (svc_calls s) \<noteq> Fine) \<or>
      (if BodyFingerprint sha256 fmt v' = fp then \<exists>j. r = Inr \<lparr>cr_Job = j, cr_Existed = True\<rparr> \<and> j_ID j = i
       else r = Inl ErrIdempotencyConflict)"
proof -
  let ?d = "je_others E (svc_calls s) (svc_data s)"
  have later: "db_step\<^sup>*\<^sup>* (svc_data s) ?d" using job_environment.others [OF env] .
  obtain j where j: "j \<in> set (jw_jobs ?d)" "j_ID j = i" "j_TenantID j = q_TenantID v" "j_IdempotencyKey j = q_IdempotencyKey v"
    "meta (j_Metadata j) fingerprintKey = fp" using stored_later [OF st later] by (auto simp: stored_def)
  have get: "GetJobByIdempotencyKey (q_TenantID v') (q_IdempotencyKey v') ?d = Inr j"
    using find_by_key [OF db_steps_tables_ok [OF later ok] j(1)] j same by simp
  obtain r1 s1 where look: "ByIdempotencyKey E (q_TenantID v') (q_IdempotencyKey v') s = (r1, s1)" by fastforce
  have "r1 = Inr j \<or> (r1 = Inl StorageFailed \<and> je_faults E (svc_calls s) \<noteq> Fine)"
    using look get by (cases "je_faults E (svc_calls s)") (simp_all add: ByIdempotencyKey_def query_def jcall_def call_def Let_def)
  then show ?thesis
    using run look j(2,5) by (auto simp: Service_Create_def v' Let_def catchE_def same_body_def failE_def returnE_def split: if_splits)
qed

lemma terminal_stays:
  assumes "db_step\<^sup>*\<^sup>* d d'" and "tables_ok d" and "j \<in> set (jw_jobs d)" and "Terminal (j_Status j)"
    and "j' \<in> set (jw_jobs d')" and "j_ID j' = j_ID j"
  shows "j_Status j' = j_Status j"
  using later_same_row [OF assms(1-3,5,6)] assms(4) by (rule job_le_terminal)

lemma CancelJob_terminal:
  assumes "j \<in> set (jw_jobs d)"
  shows "\<exists>j' \<in> set (jw_jobs (snd (CancelJob (j_ID j) (j_TenantID j) now d))). job_le j j' \<and> Terminal (j_Status j')
    \<and> (live_status (j_Status j) \<longrightarrow> j_Status j' = StatusCancelled)"
proof -
  let ?f = "\<lambda>j. j\<lparr>j_Status := StatusCancelled, j_CompletedAt := Some now, j_UpdatedAt := now\<rparr>"
  have "(if live_status (j_Status j) then ?f j else j) \<in> set (jw_jobs (snd (CancelJob (j_ID j) (j_TenantID j) now d)))"
    using assms unfolding CancelJob_def update_jobs_sel in_sql_update by force
  moreover have "job_le j (?f j)" if "live_status (j_Status j)"
    using that unfolding status_rank by (auto simp: job_le_def may_follow_def Terminal_rank)
  moreover have "Terminal (j_Status j)" if "\<not> live_status (j_Status j)"
    using that by (cases "j_Status j") (auto simp: live_status_def)
  ultimately show ?thesis by (cases "live_status (j_Status j)") (auto intro!: bexI)
qed

lemma take_rev_sort_newest:
  assumes "x \<in> set (drop n (rev (sort_key f xs)))" and "y \<in> set (take n (rev (sort_key f xs)))"
  shows "(f x :: 'b :: linorder) \<le> f y"
proof -
  let ?l = "rev (sort_key f xs)"
  have "sorted_wrt (\<lambda>a b. f b \<le> f a) (take n ?l @ drop n ?l)"
    using sorted_sort_key [of f xs] by (simp add: sorted_wrt_rev sorted_map)
  then show ?thesis using assms unfolding sorted_wrt_append by blast
qed

section \<open>An example\<close>

definition example_params :: Params where
  "example_params = (let zero = \<lparr>signbit = False, magnitude = 0\<rparr>
     in \<lparr>CFGScale = zero, AudioTemperature = zero, AudioTopK = 0, AudioTopP = zero, AudioRepetitionPenalty = zero,
         EOAExtraFrames = 0, SampleRate = 0\<rparr>)"

definition example_request :: job_Request where
  "example_request = \<lparr>q_TenantID = 7, q_KeyID = 1, q_IdempotencyKey = ''k'', q_Text = ''xin'', q_VoiceID = ''v'', q_Format = [],
     q_SampleRate = 0, q_Normalize = True, q_Params = example_params, q_WebhookURL = [], q_Metadata = []\<rparr>"

definition no_jobs :: "'x \<Rightarrow> 'x job_world svc" where
  "no_jobs x = \<lparr>svc_data = \<lparr>jw_jobs = [], jw_segs = [], jw_pending = [], jw_segq = [], jw_objects = (\<lambda>_. None),
     jw_notified = [], jw_engine = x\<rparr>, svc_calls = 0\<rparr>"

definition example_env :: "unit jenv" where
  "example_env = quiet (\<lambda>_. Fine) int"

abbreviation example_create :: "job_Request \<Rightarrow> uuid \<Rightarrow> (unit job_world svc, job_error, Created) op" where
  "example_create r i \<equiv> Service_Create (\<lambda>x. [of_nat (length x)]) (\<lambda>_. ''p'') (\<lambda>n. Itoa (int n)) (\<lambda>_. Inr ()) example_env i r 0"

lemma example_env_ok: "job_environment example_env"
  unfolding example_env_def by (rule quiet.job_environment_axioms)

lemma example_valid: "job_Validate 0 example_request = Inr (example_request\<lparr>q_Format := ''mp3'', q_SampleRate := 48000\<rparr>)"
  by code_simp

lemma example_create_ok: "\<exists>c s1. example_create example_request 5 (no_jobs ()) = (Inr c, s1)"
  by (simp add: Service_Create_def example_valid insert_job_def job_repository job_statements job_run quiet_def example_env_def no_jobs_def)

lemma tables_ok_no_jobs: "tables_ok (svc_data (no_jobs x))"
  by (simp add: tables_ok_def keys_ok_def no_jobs_def)

definition example_job :: "uuid \<Rightarrow> uuid \<Rightarrow> Job" where
  "example_job i t = \<lparr>j_ID = i, j_TenantID = t, j_KeyID = 1, j_IdempotencyKey = ''k'', j_Status = StatusQueued, j_VoiceID = ''v'',
     j_Format = ''mp3'', j_SampleRate = 48000, j_Normalize = True, j_Params = example_params, j_TotalChars = 3, j_SegmentsTotal = None,
     j_SegmentsDone = 0, j_OutputS3Key = [], j_DurationMS = None, j_WebhookURL = [], j_Metadata = [], j_Error = [], j_CreatedAt = int i,
     j_UpdatedAt = 0, j_CompletedAt = None\<rparr>"

definition example_jobs :: "unit job_world svc" where
  "example_jobs = (no_jobs ())\<lparr>svc_data := (svc_data (no_jobs ()))\<lparr>jw_jobs := [example_job 5 7, example_job 6 8]\<rparr>\<rparr>"

lemma tables_ok_example: "tables_ok (svc_data example_jobs)"
  by (simp add: tables_ok_def keys_ok_def row_ok_def done_count_def example_jobs_def example_job_def no_jobs_def)

section \<open>Properties\<close>

text \<open>
  C5: creating a job is idempotent (US-13). After a create has succeeded, whatever anyone did to
  the tables since, a second create of the same tenant with the same key, if the database
  answers it, returns the first job when the body is the same and refuses with a conflict when
  it is not; it never makes a second row.
\<close>

theorem create_job_idempotent:
  assumes "job_environment E" and "job_environment E'" and "tables_ok (svc_data s)"
    and "Service_Create sha256 fmt us guard E newID req cap s = (Inr c, s1)"
    and "db_step\<^sup>*\<^sup>* (svc_data s1) (svc_data s2)"
    and "Service_Create sha256 fmt us guard E' newID' req' cap' s2 = (r, s3)"
    and "job_Validate cap req = Inr v" and "job_Validate cap' req' = Inr v'" and "guard (q_WebhookURL v') = Inr ()"
    and "q_TenantID v' = q_TenantID v" and "q_IdempotencyKey v' = q_IdempotencyKey v"
  shows "((r = Inl StorageFailed \<and> je_faults E' (svc_calls s2) \<noteq> Fine) \<or>
      (if BodyFingerprint sha256 fmt v' = BodyFingerprint sha256 fmt v
       then \<exists>j. r = Inr \<lparr>cr_Job = j, cr_Existed = True\<rparr> \<and> j_ID j = j_ID (cr_Job c)
       else r = Inl ErrIdempotencyConflict))
    \<and> length (filter (\<lambda>j. j_TenantID j = q_TenantID v \<and> j_IdempotencyKey j = q_IdempotencyKey v) (jw_jobs (svc_data s3))) = 1"
proof -
  have "db_later s s1" using job_environment.Service_Create_keeps [OF assms(1)] assms(4) by (rule keepsD)
  then have ok2: "tables_ok (svc_data s2)"
    using assms(3,5) by (auto simp: db_later_def intro: db_steps_tables_ok)
  have st: "stored v (BodyFingerprint sha256 fmt v) (j_ID (cr_Job c)) (svc_data s2)"
    using job_environment.Service_Create_accepted [OF assms(1,4)] assms(5,7) by (auto intro: stored_later)
  have later3: "db_step\<^sup>*\<^sup>* (svc_data s2) (svc_data s3)"
    using keepsD [OF job_environment.Service_Create_keeps [OF assms(2)] assms(6)] by (simp add: db_later_def)
  show ?thesis
    using second_create [OF assms(2) ok2 st assms(8-11) assms(6)] stored_once [OF stored_later [OF st later3] db_steps_tables_ok [OF later3 ok2]]
    by blast
qed

theorem create_job_idempotent_witness:
  "\<exists>c s1 j s3. example_create example_request 5 (no_jobs ()) = (Inr c, s1)
     \<and> example_create example_request 6 s1 = (Inr \<lparr>cr_Job = j, cr_Existed = True\<rparr>, s3) \<and> j_ID j = j_ID (cr_Job c)"
proof -
  obtain c s1 where 1: "example_create example_request 5 (no_jobs ()) = (Inr c, s1)" using example_create_ok by blast
  obtain r s3 where 2: "example_create example_request 6 s1 = (r, s3)" by fastforce
  show ?thesis
    using create_job_idempotent [OF example_env_ok example_env_ok tables_ok_no_jobs 1 rtranclp.rtrancl_refl 2 example_valid example_valid]
      1 2 by (auto simp: example_env_def quiet_def)
qed

text \<open>
  C7: a cancellation answers for its own job and is final (US-14). When the owner's cancel
  succeeds the job it returns is the owner's, in a terminal state, and cancelled if nobody
  finished it first; no later statement by anyone changes that state again.
\<close>

theorem cancel_job_final:
  assumes "job_environment E" and "tables_ok (svc_data s)" and "j0 \<in> set (jw_jobs (svc_data s))"
    and "Service_Cancel E (j_TenantID j0) (j_ID j0) s = (Inr j, s1)"
    and "db_step\<^sup>*\<^sup>* (svc_data s1) d2" and "j2 \<in> set (jw_jobs d2)" and "j_ID j2 = j_ID j0"
  shows "j_ID j = j_ID j0 \<and> j_TenantID j = j_TenantID j0 \<and> Terminal (j_Status j) \<and> j_Status j2 = j_Status j
    \<and> (j_Status j \<noteq> StatusCancelled \<longrightarrow> j_CompletedAt j2 = j_CompletedAt j)"
proof -
  obtain b sa where canc: "Repo_Cancel E (j_TenantID j0) (j_ID j0) s = (Inr b, sa)" and get: "Repo_Get E (j_TenantID j0) (j_ID j0) sa = (Inr j, s1)"
    using assms(4) by (auto simp: Service_Cancel_def bindE_def split: prod.splits sum.splits)
  obtain now da where da: "db_step\<^sup>*\<^sup>* (svc_data s) da" and sa: "svc_data sa = snd (CancelJob (j_ID j0) (j_TenantID j0) now da)"
    using job_environment.exec_rows_ok [OF assms(1) canc [unfolded Repo_Cancel_def]] by blast
  obtain ja where ja: "ja \<in> set (jw_jobs da)" "job_le j0 ja" using da assms(3) by (rule later_row)
  obtain jb where jb: "jb \<in> set (jw_jobs (svc_data sa))" "job_le ja jb" "Terminal (j_Status jb)"
    using CancelJob_terminal [OF ja(1), of now] job_le_id [OF ja(2)] by (auto simp: sa)
  have get1: "db_step\<^sup>*\<^sup>* (svc_data sa) (svc_data s1)" "GetJob (j_ID j0) (j_TenantID j0) (svc_data s1) = Inr j"
    using job_environment.query_ok [OF assms(1) get [unfolded Repo_Get_def]] by simp_all
  have row: "j \<in> set (jw_jobs (svc_data s1))" "j_ID j = j_ID j0" "j_TenantID j = j_TenantID j0"
    using lookup_rows(1) [OF get1(2)] by simp_all
  have oka: "tables_ok (svc_data sa)" unfolding sa
    by (rule db_step_tables_ok [OF db_cancel db_steps_tables_ok [OF da assms(2)]])
  have ended: "j_Status j = j_Status jb"
    using terminal_stays [OF get1(1) oka jb(1,3) row(1)] row(2) job_le_id [OF ja(2)] job_le_id [OF jb(2)] by simp
  have ok1: "tables_ok (svc_data s1)" by (rule db_steps_tables_ok [OF get1(1) oka])
  have "job_le j j2" using later_same_row [OF assms(5) ok1 row(1) assms(6)] assms(7) row(2) by simp
  then show ?thesis using row ended jb(3) by (simp add: job_le_def)
qed

theorem cancel_job_final_witness:
  "\<exists>j s1. Service_Cancel example_env 7 5 example_jobs = (Inr j, s1) \<and> j_ID j = 5 \<and> j_TenantID j = 7 \<and> Terminal (j_Status j)"
proof -
  have j0: "example_job 5 7 \<in> set (jw_jobs (svc_data example_jobs))" "j_ID (example_job 5 7) = 5" "j_TenantID (example_job 5 7) = 7"
    by (simp_all add: example_jobs_def example_job_def)
  have "\<exists>j s1. Service_Cancel example_env 7 5 example_jobs = (Inr j, s1) \<and> j \<in> set (jw_jobs (svc_data s1)) \<and> j_ID j = 5"
    by (simp add: Service_Cancel_def job_repository job_statements job_run example_jobs_def example_job_def no_jobs_def
        example_env_def quiet_def live_status_def)
  then obtain j s1 where 1: "Service_Cancel example_env 7 5 example_jobs = (Inr j, s1)" "j \<in> set (jw_jobs (svc_data s1))" "j_ID j = 5"
    by blast
  show ?thesis
    using cancel_job_final [OF example_env_ok tables_ok_example j0(1) _ rtranclp.rtrancl_refl 1(2)] 1 j0 by auto
qed

text \<open>
  C8: a tenant sees its own jobs and nothing of anyone else's, newest first. A page holds only rows
  of the tenant older than the cursor, as many as the clamped limit (1 to 200) allows, and no
  matching row left out is newer than one on the page; a get or a cancel of a job that is not the
  tenant's answers \<open>ErrNotFound\<close> and changes nothing.
\<close>

theorem tenants_see_only_their_jobs:
  assumes "Service_List (quiet F clk) t before n s = (Inr js, s1)"
    and "\<forall>j \<in> set (jw_jobs (svc_data s)). j_ID j = i \<longrightarrow> j_TenantID j \<noteq> t"
    and "F (svc_calls s) = Fine" and "F (Suc (svc_calls s)) = Fine"
  shows "(let mine = filter (\<lambda>j. j_TenantID j = t \<and> (case before of None \<Rightarrow> True | Some b \<Rightarrow> j_CreatedAt j < b)) (jw_jobs (svc_data s))
      in set js \<subseteq> set mine \<and> length js = min (nat (if n \<le> 0 then 50 else min n 200)) (length mine)
       \<and> (\<forall>x \<in># mset mine - mset js. \<forall>y \<in> set js. j_CreatedAt x \<le> j_CreatedAt y))
    \<and> fst (Service_Get (quiet F clk) t i s) = Inl ErrNotFound
    \<and> fst (Service_Cancel (quiet F clk) t i s) = Inl ErrNotFound
    \<and> svc_data (snd (Service_Cancel (quiet F clk) t i s)) = svc_data s"
proof -
  let ?mine = "filter (\<lambda>j. j_TenantID j = t \<and> (case before of None \<Rightarrow> True | Some b \<Rightarrow> j_CreatedAt j < b)) (jw_jobs (svc_data s))"
  let ?lim = "nat (if n \<le> 0 then 50 else min n 200)"
  have js: "js = take ?lim (rev (sort_key j_CreatedAt ?mine))"
    using assms(1,3) by (auto simp: Service_List_def Repo_List_def job_run quiet_def ListJobs_def DefaultListLimit_def MaxListLimit_def
        min_def split: if_splits)
  have "mset ?mine = mset js + mset (drop ?lim (rev (sort_key j_CreatedAt ?mine)))"
    unfolding js mset_append [symmetric] append_take_drop_id by simp
  then have rest: "mset ?mine - mset js = mset (drop ?lim (rev (sort_key j_CreatedAt ?mine)))" by simp
  have page: "set js \<subseteq> set ?mine \<and> length js = min ?lim (length ?mine)
      \<and> (\<forall>x \<in># mset ?mine - mset js. \<forall>y \<in> set js. j_CreatedAt x \<le> j_CreatedAt y)"
    unfolding rest using take_rev_sort_newest [of _ ?lim j_CreatedAt ?mine] set_take_subset [of ?lim "rev (sort_key j_CreatedAt ?mine)"]
    by (auto simp: js min.commute)
  have none: "find (\<lambda>j. j_ID j = i \<and> j_TenantID j = t) (jw_jobs (svc_data s)) = None"
    using assms(2) by (auto simp: find_None_iff)
  have "sql_update (\<lambda>j. j_ID j = i \<and> j_TenantID j = t \<and> live_status (j_Status j)) g (jw_jobs (svc_data s)) = jw_jobs (svc_data s)" for g
    by (rule sql_update_no_match) (use assms(2) in blast)
  then have same: "snd (CancelJob i t now (svc_data s)) = svc_data s" for now by (simp add: CancelJob_def update_jobs_def)
  show ?thesis
    using page none same assms(3,4)
    by (simp add: Service_Get_def Service_Cancel_def Repo_Get_def Repo_Cancel_def job_run quiet_def GetJob_def case_prod_beta Let_def)
qed

theorem tenants_see_only_their_jobs_witness:
  "\<exists>js s1. Service_List example_env 7 None 0 example_jobs = (Inr js, s1) \<and> length js = 1
     \<and> fst (Service_Get example_env 7 6 example_jobs) = Inl ErrNotFound
     \<and> svc_data (snd (Service_Cancel example_env 7 6 example_jobs)) = svc_data example_jobs"
proof -
  obtain js s1 where 1: "Service_List example_env 7 None 0 example_jobs = (Inr js, s1)"
    by (simp add: Service_List_def job_repository job_run example_env_def quiet_def)
  show ?thesis
    using tenants_see_only_their_jobs [of "\<lambda>_. Fine" int 7 None 0 example_jobs js s1 6] 1
    by (simp add: example_env_def example_jobs_def example_job_def no_jobs_def Let_def)
qed

end
