(* ===== verification/Orchestrator.thy ===== *)
theory Orchestrator
  imports Job_Service
begin

text \<open>
  The job orchestrator (\<^verbatim>\<open>internal/jobs/orchestrator.go\<close>): segmentation and fan-out, segments with
  retries, the merge, the clean-up and the reconciler. The entries a stream hands out are inputs of
  the handlers, so redelivery, duplication and reordering are all covered. The engine is the
  interface \<open>engine\<close>, with the one promise the orchestrator needs of it as the locale
  \<open>job_engine\<close>; theory \<open>Engine\<close> provides it.
\<close>

section \<open>State machine\<close>

definition MaxSegmentAttempts :: int where "MaxSegmentAttempts = 3"
definition ReconcileInterval :: int where "ReconcileInterval = 60 * 10 ^ 9"
definition StuckAfter :: int where "StuckAfter = 120 * 10 ^ 9"
definition SegmentBackoff :: "int list" where "SegmentBackoff = [5 * 10 ^ 9, 30 * 10 ^ 9, 120 * 10 ^ 9]"
definition modelVersionKey :: string where "modelVersionKey = ''_model_version''"

record QueueEntry =
  qe_ID :: string
  qe_JobID :: uuid
  qe_Seq :: int
  qe_Stream :: string

record SegmentResult =
  sr_S3Key :: string
  sr_DurationMS :: int
  sr_Cached :: bool

record 'x engine =
  eng_Split :: "Job \<Rightarrow> string \<Rightarrow> ('x job_world svc, job_error, string list) op"
  eng_Synthesize :: "Job \<Rightarrow> int \<Rightarrow> string \<Rightarrow> ('x job_world svc, job_error, SegmentResult) op"
  eng_Merge :: "Job \<Rightarrow> string list \<Rightarrow> ('x job_world svc, job_error, string \<times> int) op"

text \<open>
  \<open>o_err\<close> is the text of an error, \<open>o_us\<close> the text of an identifier and \<open>o_sha\<close> SHA-256;
  \<open>o_sleep\<close> says whether a wait at that call is left undisturbed by a shutdown.
\<close>

record 'x orchestrator =
  o_E :: "'x jenv"
  o_engine :: "'x engine"
  o_notifier :: bool
  o_err :: "job_error \<Rightarrow> string"
  o_us :: "uuid \<Rightarrow> string"
  o_sha :: "string \<Rightarrow> byte list"
  o_sleep :: "nat \<Rightarrow> bool"

definition segmentHash :: "(string \<Rightarrow> byte list) \<Rightarrow> Job \<Rightarrow> string \<Rightarrow> byte list" where
  "segmentHash sha job text = Derive sha \<lparr>ModelVersion = meta (j_Metadata job) modelVersionKey, VoiceID = j_VoiceID job,
     Normalize = j_Normalize job, in_Params = j_Params job, in_Text = text\<rparr>"

definition findSegment :: "Segment list \<Rightarrow> int \<Rightarrow> Segment option" where
  "findSegment segments seq = find (\<lambda>s. s_Seq s = seq) segments"

definition sleepE :: "'x orchestrator \<Rightarrow> ('x job_world svc, unit, unit) op" where
  "sleepE orc s = (if o_sleep orc (svc_calls s) then Inr () else Inl (), s)"

definition cleanUp :: "'x orchestrator \<Rightarrow> Job \<Rightarrow> ('x job_world svc, job_error, unit) op" where
  "cleanUp orc job = ignoreE (DeleteText (o_us orc) (o_E orc) (j_TenantID job) (j_ID job))"

definition JobFinished :: "Job \<Rightarrow> ('x job_world svc, job_error, unit) op" where
  "JobFinished job s = (Inr (), s\<lparr>svc_data := (svc_data s)\<lparr>jw_notified := jw_notified (svc_data s) @ [job]\<rparr>\<rparr>)"

definition notify :: "'x orchestrator \<Rightarrow> uuid \<Rightarrow> ('x job_world svc, job_error, unit) op" where
  "notify orc i = (if \<not> o_notifier orc then returnE () else catchE (ByID (o_E orc) i) (\<lambda>_. returnE ()) JobFinished)"

definition failJob :: "'x orchestrator \<Rightarrow> Job \<Rightarrow> string \<Rightarrow> ('x job_world svc, job_error, unit) op" where
  "failJob orc job reason =
    bindE (Repo_Fail (o_E orc) (j_ID job) reason) (\<lambda>_. bindE (cleanUp orc job) (\<lambda>_. notify orc (j_ID job)))"

definition finish :: "'x orchestrator \<Rightarrow> Job \<Rightarrow> ('x job_world svc, job_error, unit) op" where
  "finish orc job =
    (if Terminal (j_Status job) then returnE ()
     else bindE (Transition (o_E orc) (j_ID job) StatusSynthesizing StatusMerging) (\<lambda>moved.
       if \<not> moved \<and> j_Status job \<noteq> StatusMerging then returnE ()
       else bindE (Segments (o_E orc) (j_ID job)) (\<lambda>segments.
         case find (\<lambda>s. s_Status s \<noteq> SegmentDone \<or> s_S3Key s = []) segments of
           Some s \<Rightarrow> failJob orc job (''segment '' @ Itoa (s_Seq s) @ '' is not ready to merge'')
         | None \<Rightarrow>
             catchE (eng_Merge (o_engine orc) job (map s_S3Key segments))
               (\<lambda>e. failJob orc job (''merge failed: '' @ o_err orc e))
               (\<lambda>(outputKey, durationMS).
                  bindE (Repo_Complete (o_E orc) (j_ID job) outputKey durationMS)
                    (\<lambda>_. bindE (cleanUp orc job) (\<lambda>_. notify orc (j_ID job)))))))"

fun enqueue_unfinished :: "'x orchestrator \<Rightarrow> uuid \<Rightarrow> Segment list \<Rightarrow> nat \<Rightarrow> ('x job_world svc, job_error, nat) op" where
  "enqueue_unfinished orc i [] queued = returnE queued"
| "enqueue_unfinished orc i (s # segments) queued =
    (if s_Status s = SegmentDone then enqueue_unfinished orc i segments queued
     else bindE (EnqueueSegment (o_E orc) i (s_Seq s)) (\<lambda>_. enqueue_unfinished orc i segments (Suc queued)))"

definition fanOut :: "'x orchestrator \<Rightarrow> Job \<Rightarrow> ('x job_world svc, job_error, unit) op" where
  "fanOut orc job =
    bindE (Segments (o_E orc) (j_ID job)) (\<lambda>segments.
      bindE (enqueue_unfinished orc (j_ID job) segments 0) (\<lambda>queued.
        if queued = 0 then finish orc job else returnE ()))"

fun create_segments :: "'x orchestrator \<Rightarrow> Job \<Rightarrow> int \<Rightarrow> string list \<Rightarrow> ('x job_world svc, job_error, unit) op" where
  "create_segments orc job seq [] = returnE ()"
| "create_segments orc job seq (text # rest) =
    bindE (CreateSegment (o_E orc) (j_ID job) seq (segmentHash (o_sha orc) job text) (runeCount text))
      (\<lambda>_. create_segments orc job (seq + 1) rest)"

text \<open>The part of \<^verbatim>\<open>handleJob\<close> after the job is in \<open>segmenting\<close>.\<close>

definition segment_job :: "'x orchestrator \<Rightarrow> Job \<Rightarrow> ('x job_world svc, job_error, unit) op" where
  "segment_job orc job =
    catchE (GetText (o_us orc) (o_E orc) (j_TenantID job) (j_ID job))
      (\<lambda>e. failJob orc job (''input text unavailable: '' @ o_err orc e))
      (\<lambda>text. catchE (eng_Split (o_engine orc) job text)
        (\<lambda>e. failJob orc job (''segmentation failed: '' @ o_err orc e))
        (\<lambda>segments.
          if segments = [] then failJob orc job ''segmentation produced nothing''
          else if job_MaxTextChars < int (length segments)
          then failJob orc job (''segmentation produced '' @ Itoa (int (length segments)) @ '' segments'')
          else bindE (create_segments orc job 0 segments) (\<lambda>_.
               bindE (SetSegmentsTotal (o_E orc) (j_ID job) (int (length segments))) (\<lambda>_.
               bindE (ByID (o_E orc) (j_ID job)) (\<lambda>refreshed. fanOut orc refreshed)))))"

definition handleJob :: "'x orchestrator \<Rightarrow> QueueEntry \<Rightarrow> ('x job_world svc, job_error, unit) op" where
  "handleJob orc entry =
    catchE (ByID (o_E orc) (qe_JobID entry)) (\<lambda>e. if e = ErrNotFound then returnE () else failE e)
      (\<lambda>job. if Terminal (j_Status job) then returnE ()
        else if j_Status job = StatusSynthesizing \<or> j_Status job = StatusMerging then fanOut orc job
        else if j_Status job \<noteq> StatusSegmenting
        then bindE (Transition (o_E orc) (j_ID job) StatusQueued StatusSegmenting)
               (\<lambda>moved. if \<not> moved then returnE () else segment_job orc job)
        else segment_job orc job)"

text \<open>The index into the backoffs panics when it is negative.\<close>

definition retryOrFail :: "'x orchestrator \<Rightarrow> Job \<Rightarrow> Segment \<Rightarrow> string \<Rightarrow> ('x job_world svc, job_error, unit) op" where
  "retryOrFail orc job segment reason =
    bindE (FailSegment (o_E orc) (j_ID job) (s_Seq segment) reason) (\<lambda>_.
      if MaxSegmentAttempts \<le> s_Attempts segment
      then failJob orc job (''segment '' @ Itoa (s_Seq segment) @ '' failed after '' @ Itoa (s_Attempts segment) @ '' attempts: '' @ reason)
      else if min (s_Attempts segment - 1) (int (length SegmentBackoff) - 1) < 0 then failE Panic
      else catchE (sleepE orc) (\<lambda>_. returnE ()) (\<lambda>_. EnqueueSegment (o_E orc) (j_ID job) (s_Seq segment)))"

text \<open>The work on a segment once it is claimed and found.\<close>

definition run_segment :: "'x orchestrator \<Rightarrow> Job \<Rightarrow> int \<Rightarrow> Segment \<Rightarrow> ('x job_world svc, job_error, unit) op" where
  "run_segment orc job seq current =
    catchE (GetText (o_us orc) (o_E orc) (j_TenantID job) (j_ID job))
      (\<lambda>e. retryOrFail orc job current (''input text unavailable: '' @ o_err orc e))
      (\<lambda>text. catchE (eng_Split (o_engine orc) job text)
        (\<lambda>_. retryOrFail orc job current ''segment text could not be recovered'')
        (\<lambda>pieces. if int (length pieces) \<le> seq then retryOrFail orc job current ''segment text could not be recovered''
          else if seq < 0 then failE Panic
          else catchE (eng_Synthesize (o_engine orc) job seq (pieces ! nat seq))
            (\<lambda>e. retryOrFail orc job current (o_err orc e))
            (\<lambda>result.
              bindE (CompleteSegment (o_E orc) (j_ID job) seq (sr_S3Key result)) (\<lambda>_.
              bindE (UnfinishedSegments (o_E orc) (j_ID job)) (\<lambda>remaining.
                if 0 < remaining then returnE ()
                else bindE (ByID (o_E orc) (j_ID job)) (\<lambda>refreshed. finish orc refreshed))))))"

definition handleSegment :: "'x orchestrator \<Rightarrow> QueueEntry \<Rightarrow> ('x job_world svc, job_error, unit) op" where
  "handleSegment orc entry =
    catchE (ByID (o_E orc) (qe_JobID entry)) (\<lambda>e. if e = ErrNotFound then returnE () else failE e)
      (\<lambda>job. if Terminal (j_Status job) then returnE ()
        else bindE (ClaimSegment (o_E orc) (j_ID job) (qe_Seq entry)) (\<lambda>claimed.
          if \<not> claimed then returnE ()
          else bindE (Segments (o_E orc) (j_ID job)) (\<lambda>segments.
            case findSegment segments (qe_Seq entry) of
              None \<Rightarrow> failE SegmentMissing
            | Some current \<Rightarrow> run_segment orc job (qe_Seq entry) current)))"

section \<open>Consumers and the reconciler\<close>

definition Ack :: "'x jenv \<Rightarrow> string \<Rightarrow> ('x job_world svc, job_error, unit) op" where
  "Ack E i = jcall E (\<lambda>_ d. (Inr (), d))"

fun handle_entries :: "'x orchestrator \<Rightarrow> (QueueEntry \<Rightarrow> ('x job_world svc, job_error, unit) op) \<Rightarrow> QueueEntry list
    \<Rightarrow> ('x job_world svc, job_error, unit) op" where
  "handle_entries orc handle [] = returnE ()"
| "handle_entries orc handle (entry # entries) =
    bindE (ignoreE (handle entry)) (\<lambda>_. bindE (ignoreE (Ack (o_E orc) (qe_ID entry))) (\<lambda>_. handle_entries orc handle entries))"

text \<open>
  \<open>claims\<close> are the results of the consumer's reads until its context is cancelled; a failed read
  waits a second, and a wait disturbed by the shutdown ends the loop.
\<close>

fun consume :: "'x orchestrator \<Rightarrow> (QueueEntry \<Rightarrow> ('x job_world svc, job_error, unit) op)
    \<Rightarrow> (job_error + QueueEntry list) list \<Rightarrow> ('x job_world svc, job_error, unit) op" where
  "consume orc handle [] = returnE ()"
| "consume orc handle (Inl e # claims) = catchE (sleepE orc) (\<lambda>_. returnE ()) (\<lambda>_. consume orc handle claims)"
| "consume orc handle (Inr entries # claims) = bindE (handle_entries orc handle entries) (\<lambda>_. consume orc handle claims)"

fun requeue :: "'x orchestrator \<Rightarrow> Job list \<Rightarrow> ('x job_world svc, job_error, unit) op" where
  "requeue orc [] = returnE ()"
| "requeue orc (job # stuck) = bindE (Enqueue (o_E orc) (j_ID job)) (\<lambda>_. requeue orc stuck)"

definition ReconcileOnce :: "'x orchestrator \<Rightarrow> int \<Rightarrow> job_error + QueueEntry list \<Rightarrow> job_error + QueueEntry list
    \<Rightarrow> ('x job_world svc, job_error, unit) op" where
  "ReconcileOnce orc now stale_jobs stale_segments =
    bindE (Stuck (o_E orc) (now - StuckAfter) 100) (\<lambda>stuck.
      bindE (requeue orc stuck) (\<lambda>_.
        case stale_jobs of Inl e \<Rightarrow> failE e
        | Inr entries \<Rightarrow> bindE (handle_entries orc (handleJob orc) entries) (\<lambda>_.
            case stale_segments of Inl e \<Rightarrow> failE e
            | Inr entries' \<Rightarrow> handle_entries orc (handleSegment orc) entries')))"

section \<open>Every handler only runs statements\<close>

locale orchestration = job_environment "o_E orc" for orc :: "'x orchestrator" +
  assumes engine_keeps: "keeps db_later (eng_Split (o_engine orc) job text)"
    "keeps db_later (eng_Synthesize (o_engine orc) job seq text)"
    "keeps db_later (eng_Merge (o_engine orc) job keys)"
begin

lemma sleepE_keeps [keeps_intros]: "keeps db_later (sleepE orc)"
  by (simp add: keeps_def sleepE_def db_later_def)

lemma JobFinished_keeps [keeps_intros]: "keeps db_later (JobFinished job)"
  by (auto simp: keeps_def JobFinished_def db_later_def)

lemma ending_keeps [keeps_intros]: "keeps db_later (cleanUp orc job)" "keeps db_later (notify orc i)"
  unfolding cleanUp_def notify_def by (intro keeps_intros)+

lemma failJob_keeps [keeps_intros]: "keeps db_later (failJob orc job reason)"
  unfolding failJob_def by (intro keeps_intros)

lemma finish_keeps [keeps_intros]: "keeps db_later (finish orc job)"
  unfolding finish_def by (intro keeps_intros engine_keeps)

lemma enqueue_unfinished_keeps [keeps_intros]: "keeps db_later (enqueue_unfinished orc i segments queued)"
  by (induction segments arbitrary: queued) (simp, intro keeps_intros, simp, intro conjI impI keeps_intros)

lemma create_segments_keeps [keeps_intros]: "keeps db_later (create_segments orc job seq texts)"
  by (induction texts arbitrary: seq) (simp_all, (intro keeps_intros; assumption?)+)

lemma fanOut_keeps [keeps_intros]: "keeps db_later (fanOut orc job)"
  unfolding fanOut_def by (intro keeps_intros)

lemma segment_job_keeps [keeps_intros]: "keeps db_later (segment_job orc job)"
  unfolding segment_job_def by (intro keeps_intros engine_keeps)

lemma handleJob_keeps [keeps_intros]: "keeps db_later (handleJob orc entry)"
  unfolding handleJob_def by (intro keeps_intros)

lemma retryOrFail_keeps [keeps_intros]: "keeps db_later (retryOrFail orc job segment reason)"
  unfolding retryOrFail_def by (intro keeps_intros)

lemma run_segment_keeps [keeps_intros]: "keeps db_later (run_segment orc job seq current)"
  unfolding run_segment_def by (intro keeps_intros engine_keeps)

lemma handleSegment_keeps [keeps_intros]: "keeps db_later (handleSegment orc entry)"
  unfolding handleSegment_def by (intro keeps_intros)

lemma Ack_keeps [keeps_intros]: "keeps db_later (Ack (o_E orc) i)"
  unfolding Ack_def by (intro jcall_keeps) auto

lemma handle_entries_keeps:
  "(\<And>entry. keeps db_later (handle entry)) \<Longrightarrow> keeps db_later (handle_entries orc handle entries)"
  by (induction entries) (simp_all add: keeps_intros)

lemma consume_keeps:
  "(\<And>entry. keeps db_later (handle entry)) \<Longrightarrow> keeps db_later (consume orc handle claims)"
proof (induction claims)
  case (Cons claim claims)
  then show ?case by (cases claim) (simp_all add: keeps_intros handle_entries_keeps)
qed (simp add: keeps_intros)

lemma requeue_keeps [keeps_intros]: "keeps db_later (requeue orc stuck)"
  by (induction stuck) (simp_all add: keeps_intros)

lemma ReconcileOnce_keeps: "keeps db_later (ReconcileOnce orc now stale_jobs stale_segments)"
  unfolding ReconcileOnce_def by (intro keeps_intros handle_entries_keeps)

end

end
