(* ===== verification/Engine.thy ===== *)
theory Engine
  imports Orchestrator Dispatch Audio
begin

text \<open>
  The worker engine of jobs (\<^verbatim>\<open>internal/jobs/engine.go\<close>): segmentation, synthesis through the audio
  cache and the merge, each holding a batch reservation of the dispatcher while it talks to a
  worker. The worker's RPCs are parameters: their answers, indexed by the number of the engine
  step. The dispatcher and the cache are the models of theories \<open>Dispatch\<close> and \<open>Cache\<close>.
\<close>

section \<open>Ports\<close>

record 'w engine_state =
  es_disp :: Dispatcher
  es_cache :: 'w
  es_step :: nat

record SynthesizeRequest =
  sq_RequestId :: string
  sq_Text :: string
  sq_VoiceId :: string
  sq_Normalize :: bool
  sq_OutputSampleRate :: int

record MergeRequest =
  mq_S3Keys :: "string list"
  mq_OutputS3Key :: string
  mq_Format :: string
  mq_SampleRate :: int

text \<open>What one \<^verbatim>\<open>Recv\<close> of the audio stream returns: a frame with its last flag, the end, or a failure.\<close>

datatype recv = Frame "byte list" bool | EOF | RecvFailed

record 'w worker_engine =
  we_now :: "nat \<Rightarrow> int"
  we_turns :: "nat \<Rightarrow> turn list"
  we_Segment :: "nat \<Rightarrow> Client \<Rightarrow> string \<Rightarrow> bool \<Rightarrow> job_error + string list"
  we_Synthesize :: "nat \<Rightarrow> Client \<Rightarrow> SynthesizeRequest \<Rightarrow> job_error + recv list"
  we_Merge :: "nat \<Rightarrow> Client \<Rightarrow> MergeRequest \<Rightarrow> job_error + string \<times> int"
  we_cache :: "'w Manager"
  we_us :: "uuid \<Rightarrow> string"
  we_sha :: "string \<Rightarrow> byte list"
  we_E :: "'w engine_state jenv"

type_synonym 'w eworld = "'w engine_state job_world svc"

definition on_engine :: "('w engine_state \<Rightarrow> ('e + 'a) \<times> 'w engine_state) \<Rightarrow> ('w eworld, 'e, 'a) op" where
  "on_engine m s =
    (let (r, x) = m (jw_engine (svc_data s)) in (r, s\<lparr>svc_data := (svc_data s)\<lparr>jw_engine := x\<rparr>\<rparr>))"

definition tick :: "'w engine_state \<Rightarrow> 'w engine_state" where
  "tick x = x\<lparr>es_step := Suc (es_step x)\<rparr>"

text \<open>
  A batch reservation held around \<open>k\<close>, released on every way out (\<^verbatim>\<open>defer reservation.Release()\<close>).
  A list of turns that ends before the budget does is a caller whose context ended there.
\<close>

definition with_batch :: "'w worker_engine \<Rightarrow> (nat \<Rightarrow> Client \<Rightarrow> job_error + 'a) \<Rightarrow> ('w eworld, job_error, 'a) op" where
  "with_batch W k = on_engine (\<lambda>x0.
    let x = tick x0; n = es_step x
    in case Reserve (we_now W n) ClassBatch (we_turns W n) (es_disp x) of
         (Some (Reserved r _), d) \<Rightarrow> (k n (r_Client r), x\<lparr>es_disp := Release_reservation (we_now W (Suc n)) r d\<rparr>)
       | (_, d) \<Rightarrow> (Inl EngineFailed, x\<lparr>es_disp := d\<rparr>))"

definition on_cache :: "('w, cache_error, 'a) op \<Rightarrow> ('w eworld, cache_error, 'a) op" where
  "on_cache m = on_engine (\<lambda>x. let (r, c) = m (es_cache x) in (r, x\<lparr>es_cache := c\<rparr>))"

section \<open>The engine\<close>

definition Split :: "'w worker_engine \<Rightarrow> Job \<Rightarrow> string \<Rightarrow> ('w eworld, job_error, string list) op" where
  "Split W job text = with_batch W (\<lambda>n c. we_Segment W n c text (j_Normalize job))"

definition engine_fromCache :: "'w worker_engine \<Rightarrow> Key \<Rightarrow> ('w eworld, job_error, byte list option) op" where
  "engine_fromCache W key = catchE (on_cache (Lookup (we_cache W) key)) (\<lambda>_. returnE None)
     (\<lambda>(entry, pcm). returnE (if pcm = [] then None else Some pcm))"

text \<open>A list of receives that just ends is a stream cut off by its context.\<close>

fun receive :: "recv list \<Rightarrow> byte list \<Rightarrow> job_error + byte list" where
  "receive [] pcm = Inl EngineFailed"
| "receive (EOF # _) pcm = Inr pcm"
| "receive (RecvFailed # _) pcm = Inl EngineFailed"
| "receive (Frame p fin # rest) pcm = (if fin then Inr (pcm @ p) else receive rest (pcm @ p))"

definition synth_request :: "'w worker_engine \<Rightarrow> Job \<Rightarrow> string \<Rightarrow> SynthesizeRequest" where
  "synth_request W job text = \<lparr>sq_RequestId = we_us W (j_ID job), sq_Text = text, sq_VoiceId = j_VoiceID job,
     sq_Normalize = j_Normalize job, sq_OutputSampleRate = j_SampleRate job\<rparr>"

definition synthesize :: "'w worker_engine \<Rightarrow> Job \<Rightarrow> string \<Rightarrow> ('w eworld, job_error, byte list) op" where
  "synthesize W job text = with_batch W (\<lambda>n c.
     case we_Synthesize W n c (synth_request W job text) of Inl e \<Rightarrow> Inl e
     | Inr frames \<Rightarrow> (case receive frames [] of Inl e \<Rightarrow> Inl e
         | Inr pcm \<Rightarrow> if pcm = [] then Inl EngineFailed else Inr pcm))"

definition engine_Synthesize :: "'w worker_engine \<Rightarrow> Job \<Rightarrow> int \<Rightarrow> string \<Rightarrow> ('w eworld, job_error, SegmentResult) op" where
  "engine_Synthesize W job seq text =
    (let key = segmentHash (we_sha W) job text
     in bindE (engine_fromCache W key) (\<lambda>cached.
        case cached of
          Some pcm \<Rightarrow> bindE (PutSegment (we_us W) (we_E W) (j_TenantID job) (j_ID job) seq pcm) (\<lambda>s3Key.
            returnE \<lparr>sr_S3Key = s3Key, sr_DurationMS = DurationMS (int (length pcm)) (j_SampleRate job), sr_Cached = True\<rparr>)
        | None \<Rightarrow> bindE (synthesize W job text) (\<lambda>pcm.
            bindE (PutSegment (we_us W) (we_E W) (j_TenantID job) (j_ID job) seq pcm) (\<lambda>s3Key.
            let durationMS = DurationMS (int (length pcm)) (j_SampleRate job);
                result = \<lparr>sr_S3Key = s3Key, sr_DurationMS = durationMS, sr_Cached = False\<rparr>
            in catchE (on_cache (cache_Store (we_cache W) key
                 \<lparr>S3Key = [], Format = ''pcm16'', entry_DurationMS = durationMS, Bytes = int (length pcm)\<rparr> pcm))
                 (\<lambda>_. returnE result) (\<lambda>_. returnE result)))))"

definition Merge :: "'w worker_engine \<Rightarrow> Job \<Rightarrow> string list \<Rightarrow> ('w eworld, job_error, string \<times> int) op" where
  "Merge W job segmentKeys =
    (let outputKey = OutputKey (we_us W) (j_TenantID job) (j_ID job) (j_Format job)
     in bindE (with_batch W (\<lambda>n c. we_Merge W n c \<lparr>mq_S3Keys = segmentKeys, mq_OutputS3Key = outputKey,
          mq_Format = j_Format job, mq_SampleRate = j_SampleRate job\<rparr>)) (\<lambda>(out, duration).
        returnE (out, wrap32 (if MaxInt32 < duration then MaxInt32 else duration))))"

definition WorkerEngine :: "'w worker_engine \<Rightarrow> 'w engine_state engine" where
  "WorkerEngine W = \<lparr>eng_Split = Split W, eng_Synthesize = engine_Synthesize W, eng_Merge = Merge W\<rparr>"

definition worker_orchestrator :: "'w worker_engine \<Rightarrow> bool \<Rightarrow> (job_error \<Rightarrow> string) \<Rightarrow> (nat \<Rightarrow> bool) \<Rightarrow> 'w engine_state orchestrator" where
  "worker_orchestrator W notifier err sleep = \<lparr>o_E = we_E W, o_engine = WorkerEngine W, o_notifier = notifier, o_err = err,
     o_us = we_us W, o_sha = we_sha W, o_sleep = sleep\<rparr>"

section \<open>The engine leaves the job tables to the orchestrator\<close>

lemma on_engine_keeps [keeps_intros]: "keeps db_later (on_engine m)"
  by (auto simp: keeps_def db_later_def on_engine_def case_prod_beta Let_def)

lemma with_batch_keeps [keeps_intros]: "keeps db_later (with_batch W k)"
  unfolding with_batch_def by (intro keeps_intros)

lemma on_cache_keeps [keeps_intros]: "keeps db_later (on_cache m)"
  unfolding on_cache_def by (intro keeps_intros)

lemma worker_orchestration:
  assumes "job_environment (we_E W)"
  shows "orchestration (worker_orchestrator W notifier err sleep)"
proof -
  have put: "keeps db_later (PutSegment us (we_E W) t i seq pcm)" for us t i seq pcm
    using job_environment.stores_keep(6) [OF assms] .
  have "keeps db_later (engine_Synthesize W job seq str)" for job seq str
    unfolding engine_Synthesize_def engine_fromCache_def synthesize_def Let_def by (intro keeps_intros put)
  moreover have "keeps db_later (Merge W job keys)" for job keys
    unfolding Merge_def Let_def by (intro keeps_intros)
  moreover have "keeps db_later (Split W job str)" for job str
    unfolding Split_def by (intro keeps_intros)
  ultimately show ?thesis
    using assms by (simp add: orchestration_def orchestration_axioms_def worker_orchestrator_def WorkerEngine_def)
qed

interpretation deployed: orchestration "worker_orchestrator (W\<lparr>we_E := quiet F clk\<rparr>) notifier err sleep" for W F clk notifier err sleep
  by (rule worker_orchestration) (simp add: quiet.job_environment_axioms)

end
