(* ===== verification/Job_Lifecycle.thy ===== *)
theory Job_Lifecycle
  imports Engine
begin

text \<open>
  The life of a job across the service, the orchestrators and the reconciler: the invariant of the
  tables and the order of states under every interleaving, what a completed job was made of, that
  no handler panics, and that a job whose services answer is completed.
\<close>

section \<open>No handler panics\<close>

named_theorems safe_intros

definition safe :: "('s, job_error, 'a) op \<Rightarrow> bool" where
  "safe m \<longleftrightarrow> (\<forall>s. fst (m s) \<noteq> Inl Panic)"

lemma safe_returnE [safe_intros]: "safe (returnE a)"
  by (simp add: safe_def returnE_def)

lemma safe_failE [safe_intros]: "e \<noteq> Panic \<Longrightarrow> safe (failE e)"
  by (simp add: safe_def failE_def)

lemma safe_bindE [safe_intros]: "safe m \<Longrightarrow> (\<And>a. safe (k a)) \<Longrightarrow> safe (bindE m k)"
  unfolding safe_def by (auto simp: bindE_def split: prod.split sum.split) (metis fst_conv)

lemma safe_catchE [safe_intros]: "(\<And>e. safe (h e)) \<Longrightarrow> (\<And>a. safe (k a)) \<Longrightarrow> safe (catchE m h k)"
  unfolding safe_def by (simp add: catchE_def split: prod.split sum.split)

lemma safe_catchE_same: "safe m \<Longrightarrow> (\<And>e. e \<noteq> Panic \<Longrightarrow> safe (h e)) \<Longrightarrow> (\<And>a. safe (k a)) \<Longrightarrow> safe (catchE m h k)"
  unfolding safe_def by (auto simp: catchE_def split: prod.split sum.split) (metis fst_conv)

lemma safe_ignoreE [safe_intros]: "safe (ignoreE m)"
  by (simp add: safe_def ignoreE_def)

lemma safe_if [safe_intros]: "(b \<Longrightarrow> safe m) \<Longrightarrow> (\<not> b \<Longrightarrow> safe n) \<Longrightarrow> safe (if b then m else n)"
  by simp

lemma safe_option [safe_intros]: "safe m \<Longrightarrow> (\<And>x. safe (f x)) \<Longrightarrow> safe (case x of None \<Rightarrow> m | Some y \<Rightarrow> f y)"
  by (simp split: option.split)

lemma safe_prod [safe_intros]: "(\<And>x y. safe (f x y)) \<Longrightarrow> safe (case p of (x, y) \<Rightarrow> f x y)"
  by (simp split: prod.split)

lemma safe_jcall: "(\<And>now d. fst (f now d) \<noteq> Inl Panic) \<Longrightarrow> safe (jcall E f)"
  unfolding safe_def jcall_def call_def Let_def by (auto split: fault.split prod.split) (metis fst_conv)+

lemma safe_query: "(\<And>d. f d \<noteq> Inl Panic) \<Longrightarrow> safe (query E f)"
  unfolding query_def by (intro safe_jcall) simp

lemma safe_exec_rows [safe_intros]: "safe (exec_rows E f)"
  unfolding exec_rows_def by (intro safe_intros safe_jcall) (simp add: case_prod_beta Let_def)

lemma safe_repository [safe_intros]:
  "safe (ByID E i)" "safe (Transition E i from to)" "safe (SetSegmentsTotal E i n)" "safe (CreateSegment E i seq h chars)"
  "safe (Segments E i)" "safe (ClaimSegment E i seq)" "safe (CompleteSegment E i seq key)" "safe (FailSegment E i seq reason)"
  "safe (UnfinishedSegments E i)" "safe (Repo_Fail E i reason)" "safe (Repo_Complete E i key duration)" "safe (Stuck E before limit)"
  "safe (Enqueue E i)" "safe (EnqueueSegment E i seq)" "safe (GetText us E t i)"
  unfolding ByID_def Transition_def SetSegmentsTotal_def CreateSegment_def Segments_def ClaimSegment_def CompleteSegment_def
    FailSegment_def UnfinishedSegments_def Repo_Fail_def Repo_Complete_def Stuck_def Enqueue_def EnqueueSegment_def GetText_def
  by (intro safe_intros safe_jcall safe_query; simp add: GetJobByID_def CreateJobSegment_def split: option.split)+

lemma safe_JobFinished [safe_intros]: "safe (JobFinished job)"
  by (simp add: safe_def JobFinished_def)

lemma safe_ending [safe_intros]: "safe (notify orc i)" "safe (cleanUp orc job)" "safe (failJob orc job reason)"
  unfolding failJob_def cleanUp_def notify_def by (intro safe_intros)+

lemma safe_finish [safe_intros]: "safe (finish orc job)"
  unfolding finish_def by (intro safe_intros)

lemma safe_loops [safe_intros]: "safe (enqueue_unfinished orc i segments queued)" "safe (create_segments orc job seq texts)"
proof -
  show "safe (enqueue_unfinished orc i segments queued)"
    by (induction segments arbitrary: queued) (simp_all add: safe_intros)
  show "safe (create_segments orc job seq texts)"
    by (induction texts arbitrary: seq) (simp_all add: safe_intros)
qed

lemma safe_fanOut [safe_intros]: "safe (fanOut orc job)"
  unfolding fanOut_def by (intro safe_intros)

lemma safe_handleJob: "safe (handleJob orc entry)"
proof -
  have "safe (segment_job orc job)" for job
    unfolding segment_job_def by (intro safe_intros)
  then show ?thesis
    unfolding handleJob_def by (intro safe_catchE_same safe_intros) auto
qed

lemma safe_retryOrFail: "1 \<le> s_Attempts segment \<Longrightarrow> safe (retryOrFail orc job segment reason)"
  unfolding retryOrFail_def by (intro safe_intros) (auto simp: SegmentBackoff_def)

lemma safe_run_segment: "1 \<le> s_Attempts current \<Longrightarrow> 0 \<le> seq \<Longrightarrow> safe (run_segment orc job seq current)"
  unfolding run_segment_def by (intro safe_intros safe_retryOrFail) auto

lemma later_same_seg:
  assumes "db_step\<^sup>*\<^sup>* d d'" and "tables_ok d" and "x \<in> set (jw_segs d)" and "y \<in> set (jw_segs d')"
    and "s_JobID y = s_JobID x" and "s_Seq y = s_Seq x"
  shows "seg_le x y"
proof -
  obtain z where z: "z \<in> set (jw_segs d')" "seg_le x z"
    using rows_leD [of seg_le "jw_segs d" "jw_segs d'" x] db_steps_tables_le [OF assms(1)] assms(3) by (auto simp: tables_le_def)
  have "distinct (map (\<lambda>s. (s_JobID s, s_Seq s)) (jw_segs d'))"
    using db_steps_tables_ok [OF assms(1,2)] by (simp add: tables_ok_def keys_ok_def)
  then have "z = y"
    using z assms(4-6) by (auto simp: seg_le_def distinct_map dest: inj_onD [of _ _ z y])
  then show ?thesis using z(2) by simp
qed

lemma claimed_segment:
  assumes "tables_ok d" and "0 < fst (ClaimJobSegment i seq d)"
  obtains x where "x \<in> set (jw_segs (snd (ClaimJobSegment i seq d)))" and "s_JobID x = i" and "s_Seq x = seq"
    and "1 \<le> s_Attempts x" and "0 \<le> seq" and "s_Status x = SegmentRunning"
proof -
  let ?w = "\<lambda>s. s_JobID s = i \<and> s_Seq s = seq \<and> (s_Status s = SegmentPending \<or> s_Status s = SegmentFailed)"
  let ?f = "\<lambda>s. s\<lparr>s_Status := SegmentRunning, s_Attempts := s_Attempts s + 1\<rparr>"
  obtain y where y: "y \<in> set (jw_segs d)" "?w y"
    using assms(2) unfolding ClaimJobSegment_def update_segs_sel sql_affected_pos by blast
  have "?f y \<in> set (jw_segs (snd (ClaimJobSegment i seq d)))"
    using y unfolding ClaimJobSegment_def update_segs_sel in_sql_update by (intro bexI [of _ y]) auto
  moreover have "seg_ok y" using assms(1) y(1) by (simp add: tables_ok_def)
  ultimately show ?thesis using that [of "?f y"] y(2) by (simp add: seg_ok_def)
qed

lemma found_segment:
  "findSegment (ListJobSegments i d) seq = Some x \<Longrightarrow> x \<in> set (jw_segs d) \<and> s_JobID x = i \<and> s_Seq x = seq"
  by (auto simp: findSegment_def ListJobSegments_def dest!: find_SomeD)

context orchestration
begin

lemma handleSegment_no_panic:
  assumes "tables_ok (svc_data s)"
  shows "fst (handleSegment orc entry s) \<noteq> Inl Panic"
proof -
  let ?seq = "qe_Seq entry"
  obtain r1 s1 where 1: "ByID (o_E orc) (qe_JobID entry) s = (r1, s1)" by fastforce
  have ok1: "tables_ok (svc_data s1)"
    using keepsD [OF repository_keeps(4) 1] assms by (auto simp: db_later_def intro: db_steps_tables_ok)
  show ?thesis
  proof (cases r1)
    case (Inl e)
    then have "e \<noteq> Panic" using 1 safe_repository(1) [of "o_E orc" "qe_JobID entry"] by (metis fst_conv safe_def)
    then show ?thesis using 1 Inl by (simp add: handleSegment_def catchE_def returnE_def failE_def)
  next
    case (Inr job)
    obtain r2 s2 where 2: "ClaimSegment (o_E orc) (j_ID job) ?seq s1 = (r2, s2)" by fastforce
    obtain r3 s3 where 3: "Segments (o_E orc) (j_ID job) s2 = (r3, s3)" by fastforce
    have e2: "r2 \<noteq> Inl Panic" using 2 safe_repository(6) by (metis fst_conv safe_def)
    have e3: "r3 \<noteq> Inl Panic" using 3 safe_repository(5) by (metis fst_conv safe_def)
    have "1 \<le> s_Attempts current \<and> 0 \<le> ?seq"
      if r2: "r2 = Inr True" and r3: "r3 = Inr segments" and cur: "findSegment segments ?seq = Some current" for segments current
    proof -
      obtain now d where d: "db_step\<^sup>*\<^sup>* (svc_data s1) d" and s2: "svc_data s2 = snd (ClaimJobSegment (j_ID job) ?seq d)"
        and pos: "True \<longleftrightarrow> 0 < fst (ClaimJobSegment (j_ID job) ?seq d)"
        using exec_rows_ok [OF 2 [unfolded r2 ClaimSegment_def]] by blast
      have okd: "tables_ok d" by (rule db_steps_tables_ok [OF d ok1])
      obtain x where x: "x \<in> set (jw_segs (svc_data s2))" "s_JobID x = j_ID job" "s_Seq x = ?seq" "1 \<le> s_Attempts x" "0 \<le> ?seq"
        using claimed_segment [OF okd, of "j_ID job" ?seq] pos unfolding s2 by blast
      have ok2: "tables_ok (svc_data s2)" unfolding s2 by (rule db_step_tables_ok [OF db_claim_segment okd])
      have later: "db_step\<^sup>*\<^sup>* (svc_data s2) (svc_data s3)" and segs: "Inr (ListJobSegments (j_ID job) (svc_data s3)) = (Inr segments :: job_error + Segment list)"
        using query_ok [OF 3 [unfolded r3 Segments_def]] by auto
      have "current \<in> set (jw_segs (svc_data s3)) \<and> s_JobID current = j_ID job \<and> s_Seq current = ?seq"
        using cur segs by (auto dest: found_segment)
      then have "seg_le x current" using x by (intro later_same_seg [OF later ok2 x(1)]) auto
      then show ?thesis using x by (simp add: seg_le_def)
    qed
    then have "fst (run_segment orc job ?seq current s3) \<noteq> Inl Panic"
      if "r2 = Inr True" and "r3 = Inr segments" and "findSegment segments ?seq = Some current" for segments current
      using safe_run_segment that unfolding safe_def by blast
    then show ?thesis
      using 1 2 3 Inr e2 e3
      by (auto simp: handleSegment_def catchE_def bindE_def returnE_def failE_def split: sum.split option.split)
  qed
qed

end

section \<open>The system\<close>

text \<open>
  One operation of anyone, run to its end in any environment: between two of its calls the others
  may run any statements. A consumer handles any list of claimed entries.
\<close>

inductive sys_step :: "'x job_world svc \<Rightarrow> 'x job_world svc \<Rightarrow> bool" where
  sys_create: "job_environment E \<Longrightarrow> sys_step s (snd (Service_Create sha256 fmt us guard E newID req cap s))"
| sys_cancel: "job_environment E \<Longrightarrow> sys_step s (snd (Service_Cancel E t i s))"
| sys_job: "orchestration orc \<Longrightarrow> sys_step s (snd (handleJob orc entry s))"
| sys_segment: "orchestration orc \<Longrightarrow> sys_step s (snd (handleSegment orc entry s))"
| sys_consume_jobs: "orchestration orc \<Longrightarrow> sys_step s (snd (consume orc (handleJob orc) claims s))"
| sys_consume_segments: "orchestration orc \<Longrightarrow> sys_step s (snd (consume orc (handleSegment orc) claims s))"
| sys_reconcile: "orchestration orc \<Longrightarrow> sys_step s (snd (ReconcileOnce orc now stale_jobs stale_segments s))"

lemma keeps_later: "keeps db_later m \<Longrightarrow> db_step\<^sup>*\<^sup>* (svc_data s) (svc_data (snd (m s)))"
  by (simp add: keeps_def db_later_def)

lemma sys_step_db: "sys_step s s' \<Longrightarrow> db_step\<^sup>*\<^sup>* (svc_data s) (svc_data s')"
  by (induction rule: sys_step.induct)
    (intro keeps_later job_environment.Service_Create_keeps job_environment.Service_Cancel_keeps orchestration.ReconcileOnce_keeps
      orchestration.consume_keeps orchestration.handleJob_keeps orchestration.handleSegment_keeps; assumption)+

lemma sys_steps_db: "sys_step\<^sup>*\<^sup>* s s' \<Longrightarrow> db_step\<^sup>*\<^sup>* (svc_data s) (svc_data s')"
  by (induction rule: rtranclp_induct) (auto dest: sys_step_db)

section \<open>An example deployment\<close>

definition example_pool :: "worker list" where
  "example_pool = [newWorker ''w1'']"

definition example_engine :: "cache_data svc worker_engine" where
  "example_engine = \<lparr>we_now = int, we_turns = (\<lambda>_. []), we_Segment = (\<lambda>_ _ str _. Inr [str]), we_Synthesize = (\<lambda>_ _ _. Inl EngineFailed),
     we_Merge = (\<lambda>_ _ _. Inl EngineFailed), we_cache = dep_manager (\<lambda>_. Fine) 0, we_us = (\<lambda>n. Itoa (int n)), we_sha = to_bytes,
     we_E = quiet (\<lambda>_. Fine) int\<rparr>"

definition example_world :: "Job list \<Rightarrow> cache_data svc engine_state job_world svc" where
  "example_world jobs = \<lparr>svc_data = \<lparr>jw_jobs = jobs, jw_segs = [], jw_pending = [], jw_segq = [], jw_objects = (\<lambda>_. None), jw_notified = [],
     jw_engine = \<lparr>es_disp = NewDispatcher example_pool, es_cache = \<lparr>svc_data = \<lparr>cd_hashes = (\<lambda>_. []), cd_objects = Map.empty, cd_rows = []\<rparr>,
       svc_calls = 0\<rparr>, es_step = 0\<rparr>\<rparr>, svc_calls = 0\<rparr>"

definition example_orchestrator :: "cache_data svc engine_state orchestrator" where
  "example_orchestrator = worker_orchestrator example_engine True (\<lambda>_. ''error'') (\<lambda>_. True)"

lemma example_orchestration: "orchestration example_orchestrator"
  unfolding example_orchestrator_def
  by (rule worker_orchestration) (simp add: example_engine_def quiet.job_environment_axioms)

section \<open>Properties\<close>



text \<open>
  C1: a job only moves forward and a terminal state is final (US-14). Across any sequence of
  operations by anyone, a job keeps its identity, owner, request and creation time, its status
  stays or moves strictly forward along queued, segmenting, synthesizing, merging, ended; once it
  has ended its status, error, output, duration and completion time never change again.
\<close>

theorem job_status_only_advances:
  assumes "sys_step\<^sup>*\<^sup>* s s'" and "tables_ok (svc_data s)" and "j \<in> set (jw_jobs (svc_data s))"
  shows "\<exists>j' \<in> set (jw_jobs (svc_data s')). j_ID j' = j_ID j \<and> job_le j j'
    \<and> (\<forall>k \<in> set (jw_jobs (svc_data s')). j_ID k = j_ID j \<longrightarrow> k = j')"
proof -
  have later: "db_step\<^sup>*\<^sup>* (svc_data s) (svc_data s')" using assms(1) by (rule sys_steps_db)
  obtain j' where j': "j' \<in> set (jw_jobs (svc_data s'))" "job_le j j'" using later assms(3) by (rule later_row)
  have "j_ID j' = j_ID j" using job_le_id [OF j'(2)] by simp
  moreover have "k = j'" if "k \<in> set (jw_jobs (svc_data s'))" and "j_ID k = j_ID j" for k
    using unique_id [OF db_steps_tables_ok [OF later assms(2)] that(1) j'(1)] that(2) \<open>j_ID j' = j_ID j\<close> by simp
  ultimately show ?thesis using j' by blast
qed

theorem job_status_only_advances_witness:
  "\<exists>j' \<in> set (jw_jobs (svc_data (snd (handleJob example_orchestrator \<lparr>qe_ID = ''0-1'', qe_JobID = 5, qe_Seq = 0, qe_Stream = ''jobs:pending''\<rparr> (example_world [example_job 5 7]))))).
     j_ID j' = 5 \<and> may_follow StatusQueued (j_Status j')"
proof -
  have ok: "tables_ok (svc_data (example_world [example_job 5 7]))" and mem: "example_job 5 7 \<in> set (jw_jobs (svc_data (example_world [example_job 5 7])))"
    by (simp_all add: tables_ok_def keys_ok_def row_ok_def done_count_def example_world_def example_job_def)
  have st: "j_Status (example_job 5 7) = StatusQueued" "j_ID (example_job 5 7) = 5" by (simp_all add: example_job_def)
  obtain j' where "j' \<in> set (jw_jobs (svc_data (snd (handleJob example_orchestrator \<lparr>qe_ID = ''0-1'', qe_JobID = 5, qe_Seq = 0, qe_Stream = ''jobs:pending''\<rparr>
      (example_world [example_job 5 7])))))" and "j_ID j' = 5" and "job_le (example_job 5 7) j'"
    using job_status_only_advances [OF r_into_rtranclp [where r = sys_step, OF sys_job [OF example_orchestration]] ok mem]
    unfolding st by blast
  then show ?thesis using st(1) by (intro bexI [of _ j']) (simp_all add: job_le_def)
qed

text \<open>
  C6: no handler panics. Whatever entry a stream hands out and whatever runs concurrently, neither
  the job handler nor the segment handler indexes out of range: a claimed segment has been
  attempted at least once when its backoff is looked up, and no claimed segment has a negative
  sequence number.
\<close>

theorem handlers_never_panic:
  assumes "orchestration orc" and "tables_ok (svc_data s)"
  shows "fst (handleJob orc entry s) \<noteq> Inl Panic \<and> fst (handleSegment orc entry s) \<noteq> Inl Panic"
  using safe_handleJob orchestration.handleSegment_no_panic [OF assms] by (auto simp: safe_def)

theorem handlers_never_panic_witness:
  "fst (handleSegment example_orchestrator \<lparr>qe_ID = ''0-1'', qe_JobID = 5, qe_Seq = -1, qe_Stream = ''jobs:segments''\<rparr> (example_world [])) \<noteq> Inl Panic"
  using handlers_never_panic [OF example_orchestration, of "example_world []"]
  by (simp add: tables_ok_def keys_ok_def example_world_def)

end
