(* ===== verification/Job_Completion.thy ===== *)
theory Job_Completion
  imports Job_Lifecycle
begin

text \<open>
  A job is run to completion when its services answer: total correctness of the handlers. A triple
  \<open>returns P m Q\<close> says that from data satisfying \<open>P\<close> the operation does return, without error, a
  value and data satisfying \<open>Q\<close>. The locale \<open>reliable\<close> is what the deployment promises: calls
  arrive and the engine answers and leaves the tables and texts alone.
\<close>

section \<open>Total correctness of operations\<close>

definition returns :: "('t \<Rightarrow> bool) \<Rightarrow> ('t svc, 'e, 'a) op \<Rightarrow> ('a \<Rightarrow> 't \<Rightarrow> bool) \<Rightarrow> bool" where
  "returns P m Q \<longleftrightarrow> (\<forall>s. P (svc_data s) \<longrightarrow> (\<exists>a s'. m s = (Inr a, s') \<and> Q a (svc_data s')))"

lemma returns_returnE: "(\<And>d. P d \<Longrightarrow> Q a d) \<Longrightarrow> returns P (returnE a) Q"
  by (simp add: returns_def returnE_def)

lemma returns_bindE: "returns P m Q \<Longrightarrow> (\<And>a. returns (Q a) (k a) R) \<Longrightarrow> returns P (bindE m k) R"
  unfolding returns_def bindE_def by fastforce

lemma returns_catchE: "returns P m Q \<Longrightarrow> (\<And>a. returns (Q a) (k a) R) \<Longrightarrow> returns P (catchE m h k) R"
  unfolding returns_def catchE_def by fastforce

lemma returns_ignoreE: "returns P m (\<lambda>_. Q) \<Longrightarrow> returns P (ignoreE m) (\<lambda>_. Q)"
  unfolding returns_def ignoreE_def by fastforce

lemma returns_weaken: "returns P m Q \<Longrightarrow> (\<And>a d. Q a d \<Longrightarrow> R a d) \<Longrightarrow> returns P m R"
  unfolding returns_def by fast

lemma returns_pre: "returns P m Q \<Longrightarrow> (\<And>d. P' d \<Longrightarrow> P d) \<Longrightarrow> returns P' m Q"
  unfolding returns_def by fast

lemma returns_assuming: "(b \<Longrightarrow> returns P m Q) \<Longrightarrow> returns (\<lambda>d. b \<and> P d) m Q"
  unfolding returns_def by fast

section \<open>One job among the tables\<close>

text \<open>
  \<open>stage us ok str i t n J st d\<close>: job \<open>i\<close> of tenant \<open>t\<close> is in status \<open>J\<close>, its text \<open>str\<close> is stored, and its
  segments are exactly \<open>0 ..< n\<close>, in the statuses \<open>st\<close>.
\<close>

definition in_status :: "uuid \<Rightarrow> uuid \<Rightarrow> Status \<Rightarrow> 'x job_world \<Rightarrow> bool" where
  "in_status i t J d \<longleftrightarrow> (\<exists>j \<in> set (jw_jobs d). j_ID j = i \<and> j_TenantID j = t \<and> j_Status j = J)"

definition has_segments :: "uuid \<Rightarrow> int \<Rightarrow> (int \<Rightarrow> SegmentStatus) \<Rightarrow> 'x job_world \<Rightarrow> bool" where
  "has_segments i n st d \<longleftrightarrow>
     (\<forall>x \<in> set (jw_segs d). s_JobID x = i \<longrightarrow> 0 \<le> s_Seq x \<and> s_Seq x < n \<and> s_Status x = st (s_Seq x)
        \<and> (s_Status x = SegmentDone \<longrightarrow> s_S3Key x \<noteq> []))
     \<and> (\<forall>q. 0 \<le> q \<and> q < n \<longrightarrow> (\<exists>x \<in> set (jw_segs d). s_JobID x = i \<and> s_Seq x = q))"

definition stage :: "(uuid \<Rightarrow> string) \<Rightarrow> ('x \<Rightarrow> bool) \<Rightarrow> string \<Rightarrow> uuid \<Rightarrow> uuid \<Rightarrow> int \<Rightarrow> Status \<Rightarrow> (int \<Rightarrow> SegmentStatus) \<Rightarrow> 'x job_world \<Rightarrow> bool" where
  "stage us ok str i t n J st d \<longleftrightarrow> tables_ok d \<and> ok (jw_engine d) \<and> map_option of_bytes (jw_objects d (InputKey us t i)) = Some str
     \<and> in_status i t J d \<and> has_segments i n st d"

lemma has_segments_update:
  assumes "has_segments i n st d" and "\<And>x. w x \<Longrightarrow> s_JobID x = i \<and> s_Seq x = q" and "\<And>x. s_JobID x = i \<Longrightarrow> s_Seq x = q \<Longrightarrow> s_Status x = st q \<Longrightarrow> w x"
    and "\<And>x. s_JobID (f x) = s_JobID x \<and> s_Seq (f x) = s_Seq x \<and> s_Status (f x) = S \<and> (S = SegmentDone \<longrightarrow> s_S3Key (f x) \<noteq> [])"
  shows "has_segments i n (st(q := S)) (snd (update_segs w f d))"
proof -
  have "0 \<le> s_Seq y \<and> s_Seq y < n \<and> s_Status y = (st(q := S)) (s_Seq y) \<and> (s_Status y = SegmentDone \<longrightarrow> s_S3Key y \<noteq> [])"
    if mem: "y \<in> set (sql_update w f (jw_segs d))" and i: "s_JobID y = i" for y
  proof -
    obtain x where x: "x \<in> set (jw_segs d)" and y: "y = (if w x then f x else x)" using mem unfolding in_sql_update by blast
    have "s_JobID x = i" using i y assms(4) [of x] by (auto split: if_splits)
    then have seg: "0 \<le> s_Seq x" "s_Seq x < n" "s_Status x = st (s_Seq x)" "s_Status x = SegmentDone \<longrightarrow> s_S3Key x \<noteq> []"
      using assms(1) x unfolding has_segments_def by blast+
    show ?thesis
    proof (cases "w x")
      case True
      then show ?thesis using y seg(1,2) assms(2) [of x] assms(4) [of x] by simp
    next
      case False
      then have "s_Seq x \<noteq> q" using \<open>s_JobID x = i\<close> seg(3) assms(3) [of x] by auto
      then show ?thesis using False y seg by simp
    qed
  qed
  moreover have "\<exists>y \<in> set (sql_update w f (jw_segs d)). s_JobID y = i \<and> s_Seq y = q'" if q': "0 \<le> q' \<and> q' < n" for q'
  proof -
    obtain x where x: "x \<in> set (jw_segs d)" "s_JobID x = i" "s_Seq x = q'" using assms(1) q' unfolding has_segments_def by blast
    then have "(if w x then f x else x) \<in> set (sql_update w f (jw_segs d))" unfolding in_sql_update by blast
    then show ?thesis using x assms(4) [of x] by (intro bexI [of _ "if w x then f x else x"]) auto
  qed
  ultimately show ?thesis unfolding has_segments_def update_segs_sel by blast
qed

lemma in_status_update:
  assumes "in_status i t J d" and "\<And>j. j_ID j = i \<Longrightarrow> j_TenantID j = t \<Longrightarrow> j_Status j = J \<Longrightarrow> w j"
    and "\<And>j. j_ID (f j) = j_ID j \<and> j_TenantID (f j) = j_TenantID j" and "\<And>j. j_Status j = J \<Longrightarrow> j_Status (f j) = J'"
  shows "in_status i t J' (snd (update_jobs now w f d)) \<and> 0 < fst (update_jobs now w f d)"
proof -
  obtain j where j: "j \<in> set (jw_jobs d)" "j_ID j = i" "j_TenantID j = t" "j_Status j = J" using assms(1) by (auto simp: in_status_def)
  have w: "w j" using assms(2) j by blast
  then have "(f j)\<lparr>j_UpdatedAt := now\<rparr> \<in> set (jw_jobs (snd (update_jobs now w f d)))"
    using j(1) unfolding update_jobs_sel in_sql_update by force
  then have "in_status i t J' (snd (update_jobs now w f d))"
    unfolding in_status_def using assms(3,4) [of j] j(2-4) by (intro bexI [of _ "(f j)\<lparr>j_UpdatedAt := now\<rparr>"]) auto
  moreover have "0 < fst (update_jobs now w f d)" unfolding update_jobs_sel sql_affected_pos using j(1) w by blast
  ultimately show ?thesis by blast
qed

section \<open>A deployment whose services answer\<close>

definition same_tables :: "(uuid \<Rightarrow> string) \<Rightarrow> 'x job_world \<Rightarrow> 'x job_world \<Rightarrow> bool" where
  "same_tables us d d' \<longleftrightarrow> jw_jobs d' = jw_jobs d \<and> jw_segs d' = jw_segs d
     \<and> (\<forall>t i. jw_objects d' (InputKey us t i) = jw_objects d (InputKey us t i))"

lemma stage_same: "stage us ok str i t n J st d \<Longrightarrow> same_tables us d d' \<Longrightarrow> ok (jw_engine d') \<Longrightarrow> stage us ok str i t n J st d'"
  by (simp add: stage_def same_tables_def in_status_def has_segments_def tables_ok_def keys_ok_def done_count_def)

locale reliable =
  fixes orc :: "'x orchestrator" and ok :: "'x \<Rightarrow> bool" and str :: string and pieces :: "string list" and out :: string and dur :: int
  assumes calm: "je_faults (o_E orc) n = Fine" "je_others (o_E orc) n d = d"
    and split: "returns (\<lambda>d. ok (jw_engine d) \<and> same_tables (o_us orc) d0 d) (eng_Split (o_engine orc) job str)
      (\<lambda>ps d. ps = pieces \<and> ok (jw_engine d) \<and> same_tables (o_us orc) d0 d)"
    and synth: "returns (\<lambda>d. ok (jw_engine d) \<and> same_tables (o_us orc) d0 d) (eng_Synthesize (o_engine orc) job seq piece)
      (\<lambda>r d. sr_S3Key r \<noteq> [] \<and> ok (jw_engine d) \<and> same_tables (o_us orc) d0 d)"
    and merge: "returns (\<lambda>d. ok (jw_engine d) \<and> same_tables (o_us orc) d0 d) (eng_Merge (o_engine orc) job keys)
      (\<lambda>r d. r = (out, dur) \<and> ok (jw_engine d) \<and> same_tables (o_us orc) d0 d)"
    and digest: "length (o_sha orc x) = 32"
    and some_pieces: "pieces \<noteq> []" "int (length pieces) \<le> job_MaxTextChars"
begin

abbreviation at_stage where "at_stage \<equiv> stage (o_us orc) ok str"

lemma returns_jcall:
  assumes "\<And>now d. P d \<Longrightarrow> \<exists>a. fst (f now d) = Inr a \<and> Q a (snd (f now d))"
  shows "returns P (jcall (o_E orc) f) Q"
  unfolding returns_def
proof (intro allI impI)
  fix s :: "'x job_world svc"
  assume "P (svc_data s)"
  then obtain a where "fst (f (je_clk (o_E orc) (svc_calls s)) (svc_data s)) = Inr a" "Q a (snd (f (je_clk (o_E orc) (svc_calls s)) (svc_data s)))"
    using assms by blast
  then show "\<exists>a s'. jcall (o_E orc) f s = (Inr a, s') \<and> Q a (svc_data s')"
    by (auto simp: jcall_def call_def calm Let_def split: prod.split)
qed

lemma returns_query: "(\<And>d. P d \<Longrightarrow> \<exists>a. f d = Inr a \<and> Q a d) \<Longrightarrow> returns P (query (o_E orc) f) Q"
  unfolding query_def by (rule returns_jcall) simp

lemma returns_exec_rows:
  "(\<And>now d. P d \<Longrightarrow> Q (0 < fst (f now d)) (snd (f now d))) \<Longrightarrow> returns P (exec_rows (o_E orc) f) Q"
  unfolding exec_rows_def
  by (rule returns_bindE [where Q = "\<lambda>n. Q (0 < n)"], rule returns_jcall) (simp_all add: case_prod_beta Let_def returns_returnE)

lemma ByID_returns: "returns (at_stage i t n J st) (ByID (o_E orc) i) (\<lambda>j d. j_ID j = i \<and> j_TenantID j = t \<and> j_Status j = J \<and> at_stage i t n J st d)"
  unfolding ByID_def
proof (rule returns_query)
  fix d assume st: "at_stage i t n J st d"
  then obtain j where j: "j \<in> set (jw_jobs d)" "j_ID j = i" "j_TenantID j = t" "j_Status j = J" by (auto simp: stage_def in_status_def)
  then have "GetJobByID i d = Inr j" using find_by_id [of d j] st by (simp add: stage_def)
  then show "\<exists>a. GetJobByID i d = Inr a \<and> j_ID a = i \<and> j_TenantID a = t \<and> j_Status a = J \<and> at_stage i t n J st d" using j st by simp
qed

lemma GetText_returns: "returns (at_stage i t n J st) (GetText (o_us orc) (o_E orc) t i) (\<lambda>r d. r = str \<and> at_stage i t n J st d)"
  unfolding GetText_def by (rule returns_query) (auto simp: stage_def)

lemma Segments_returns: "returns (at_stage i t n J st) (Segments (o_E orc) i) (\<lambda>ss d. ss = ListJobSegments i d \<and> at_stage i t n J st d)"
  unfolding Segments_def by (rule returns_query) simp

lemma engine_returns:
  assumes "\<And>d0. returns (\<lambda>d. ok (jw_engine d) \<and> same_tables (o_us orc) d0 d) m (\<lambda>a d. R a \<and> ok (jw_engine d) \<and> same_tables (o_us orc) d0 d)"
  shows "returns (at_stage i t n J st) m (\<lambda>a d. R a \<and> at_stage i t n J st d)"
  unfolding returns_def
proof (intro allI impI)
  fix s :: "'x job_world svc" assume st: "at_stage i t n J st (svc_data s)"
  have "\<exists>a s'. m s = (Inr a, s') \<and> R a \<and> ok (jw_engine (svc_data s')) \<and> same_tables (o_us orc) (svc_data s) (svc_data s')"
    using assms [of "svc_data s"] st unfolding returns_def by (simp add: stage_def same_tables_def)
  then show "\<exists>a s'. m s = (Inr a, s') \<and> R a \<and> at_stage i t n J st (svc_data s')" using stage_same [OF st] by blast
qed

lemma ClaimSegment_returns:
  assumes "st q \<in> {SegmentPending, SegmentFailed}" and "0 \<le> q" and "q < n"
  shows "returns (at_stage i t n J st) (ClaimSegment (o_E orc) i q) (\<lambda>b d. b \<and> at_stage i t n J (st(q := SegmentRunning)) d)"
  unfolding ClaimSegment_def
proof (rule returns_exec_rows)
  fix now d assume d: "at_stage i t n J st d"
  obtain x where x: "x \<in> set (jw_segs d)" "s_JobID x = i" "s_Seq x = q" using d assms(2,3) by (auto simp: stage_def has_segments_def)
  have "s_Status x = st q" using d x by (auto simp: stage_def has_segments_def)
  then have "0 < fst (ClaimJobSegment i q d)"
    using x assms(1) unfolding ClaimJobSegment_def update_segs_sel sql_affected_pos by (intro bexI [of _ x]) auto
  moreover have "has_segments i n (st(q := SegmentRunning)) (snd (ClaimJobSegment i q d))"
    unfolding ClaimJobSegment_def using d assms(1) by (intro has_segments_update) (auto simp: stage_def)
  moreover have "tables_ok (snd (ClaimJobSegment i q d))"
    using d by (intro db_step_tables_ok [OF db_claim_segment]) (simp add: stage_def)
  ultimately show "0 < fst (ClaimJobSegment i q d) \<and> at_stage i t n J (st(q := SegmentRunning)) (snd (ClaimJobSegment i q d))"
    using d by (auto simp: stage_def in_status_def ClaimJobSegment_def update_segs_def)
qed

lemma CompleteSegment_returns:
  assumes "st q = SegmentRunning" and "key \<noteq> []" and "0 \<le> q" and "q < n"
  shows "returns (at_stage i t n J st) (CompleteSegment (o_E orc) i q key) (\<lambda>_. at_stage i t n J (st(q := SegmentDone)))"
proof -
  let ?w = "\<lambda>s. s_JobID s = i \<and> s_Seq s = q \<and> s_Status s = SegmentRunning"
  let ?f = "\<lambda>s. s\<lparr>s_Status := SegmentDone, s_S3Key := key\<rparr>"
  have "at_stage i t n J (st(q := SegmentDone)) (snd (CompleteJobSegment i q key now d))" if d: "at_stage i t n J st d" for now d
  proof -
    let ?d1 = "snd (update_segs ?w ?f d)"
    let ?d2 = "snd (update_jobs now (\<lambda>j. j_ID j = i) (\<lambda>j. j\<lparr>j_SegmentsDone := j_SegmentsDone j + 1\<rparr>) ?d1)"
    obtain x where x: "x \<in> set (jw_segs d)" "s_JobID x = i" "s_Seq x = q" using d assms(3,4) by (auto simp: stage_def has_segments_def)
    have "s_Status x = SegmentRunning" using d x assms(1) by (auto simp: stage_def has_segments_def)
    then have "fst (update_segs ?w ?f d) \<noteq> 0" using x unfolding update_segs_sel by (auto simp: sql_affected_def filter_empty_conv)
    then have d2: "snd (CompleteJobSegment i q key now d) = ?d2"
      by (simp add: CompleteJobSegment_def case_prod_beta Let_def)
    have segs: "has_segments i n (st(q := SegmentDone)) ?d1"
      using d assms(1,2) by (intro has_segments_update) (auto simp: stage_def)
    have "in_status i t J ?d1" using d by (simp add: stage_def in_status_def update_segs_sel)
    then have "in_status i t J ?d2" using in_status_update [of i t J ?d1 "\<lambda>j. j_ID j = i" "\<lambda>j. j\<lparr>j_SegmentsDone := j_SegmentsDone j + 1\<rparr>" J now] by simp
    moreover have "tables_ok ?d2" unfolding d2 [symmetric] using d by (intro tables_ok_CompleteJobSegment) (simp add: stage_def)
    moreover have "has_segments i n (st(q := SegmentDone)) ?d2" using segs by (simp add: has_segments_def update_jobs_sel)
    moreover have "jw_engine ?d2 = jw_engine d" "jw_objects ?d2 = jw_objects d" by (simp_all add: update_jobs_def update_segs_def)
    ultimately show ?thesis using d unfolding d2 by (simp add: stage_def)
  qed
  then show ?thesis
    unfolding CompleteSegment_def by (intro returns_bindE [OF returns_exec_rows] returns_returnE) auto
qed

lemma UnfinishedSegments_returns:
  "returns (at_stage i t n J st) (UnfinishedSegments (o_E orc) i)
     (\<lambda>m d. (m = 0 \<longleftrightarrow> (\<forall>q. 0 \<le> q \<and> q < n \<longrightarrow> st q = SegmentDone)) \<and> at_stage i t n J st d)"
  unfolding UnfinishedSegments_def
proof (rule returns_query)
  fix d assume d: "at_stage i t n J st d"
  have "CountUnfinishedSegments i d = 0 \<longleftrightarrow> (\<forall>x \<in> set (jw_segs d). s_JobID x = i \<longrightarrow> s_Status x = SegmentDone)"
    by (auto simp: CountUnfinishedSegments_def filter_empty_conv)
  also have "\<dots> \<longleftrightarrow> (\<forall>q. 0 \<le> q \<and> q < n \<longrightarrow> st q = SegmentDone)"
    using d unfolding stage_def has_segments_def by metis
  finally show "\<exists>a. Inr (CountUnfinishedSegments i d) = (Inr a :: job_error + nat)
      \<and> (a = 0 \<longleftrightarrow> (\<forall>q. 0 \<le> q \<and> q < n \<longrightarrow> st q = SegmentDone)) \<and> at_stage i t n J st d" using d by simp
qed

lemma status_moves:
  assumes "\<And>j. j_ID (f j) = j_ID j \<and> j_TenantID (f j) = j_TenantID j \<and> j_IdempotencyKey (f j) = j_IdempotencyKey j \<and> j_SegmentsDone (f j) = j_SegmentsDone j"
    and "\<And>j. j_ID j = i \<Longrightarrow> j_Status j = J \<Longrightarrow> w j" and "\<And>j. j_Status j = J \<Longrightarrow> j_Status (f j) = J'"
    and "tables_ok (snd (update_jobs now w f d))" and d: "at_stage i t n J st d"
  shows "0 < fst (update_jobs now w f d) \<and> at_stage i t n J' st (snd (update_jobs now w f d))"
proof -
  have "in_status i t J' (snd (update_jobs now w f d)) \<and> 0 < fst (update_jobs now w f d)"
    using d assms(1-3) by (intro in_status_update [of i t J]) (auto simp: stage_def)
  then show ?thesis using d assms(4) by (auto simp: stage_def has_segments_def update_jobs_def)
qed

lemma Transition_merging_returns:
  "returns (at_stage i t n StatusSynthesizing st) (Transition (o_E orc) i StatusSynthesizing StatusMerging) (\<lambda>b d. b \<and> at_stage i t n StatusMerging st d)"
  unfolding Transition_def TransitionJob_def
proof (rule returns_exec_rows, rule status_moves)
  fix now d assume "at_stage i t n StatusSynthesizing st d"
  then show "tables_ok (snd (update_jobs now (\<lambda>j. j_ID j = i \<and> j_Status j = StatusSynthesizing) (\<lambda>j. j\<lparr>j_Status := StatusMerging\<rparr>) d))"
    using db_step_tables_ok [OF db_merging [of d i now]] by (simp add: stage_def TransitionJob_def)
qed simp_all

lemma Transition_segmenting_returns:
  "returns (at_stage i t n StatusQueued st) (Transition (o_E orc) i StatusQueued StatusSegmenting) (\<lambda>b d. b \<and> at_stage i t n StatusSegmenting st d)"
  unfolding Transition_def TransitionJob_def
proof (rule returns_exec_rows, rule status_moves)
  fix now d assume "at_stage i t n StatusQueued st d"
  then show "tables_ok (snd (update_jobs now (\<lambda>j. j_ID j = i \<and> j_Status j = StatusQueued) (\<lambda>j. j\<lparr>j_Status := StatusSegmenting\<rparr>) d))"
    using db_step_tables_ok [OF db_segmenting [of d i now]] by (simp add: stage_def TransitionJob_def)
qed simp_all

lemma SetSegmentsTotal_returns:
  "returns (at_stage i t n StatusSegmenting st) (SetSegmentsTotal (o_E orc) i m) (\<lambda>_. at_stage i t n StatusSynthesizing st)"
  unfolding SetSegmentsTotal_def SetJobSegmentsTotal_def
proof (rule returns_exec_rows, rule conjunct2 [OF status_moves])
  fix now d assume "at_stage i t n StatusSegmenting st d"
  then show "tables_ok (snd (update_jobs now (\<lambda>j. j_ID j = i \<and> j_Status j = StatusSegmenting) (\<lambda>j. j\<lparr>j_SegmentsTotal := Some m, j_Status := StatusSynthesizing\<rparr>) d))"
    using db_step_tables_ok [OF db_set_total [of d i m now]] by (simp add: stage_def SetJobSegmentsTotal_def)
qed simp_all

text \<open>The end of a job: completed with the output of the merge.\<close>

abbreviation completed :: "uuid \<Rightarrow> 'x job_world \<Rightarrow> bool" where
  "completed i d \<equiv> \<exists>j \<in> set (jw_jobs d). j_ID j = i \<and> j_Status j = StatusCompleted \<and> j_OutputS3Key j = out \<and> j_DurationMS j = Some dur"

lemma Repo_Complete_returns: "returns (at_stage i t n StatusMerging st) (Repo_Complete (o_E orc) i out dur) (\<lambda>_. completed i)"
  unfolding Repo_Complete_def CompleteJob_def
proof (rule returns_exec_rows)
  fix now d assume "at_stage i t n StatusMerging st d"
  then obtain j where j: "j \<in> set (jw_jobs d)" "j_ID j = i" "j_Status j = StatusMerging" by (auto simp: stage_def in_status_def)
  let ?f = "\<lambda>j. j\<lparr>j_Status := StatusCompleted, j_OutputS3Key := out, j_DurationMS := Some dur, j_CompletedAt := Some now\<rparr>"
  have "(?f j)\<lparr>j_UpdatedAt := now\<rparr> \<in> set (jw_jobs (snd (update_jobs now (\<lambda>j. j_ID j = i \<and> j_Status j = StatusMerging) ?f d)))"
    using j unfolding update_jobs_sel in_sql_update by (intro bexI [of _ j]) auto
  then show "completed i (snd (update_jobs now (\<lambda>j. j_ID j = i \<and> j_Status j = StatusMerging) ?f d))" using j by (intro bexI) auto
qed

lemma cleanUp_returns: "returns (completed i) (cleanUp orc job) (\<lambda>_. completed i)"
  unfolding cleanUp_def DeleteText_def by (intro returns_ignoreE returns_jcall) simp

lemma notify_returns: "returns (completed i) (notify orc i) (\<lambda>_. completed i)"
proof -
  have "returns (completed i) (ByID (o_E orc) i) (\<lambda>_. completed i)"
    unfolding ByID_def
  proof (rule returns_query)
    fix d assume c: "completed i d"
    then have "find (\<lambda>j. j_ID j = i) (jw_jobs d) \<noteq> None" by (auto simp: find_None_iff)
    then show "\<exists>a. GetJobByID i d = Inr a \<and> completed i d" using c by (auto simp: GetJobByID_def)
  qed
  moreover have "returns (completed i) (JobFinished job) (\<lambda>_. completed i)" for job
    by (simp add: returns_def JobFinished_def)
  ultimately have "returns (completed i) (catchE (ByID (o_E orc) i) (\<lambda>_. returnE ()) JobFinished) (\<lambda>_. completed i)"
    by (rule returns_catchE)
  then show ?thesis
    by (cases "o_notifier orc") (simp_all add: notify_def returns_returnE)
qed

lemma finish_returns:
  assumes "\<forall>q. 0 \<le> q \<and> q < n \<longrightarrow> st q = SegmentDone" and "j_ID job = i" and "j_Status job = StatusSynthesizing"
  shows "returns (at_stage i t n StatusSynthesizing st) (finish orc job) (\<lambda>_. completed i)"
proof -
  have ready: "find (\<lambda>s. s_Status s \<noteq> SegmentDone \<or> s_S3Key s = []) (ListJobSegments i d) = None" if "at_stage i t n StatusMerging st d" for d
    using that assms(1) by (auto simp: find_None_iff ListJobSegments_def stage_def has_segments_def)
  have tail: "returns (at_stage i t n StatusMerging st)
      (catchE (eng_Merge (o_engine orc) job (map s_S3Key ss)) (\<lambda>e. failJob orc job (''merge failed: '' @ o_err orc e))
        (\<lambda>(outputKey, durationMS). bindE (Repo_Complete (o_E orc) (j_ID job) outputKey durationMS)
          (\<lambda>_. bindE (cleanUp orc job) (\<lambda>_. notify orc (j_ID job))))) (\<lambda>_. completed i)" for ss
  proof (rule returns_catchE [OF engine_returns [OF merge]])
    fix r :: "string \<times> int"
    show "returns (\<lambda>d. r = (out, dur) \<and> at_stage i t n StatusMerging st d)
        (case r of (outputKey, durationMS) \<Rightarrow> bindE (Repo_Complete (o_E orc) (j_ID job) outputKey durationMS)
          (\<lambda>_. bindE (cleanUp orc job) (\<lambda>_. notify orc (j_ID job)))) (\<lambda>_. completed i)"
      unfolding assms(2)
      by (rule returns_assuming) (auto intro!: returns_bindE [OF Repo_Complete_returns] returns_bindE [OF cleanUp_returns] notify_returns)
  qed
  show ?thesis
    unfolding finish_def assms(2)
  proof (simp add: assms(3), rule returns_bindE [OF Transition_merging_returns], rule returns_assuming, simp, rule returns_bindE [OF Segments_returns])
    fix ss
    show "returns (\<lambda>d. ss = ListJobSegments i d \<and> at_stage i t n StatusMerging st d)
        (case find (\<lambda>s. s_Status s = SegmentDone \<longrightarrow> s_S3Key s = []) ss of
           None \<Rightarrow> catchE (eng_Merge (o_engine orc) job (map s_S3Key ss)) (\<lambda>e. failJob orc job (''merge failed: '' @ o_err orc e))
             (\<lambda>(outputKey, durationMS). bindE (Repo_Complete (o_E orc) i outputKey durationMS)
               (\<lambda>_. bindE (cleanUp orc job) (\<lambda>_. notify orc i)))
         | Some s \<Rightarrow> failJob orc job (''segment '' @ Itoa (s_Seq s) @ '' is not ready to merge'')) (\<lambda>_. completed i)"
      using tail [of ss] ready unfolding returns_def by (auto simp: assms(2))
  qed
qed

definition after :: "uuid \<Rightarrow> uuid \<Rightarrow> int \<Rightarrow> (int \<Rightarrow> SegmentStatus) \<Rightarrow> 'x job_world \<Rightarrow> bool" where
  "after i t n st d \<longleftrightarrow> (if \<forall>q. 0 \<le> q \<and> q < n \<longrightarrow> st q = SegmentDone then completed i d else at_stage i t n StatusSynthesizing st d)"

lemma run_segment_returns:
  assumes "st q = SegmentRunning" and "0 \<le> q" and "q < n" and "n \<le> int (length pieces)" and job: "j_ID job = i" "j_TenantID job = t"
  shows "returns (at_stage i t n StatusSynthesizing st) (run_segment orc job q current) (\<lambda>_. after i t n (st(q := SegmentDone)))"
proof -
  let ?st = "st(q := SegmentDone)"
  have reload: "returns (at_stage i t n StatusSynthesizing ?st) (bindE (ByID (o_E orc) i) (finish orc)) (\<lambda>_. completed i)"
    if "\<forall>q'. 0 \<le> q' \<and> q' < n \<longrightarrow> ?st q' = SegmentDone"
    by (rule returns_bindE [OF ByID_returns]) (intro returns_assuming, rule finish_returns [OF that])
  have "returns (at_stage i t n StatusSynthesizing st) (bindE (CompleteSegment (o_E orc) i q (sr_S3Key res)) (\<lambda>_.
      bindE (UnfinishedSegments (o_E orc) i) (\<lambda>remaining. if 0 < remaining then returnE () else bindE (ByID (o_E orc) i) (finish orc))))
      (\<lambda>_. after i t n ?st)" if "sr_S3Key res \<noteq> []" for res
  proof (rule returns_bindE [OF CompleteSegment_returns [where st = st and q = q, OF assms(1) that assms(2,3)]], rule returns_bindE [OF UnfinishedSegments_returns])
    fix remaining :: nat
    show "returns (\<lambda>d. (remaining = 0 \<longleftrightarrow> (\<forall>q'. 0 \<le> q' \<and> q' < n \<longrightarrow> ?st q' = SegmentDone)) \<and> at_stage i t n StatusSynthesizing ?st d)
        (if 0 < remaining then returnE () else bindE (ByID (o_E orc) i) (finish orc)) (\<lambda>_. after i t n ?st)"
    proof (rule returns_assuming)
      assume all: "remaining = 0 \<longleftrightarrow> (\<forall>q'. 0 \<le> q' \<and> q' < n \<longrightarrow> ?st q' = SegmentDone)"
      show "returns (at_stage i t n StatusSynthesizing ?st) (if 0 < remaining then returnE () else bindE (ByID (o_E orc) i) (finish orc))
          (\<lambda>_. after i t n ?st)"
      proof (cases "remaining = 0")
        case True
        then have "\<forall>q'. 0 \<le> q' \<and> q' < n \<longrightarrow> ?st q' = SegmentDone" using all by blast
        then show ?thesis using returns_weaken [OF reload] True by (simp add: after_def)
      next
        case False
        then have "\<not> (\<forall>q'. 0 \<le> q' \<and> q' < n \<longrightarrow> ?st q' = SegmentDone)" using all by blast
        then have "at_stage i t n StatusSynthesizing ?st d \<Longrightarrow> after i t n ?st d" for d by (simp only: after_def if_False)
        then show ?thesis using False by (simp add: returns_returnE)
      qed
    qed
  qed
  then have body: "returns (at_stage i t n StatusSynthesizing st)
      (catchE (eng_Synthesize (o_engine orc) job q (pieces ! nat q)) (\<lambda>e. retryOrFail orc job current (o_err orc e))
        (\<lambda>result. bindE (CompleteSegment (o_E orc) i q (sr_S3Key result)) (\<lambda>_.
          bindE (UnfinishedSegments (o_E orc) i) (\<lambda>remaining. if 0 < remaining then returnE () else bindE (ByID (o_E orc) i) (finish orc)))))
      (\<lambda>_. after i t n ?st)"
    by (intro returns_catchE [OF engine_returns [OF synth]] returns_assuming)
  show ?thesis
    unfolding run_segment_def job
  proof (rule returns_catchE [OF GetText_returns], rule returns_assuming, hypsubst, rule returns_catchE [OF engine_returns [OF split]], rule returns_assuming, hypsubst)
    show "returns (at_stage i t n StatusSynthesizing st)
      (if int (length pieces) \<le> q then retryOrFail orc job current ''segment text could not be recovered''
       else if q < 0 then failE Panic
       else catchE (eng_Synthesize (o_engine orc) job q (pieces ! nat q)) (\<lambda>e. retryOrFail orc job current (o_err orc e))
         (\<lambda>result. bindE (CompleteSegment (o_E orc) i q (sr_S3Key result)) (\<lambda>_.
           bindE (UnfinishedSegments (o_E orc) i) (\<lambda>remaining. if 0 < remaining then returnE () else bindE (ByID (o_E orc) i) (finish orc)))))
      (\<lambda>_. after i t n ?st)" using body assms(2-4) by simp
  qed
qed

lemma handleSegment_returns:
  assumes "st q \<in> {SegmentPending, SegmentFailed}" and "0 \<le> q" and "q < n" and "n \<le> int (length pieces)" and "qe_JobID entry = i" and "qe_Seq entry = q"
  shows "returns (at_stage i t n StatusSynthesizing st) (handleSegment orc entry) (\<lambda>_. after i t n (st(q := SegmentDone)))"
proof -
  let ?st = "st(q := SegmentRunning)"
  have found: "\<exists>x. findSegment (ListJobSegments i d) q = Some x" if d: "at_stage i t n StatusSynthesizing ?st d" for d
  proof -
    obtain x where "x \<in> set (jw_segs d)" "s_JobID x = i" "s_Seq x = q" using d assms(2,3) by (auto simp: stage_def has_segments_def)
    then have "findSegment (ListJobSegments i d) q \<noteq> None" by (auto simp: findSegment_def find_None_iff ListJobSegments_def)
    then show ?thesis by blast
  qed
  have run: "returns (at_stage i t n StatusSynthesizing ?st) (run_segment orc job q current) (\<lambda>_. after i t n (st(q := SegmentDone)))"
    if "j_ID job = i" "j_TenantID job = t" for job current
    using run_segment_returns [of ?st q n job i t current] assms(2-4) that by simp
  have tail: "returns (at_stage i t n StatusSynthesizing ?st)
      (bindE (Segments (o_E orc) i) (\<lambda>segments. case findSegment segments q of None \<Rightarrow> failE SegmentMissing | Some current \<Rightarrow> run_segment orc job q current))
      (\<lambda>_. after i t n (st(q := SegmentDone)))" if "j_ID job = i" "j_TenantID job = t" for job
  proof (rule returns_bindE [OF Segments_returns])
    fix ss
    show "returns (\<lambda>d. ss = ListJobSegments i d \<and> at_stage i t n StatusSynthesizing ?st d)
        (case findSegment ss q of None \<Rightarrow> failE SegmentMissing | Some current \<Rightarrow> run_segment orc job q current) (\<lambda>_. after i t n (st(q := SegmentDone)))"
      using run [OF that] found unfolding returns_def by fastforce
  qed
  show ?thesis
    unfolding handleSegment_def assms(5,6)
  proof (rule returns_catchE [OF ByID_returns], intro returns_assuming)
    fix job :: Job
    assume job: "j_ID job = i" "j_TenantID job = t" "j_Status job = StatusSynthesizing"
    show "returns (at_stage i t n StatusSynthesizing st) (if Terminal (j_Status job) then returnE ()
        else bindE (ClaimSegment (o_E orc) (j_ID job) q) (\<lambda>claimed. if \<not> claimed then returnE ()
          else bindE (Segments (o_E orc) (j_ID job)) (\<lambda>segments. case findSegment segments q of None \<Rightarrow> failE SegmentMissing
            | Some current \<Rightarrow> run_segment orc job q current))) (\<lambda>_. after i t n (st(q := SegmentDone)))"
      unfolding job by (simp, rule returns_bindE [OF ClaimSegment_returns [where st = st and q = q, OF assms(1-3)]], rule returns_assuming, simp, rule tail [OF job(1,2)])
  qed
qed

lemma CreateSegment_returns:
  assumes "0 \<le> n" and "0 \<le> chars"
  shows "returns (at_stage i t n StatusSegmenting (\<lambda>_. SegmentPending)) (CreateSegment (o_E orc) i n (segmentHash (o_sha orc) job piece) chars)
    (\<lambda>_. at_stage i t (n + 1) StatusSegmenting (\<lambda>_. SegmentPending))"
  unfolding CreateSegment_def
proof (rule returns_jcall)
  fix now d
  let ?h = "segmentHash (o_sha orc) job piece"
  let ?row = "\<lparr>s_JobID = i, s_Seq = n, s_TextHash = ?h, s_Chars = chars, s_Status = SegmentPending, s_Attempts = 0, s_S3Key = [], s_LastError = []\<rparr>"
  assume d: "at_stage i t n StatusSegmenting (\<lambda>_. SegmentPending) d"
  have "length ?h = 32" by (simp add: segmentHash_def Derive_def digest)
  moreover have "\<exists>j \<in> set (jw_jobs d). j_ID j = i" using d by (auto simp: stage_def in_status_def)
  moreover have "\<not> (\<exists>x \<in> set (jw_segs d). s_JobID x = i \<and> s_Seq x = n)" using d by (auto simp: stage_def has_segments_def)
  ultimately have run: "CreateJobSegment i n ?h chars d = (Inr (), d\<lparr>jw_segs := jw_segs d @ [?row]\<rparr>)"
    using assms by (auto simp: CreateJobSegment_def)
  have "has_segments i (n + 1) (\<lambda>_. SegmentPending) (d\<lparr>jw_segs := jw_segs d @ [?row]\<rparr>)"
    unfolding has_segments_def
  proof (intro conjI allI impI)
    fix q assume q: "0 \<le> q \<and> q < n + 1"
    show "\<exists>x \<in> set (jw_segs (d\<lparr>jw_segs := jw_segs d @ [?row]\<rparr>)). s_JobID x = i \<and> s_Seq x = q"
    proof (cases "q = n")
      case False
      then have "q < n" using q by simp
      then show ?thesis using d q by (auto simp: stage_def has_segments_def)
    qed simp
  qed (use d assms(1) in \<open>auto simp: stage_def has_segments_def\<close>)
  moreover have "tables_ok (d\<lparr>jw_segs := jw_segs d @ [?row]\<rparr>)"
    using tables_ok_CreateJobSegment [of d i n ?h chars] d run by (simp add: stage_def)
  ultimately show "\<exists>a. fst (CreateJobSegment i n ?h chars d) = Inr a
      \<and> at_stage i t (n + 1) StatusSegmenting (\<lambda>_. SegmentPending) (snd (CreateJobSegment i n ?h chars d))"
    using d by (simp add: run stage_def in_status_def)
qed

lemma create_segments_returns:
  assumes "0 \<le> n" and "j_ID job = i"
  shows "returns (at_stage i t n StatusSegmenting (\<lambda>_. SegmentPending)) (create_segments orc job n texts)
    (\<lambda>_. at_stage i t (n + int (length texts)) StatusSegmenting (\<lambda>_. SegmentPending))"
  using assms(1)
proof (induction texts arbitrary: n)
  case Nil
  then show ?case by (simp add: returns_returnE)
next
  case (Cons piece texts)
  have "returns (at_stage i t n StatusSegmenting (\<lambda>_. SegmentPending)) (CreateSegment (o_E orc) i n (segmentHash (o_sha orc) job piece) (runeCount piece))
      (\<lambda>_. at_stage i t (n + 1) StatusSegmenting (\<lambda>_. SegmentPending))"
    using Cons.prems by (intro CreateSegment_returns) (auto simp: runeCount_def job_MaxTextChars_def)
  from returns_bindE [OF this Cons.IH] Cons.prems show ?case by (simp add: assms(2) add.assoc add.commute [of 1])
qed

lemma enqueue_unfinished_returns:
  "returns (at_stage i t n J st) (enqueue_unfinished orc i ss m)
    (\<lambda>k d. k = m + length (filter (\<lambda>x. s_Status x \<noteq> SegmentDone) ss) \<and> at_stage i t n J st d)"
proof (induction ss arbitrary: m)
  case Nil
  then show ?case by (simp add: returns_returnE)
next
  case (Cons x ss)
  have "returns (at_stage i t n J st) (EnqueueSegment (o_E orc) i (s_Seq x)) (\<lambda>_. at_stage i t n J st)"
    unfolding EnqueueSegment_def by (rule returns_jcall) (auto intro: stage_same simp: same_tables_def stage_def in_status_def has_segments_def tables_ok_def keys_ok_def done_count_def)
  from returns_bindE [OF this Cons.IH [of "Suc m"]] Cons.IH [of m] show ?case by simp
qed

lemma fanOut_returns:
  assumes "0 < n" and "j_ID job = i"
  shows "returns (at_stage i t n J (\<lambda>_. SegmentPending)) (fanOut orc job) (\<lambda>_. at_stage i t n J (\<lambda>_. SegmentPending))"
  unfolding fanOut_def assms(2)
proof (rule returns_bindE [OF Segments_returns])
  fix ss
  have some: "filter (\<lambda>x. s_Status x \<noteq> SegmentDone) (ListJobSegments i d) \<noteq> []" if d: "at_stage i t n J (\<lambda>_. SegmentPending) d" for d
  proof -
    obtain x where "x \<in> set (jw_segs d)" "s_JobID x = i" "s_Seq x = 0" using d assms(1) by (auto simp: stage_def has_segments_def)
    moreover from this have "s_Status x \<noteq> SegmentDone" using d by (auto simp: stage_def has_segments_def)
    ultimately show ?thesis by (auto simp: ListJobSegments_def filter_empty_conv)
  qed
  have "returns (at_stage i t n J (\<lambda>_. SegmentPending)) (bindE (enqueue_unfinished orc i ss 0) (\<lambda>queued. if queued = 0 then finish orc job else returnE ()))
      (\<lambda>_. at_stage i t n J (\<lambda>_. SegmentPending))" if "filter (\<lambda>x. s_Status x \<noteq> SegmentDone) ss \<noteq> []"
    by (rule returns_bindE [OF enqueue_unfinished_returns], rule returns_assuming) (use that in \<open>auto intro: returns_returnE\<close>)
  then show "returns (\<lambda>d. ss = ListJobSegments i d \<and> at_stage i t n J (\<lambda>_. SegmentPending) d)
      (bindE (enqueue_unfinished orc i ss 0) (\<lambda>queued. if queued = 0 then finish orc job else returnE ())) (\<lambda>_. at_stage i t n J (\<lambda>_. SegmentPending))"
    using some unfolding returns_def by blast
qed

lemma handleJob_returns:
  assumes "qe_JobID entry = i"
  shows "returns (at_stage i t 0 StatusQueued (\<lambda>_. SegmentPending)) (handleJob orc entry)
    (\<lambda>_. at_stage i t (int (length pieces)) StatusSynthesizing (\<lambda>_. SegmentPending))"
proof -
  let ?n = "int (length pieces)"
  have create: "returns (at_stage i t 0 StatusSegmenting (\<lambda>_. SegmentPending)) (create_segments orc job 0 pieces)
      (\<lambda>_. at_stage i t ?n StatusSegmenting (\<lambda>_. SegmentPending))" if "j_ID job = i" for job
    using create_segments_returns [of 0 job i t pieces] that by simp
  have fan: "returns (at_stage i t ?n StatusSynthesizing (\<lambda>_. SegmentPending)) (bindE (ByID (o_E orc) i) (fanOut orc))
      (\<lambda>_. at_stage i t ?n StatusSynthesizing (\<lambda>_. SegmentPending))"
    by (rule returns_bindE [OF ByID_returns]) (intro returns_assuming fanOut_returns, use some_pieces(1) in auto)
  have seg: "returns (at_stage i t 0 StatusSegmenting (\<lambda>_. SegmentPending)) (segment_job orc job)
      (\<lambda>_. at_stage i t ?n StatusSynthesizing (\<lambda>_. SegmentPending))" if job: "j_ID job = i" "j_TenantID job = t" for job
    unfolding segment_job_def job
    by (rule returns_catchE [OF GetText_returns], rule returns_assuming, hypsubst, rule returns_catchE [OF engine_returns [OF split]],
        rule returns_assuming, hypsubst)
      (use some_pieces in \<open>auto intro!: returns_bindE [OF create [OF job(1)]] returns_bindE [OF SetSegmentsTotal_returns] fan\<close>)
  show ?thesis
    unfolding handleJob_def assms
  proof (rule returns_catchE [OF ByID_returns], intro returns_assuming)
    fix job :: Job
    assume job: "j_ID job = i" "j_TenantID job = t" "j_Status job = StatusQueued"
    show "returns (at_stage i t 0 StatusQueued (\<lambda>_. SegmentPending)) (if Terminal (j_Status job) then returnE ()
        else if j_Status job = StatusSynthesizing \<or> j_Status job = StatusMerging then fanOut orc job
        else if j_Status job \<noteq> StatusSegmenting then bindE (Transition (o_E orc) (j_ID job) StatusQueued StatusSegmenting)
          (\<lambda>moved. if \<not> moved then returnE () else segment_job orc job)
        else segment_job orc job) (\<lambda>_. at_stage i t ?n StatusSynthesizing (\<lambda>_. SegmentPending))"
      unfolding job by (simp, rule returns_bindE [OF Transition_segmenting_returns], rule returns_assuming, simp, rule seg [OF job(1,2)])
  qed
qed

lemma Ack_returns: "returns P (ignoreE (Ack (o_E orc) a)) (\<lambda>_. P)"
  unfolding Ack_def by (intro returns_ignoreE returns_jcall) simp

lemma remaining_segments_complete:
  assumes "distinct qs" and "set qs = {q. 0 \<le> q \<and> q < int (length pieces) \<and> st q \<noteq> SegmentDone}" and "\<forall>q \<in> set qs. st q = SegmentPending" and "qs \<noteq> []"
  shows "returns (at_stage i t (int (length pieces)) StatusSynthesizing st)
    (handle_entries orc (handleSegment orc) (map (\<lambda>q. \<lparr>qe_ID = a, qe_JobID = i, qe_Seq = q, qe_Stream = ''jobs:segments''\<rparr>) qs)) (\<lambda>_. completed i)"
  using assms
proof (induction qs arbitrary: st)
  case (Cons q qs)
  let ?n = "int (length pieces)" and ?st = "st(q := SegmentDone)"
  have q: "0 \<le> q" "q < ?n" "st q = SegmentPending" using Cons.prems by auto
  have one: "returns (at_stage i t ?n StatusSynthesizing st) (ignoreE (handleSegment orc \<lparr>qe_ID = a, qe_JobID = i, qe_Seq = q, qe_Stream = ''jobs:segments''\<rparr>)) (\<lambda>_. after i t ?n ?st)"
    using q by (intro returns_ignoreE handleSegment_returns) auto
  have "returns (after i t ?n ?st) (handle_entries orc (handleSegment orc) (map (\<lambda>q. \<lparr>qe_ID = a, qe_JobID = i, qe_Seq = q, qe_Stream = ''jobs:segments''\<rparr>) qs)) (\<lambda>_. completed i)"
  proof (cases "qs = []")
    case True
    then have "\<forall>q'. 0 \<le> q' \<and> q' < ?n \<longrightarrow> ?st q' = SegmentDone" using Cons.prems(2) by auto
    then have ended: "after i t ?n ?st d \<Longrightarrow> completed i d" for d unfolding after_def by argo
    show ?thesis unfolding True list.map(1) handle_entries.simps(1) by (rule returns_returnE) (rule ended)
  next
    case False
    then obtain q' where "q' \<in> set qs" by (cases qs) auto
    then have "0 \<le> q' \<and> q' < ?n \<and> ?st q' \<noteq> SegmentDone" using Cons.prems by auto
    then have "\<not> (\<forall>q'. 0 \<le> q' \<and> q' < ?n \<longrightarrow> ?st q' = SegmentDone)" by blast
    then have "after i t ?n ?st d \<Longrightarrow> at_stage i t ?n StatusSynthesizing ?st d" for d by (simp only: after_def if_False)
    moreover have "returns (at_stage i t ?n StatusSynthesizing ?st) (handle_entries orc (handleSegment orc) (map (\<lambda>q. \<lparr>qe_ID = a, qe_JobID = i, qe_Seq = q, qe_Stream = ''jobs:segments''\<rparr>) qs))
        (\<lambda>_. completed i)"
      using Cons.prems False by (intro Cons.IH) auto
    ultimately show ?thesis by (rule returns_pre [rotated])
  qed
  then show ?case by (simp, intro returns_bindE [OF one] returns_bindE [OF Ack_returns])
qed simp

lemma drive_returns:
  assumes "distinct order" and "set order = {0 ..< int (length pieces)}" and "qe_JobID entry = i"
  shows "returns (at_stage i t 0 StatusQueued (\<lambda>_. SegmentPending))
    (bindE (handleJob orc entry) (\<lambda>_. handle_entries orc (handleSegment orc) (map (\<lambda>q. \<lparr>qe_ID = a, qe_JobID = i, qe_Seq = q, qe_Stream = ''jobs:segments''\<rparr>) order)))
    (\<lambda>_. completed i)"
proof (rule returns_bindE [OF handleJob_returns [OF assms(3)]], rule remaining_segments_complete)
  show "order \<noteq> []" using assms(2) some_pieces(1) by (metis atLeastLessThan_empty_iff list.set(1) length_greater_0_conv of_nat_0_less_iff)
qed (use assms in auto)

end

section \<open>A deployment with one live worker\<close>

definition live_pool :: "worker list" where
  "live_pool = [(newWorker ''w1'')\<lparr>w_state := (empty_snapshot ''w1'')\<lparr>Ready := True, SlotsTotal := 4\<rparr>\<rparr>]"

definition live_engine :: "cache_data svc worker_engine" where
  "live_engine = example_engine\<lparr>we_turns := (\<lambda>_. [\<lparr>t_check = 0, t_others = id, t_try = 0, t_left = 0, t_wake = TimerFired\<rparr>]),
     we_Synthesize := (\<lambda>_ _ _. Inr [Frame [1, 2] False, Frame [3, 4] True]), we_Merge := (\<lambda>_ _ _. Inr (''output.mp3'', 100)),
     we_sha := (\<lambda>s. replicate 32 (of_nat (length s)))\<rparr>"

definition engine_idle :: "'w engine_state \<Rightarrow> bool" where
  "engine_idle x \<longleftrightarrow> d_pool (es_disp x) = live_pool \<and> inFlight (es_disp x) = (\<lambda>_. 0) \<and> waiting (es_disp x) = (\<lambda>_. 0)"

lemma live_reserve:
  assumes "d_pool d = live_pool" and "inFlight d = (\<lambda>_. 0)" and "waiting d = (\<lambda>_. 0)"
  obtains r d' where "Reserve now ClassBatch [\<lparr>t_check = 0, t_others = id, t_try = 0, t_left = 0, t_wake = TimerFired\<rparr>] d = (Some (Reserved r 0), d')"
    and "d_pool (Release_reservation now' r d') = live_pool" and "inFlight (Release_reservation now' r d') = (\<lambda>_. 0)"
    and "waiting (Release_reservation now' r d') = (\<lambda>_. 0)"
proof -
  have cap: "capacity live_pool = (4, 4)"
    by (simp add: capacity_def Snapshots_def live_pool_def newWorker_def empty_snapshot_def Free_def MaxInt32_def)
  have pick: "Pick live_pool = Inr \<lparr>c_Addr = ''w1'', c_ModelVersion = []\<rparr>"
    by (simp add: Pick_def live_pool_def newWorker_def empty_snapshot_def Selectable_def Free_def MaxInt32_def Let_def)
  have freed: "NoteSlotFreed ''w1'' (NoteSlotTaken ''w1'' live_pool) = live_pool"
    by (simp add: NoteSlotFreed_def NoteSlotTaken_def live_pool_def newWorker_def empty_snapshot_def adjust_worker_def MaxInt32_def Let_def)
  show ?thesis
    by (rule that [of "\<lparr>r_Client = \<lparr>c_Addr = ''w1'', c_ModelVersion = []\<rparr>, r_class = ClassBatch, r_started = 0\<rparr>"
          "d\<lparr>inFlight := (\<lambda>_. 0)(ClassBatch := 1), d_pool := NoteSlotTaken ''w1'' live_pool, waiting := (\<lambda>_. 0)(ClassBatch := 0)\<rparr>"])
      (simp_all add: Reserve_def shouldRefuse_def assms cap tryReserve_def enter_def leave_def pick reservedForStream_def
        StreamReservePercent_def Release_reservation_def releaseSlot_def freed Let_def fun_eq_iff)
qed

lemma input_segment_keys: "InputKey us t i \<noteq> SegmentKey us' t' i' seq"
  by (rule notI, drule arg_cong [where f = last]) (simp add: InputKey_def SegmentKey_def)

definition idle_from :: "(uuid \<Rightarrow> string) \<Rightarrow> 'w engine_state job_world \<Rightarrow> 'w engine_state job_world \<Rightarrow> bool" where
  "idle_from us d0 d \<longleftrightarrow> engine_idle (jw_engine d) \<and> same_tables us d0 d"

lemma idle_from_engine: "idle_from us d0 d \<Longrightarrow> engine_idle x \<Longrightarrow> idle_from us d0 (d\<lparr>jw_engine := x\<rparr>)"
  by (simp add: idle_from_def same_tables_def)

lemma with_batch_returns:
  assumes "\<And>n c. \<exists>a. k n c = Inr a \<and> R a"
  shows "returns (idle_from us d0) (with_batch live_engine k) (\<lambda>a d. R a \<and> idle_from us d0 d)"
  unfolding returns_def
proof (intro allI impI)
  fix s :: "cache_data svc eworld"
  assume idle: "idle_from us d0 (svc_data s)"
  let ?x = "tick (jw_engine (svc_data s))"
  let ?turns = "[\<lparr>t_check = 0, t_others = id, t_try = 0, t_left = 0, t_wake = TimerFired\<rparr>]"
  have turns: "we_turns live_engine n = ?turns" "we_now live_engine n = int n" for n by (simp_all add: live_engine_def example_engine_def)
  obtain r d' where res: "Reserve (int (es_step ?x)) ClassBatch ?turns (es_disp ?x) = (Some (Reserved r 0), d')"
    and rel: "d_pool (Release_reservation (int (Suc (es_step ?x))) r d') = live_pool" "inFlight (Release_reservation (int (Suc (es_step ?x))) r d') = (\<lambda>_. 0)"
      "waiting (Release_reservation (int (Suc (es_step ?x))) r d') = (\<lambda>_. 0)"
    by (rule live_reserve [of "es_disp ?x" "int (es_step ?x)" "int (Suc (es_step ?x))"])
      (use idle in \<open>simp_all add: idle_from_def engine_idle_def tick_def\<close>)
  obtain a where a: "k (es_step ?x) (r_Client r) = Inr a" "R a" using assms by blast
  have "engine_idle (?x\<lparr>es_disp := Release_reservation (int (Suc (es_step ?x))) r d'\<rparr>)" using rel by (simp add: engine_idle_def)
  from idle_from_engine [OF idle this] show "\<exists>a s'. with_batch live_engine k s = (Inr a, s') \<and> R a \<and> idle_from us d0 (svc_data s')"
    using a by (simp add: with_batch_def on_engine_def Let_def turns res del: of_nat_Suc)
qed

lemma fromCache_returns: "returns (idle_from us d0) (engine_fromCache live_engine key) (\<lambda>p d. p \<noteq> Some [] \<and> idle_from us d0 d)"
  unfolding returns_def
proof (intro allI impI)
  fix s :: "cache_data svc eworld"
  assume idle: "idle_from us d0 (svc_data s)"
  let ?x = "jw_engine (svc_data s)"
  obtain r c where "Lookup (we_cache live_engine) key (es_cache ?x) = (r, c)" by fastforce
  moreover have "engine_idle (?x\<lparr>es_cache := c\<rparr>)" using idle by (simp add: idle_from_def engine_idle_def)
  ultimately show "\<exists>p s'. engine_fromCache live_engine key s = (Inr p, s') \<and> p \<noteq> Some [] \<and> idle_from us d0 (svc_data s')"
    using idle_from_engine [OF idle] by (cases r) (auto simp: engine_fromCache_def catchE_def on_cache_def on_engine_def returnE_def)
qed

lemma put_returns:
  "returns (idle_from us d0) (PutSegment us' (we_E live_engine) t i seq pcm) (\<lambda>k d. k \<noteq> [] \<and> idle_from us d0 d)"
proof -
  have "same_tables us d0 d \<Longrightarrow> same_tables us d0 (d\<lparr>jw_objects := (jw_objects d)(SegmentKey us' t i seq \<mapsto> pcm)\<rparr>)" for d :: "cache_data svc engine_state job_world"
    using input_segment_keys by (simp add: same_tables_def)
  moreover have "SegmentKey us' t i seq \<noteq> []" by (simp add: SegmentKey_def)
  ultimately show ?thesis
    by (auto simp: returns_def PutSegment_def put_object_def jcall_def call_def bindE_def returnE_def live_engine_def example_engine_def quiet_def
        Let_def idle_from_def)
qed

lemma store_returns: "returns (idle_from us d0) (catchE (on_cache (cache_Store m k e body)) (\<lambda>_. returnE a) (\<lambda>_. returnE a))
   (\<lambda>r d. r = a \<and> idle_from us d0 d)"
  unfolding returns_def
proof (intro allI impI)
  fix s :: "'a eworld"
  assume idle: "idle_from us d0 (svc_data s)"
  let ?x = "jw_engine (svc_data s)"
  obtain r c where "cache_Store m k e body (es_cache ?x) = (r, c)" by fastforce
  moreover have "engine_idle (?x\<lparr>es_cache := c\<rparr>)" using idle by (simp add: idle_from_def engine_idle_def)
  ultimately show "\<exists>r s'. catchE (on_cache (cache_Store m k e body)) (\<lambda>_. returnE a) (\<lambda>_. returnE a) s = (Inr r, s') \<and> r = a \<and> idle_from us d0 (svc_data s')"
    using idle_from_engine [OF idle] by (cases r) (simp_all add: catchE_def on_cache_def on_engine_def returnE_def)
qed

lemma Synthesize_returns: "returns (idle_from us d0) (engine_Synthesize live_engine job seq piece) (\<lambda>r d. sr_S3Key r \<noteq> [] \<and> idle_from us d0 d)"
proof -
  have miss: "returns (idle_from us d0) (synthesize live_engine job piece) (\<lambda>_. idle_from us d0)"
    unfolding synthesize_def
    by (rule returns_weaken [OF with_batch_returns [where R = "\<lambda>_. True"]]) (auto simp: live_engine_def)
  have "returns (idle_from us d0) (case cached of
          Some pcm \<Rightarrow> bindE (PutSegment (we_us live_engine) (we_E live_engine) (j_TenantID job) (j_ID job) seq pcm) (\<lambda>s3Key.
            returnE \<lparr>sr_S3Key = s3Key, sr_DurationMS = DurationMS (int (length pcm)) (j_SampleRate job), sr_Cached = True\<rparr>)
        | None \<Rightarrow> bindE (synthesize live_engine job piece) (\<lambda>pcm.
            bindE (PutSegment (we_us live_engine) (we_E live_engine) (j_TenantID job) (j_ID job) seq pcm) (\<lambda>s3Key.
            let durationMS = DurationMS (int (length pcm)) (j_SampleRate job);
                result = \<lparr>sr_S3Key = s3Key, sr_DurationMS = durationMS, sr_Cached = False\<rparr>
            in catchE (on_cache (cache_Store (we_cache live_engine) key
                 \<lparr>S3Key = [], Format = ''pcm16'', entry_DurationMS = durationMS, Bytes = int (length pcm)\<rparr> pcm))
                 (\<lambda>_. returnE result) (\<lambda>_. returnE result))))
      (\<lambda>r d. sr_S3Key r \<noteq> [] \<and> idle_from us d0 d)" for cached key
  proof (cases cached)
    case None
    then show ?thesis
      by (simp add: Let_def, intro returns_bindE [OF miss] returns_bindE [OF put_returns] returns_assuming returns_weaken [OF store_returns]) simp
  next
    case (Some pcm)
    then show ?thesis
      by (simp, intro returns_bindE [OF put_returns] returns_assuming returns_returnE) simp
  qed
  then show ?thesis
    unfolding engine_Synthesize_def Let_def by (intro returns_bindE [OF fromCache_returns] returns_assuming)
qed

definition live_orchestrator :: "cache_data svc engine_state orchestrator" where
  "live_orchestrator = worker_orchestrator live_engine True (\<lambda>_. ''error'') (\<lambda>_. True)"

interpretation live: reliable live_orchestrator engine_idle str "[str]" "''output.mp3''" 100 for str
proof
  have eng: "eng_Split (o_engine live_orchestrator) = Split live_engine" "eng_Synthesize (o_engine live_orchestrator) = engine_Synthesize live_engine"
    "eng_Merge (o_engine live_orchestrator) = Merge live_engine"
    by (simp_all add: live_orchestrator_def worker_orchestrator_def WorkerEngine_def)
  show "returns (\<lambda>d. engine_idle (jw_engine d) \<and> same_tables (o_us live_orchestrator) d0 d) (eng_Split (o_engine live_orchestrator) job str)
      (\<lambda>ps d. ps = [str] \<and> engine_idle (jw_engine d) \<and> same_tables (o_us live_orchestrator) d0 d)" for d0 job
    unfolding eng Split_def idle_from_def [symmetric] by (rule with_batch_returns) (simp add: live_engine_def example_engine_def)
  show "returns (\<lambda>d. engine_idle (jw_engine d) \<and> same_tables (o_us live_orchestrator) d0 d) (eng_Synthesize (o_engine live_orchestrator) job seq piece)
      (\<lambda>r d. sr_S3Key r \<noteq> [] \<and> engine_idle (jw_engine d) \<and> same_tables (o_us live_orchestrator) d0 d)" for d0 job seq piece
    unfolding eng idle_from_def [symmetric] by (rule Synthesize_returns)
  have "returns (idle_from us d0) (Merge live_engine job keys) (\<lambda>r d. r = (''output.mp3'', 100) \<and> idle_from us d0 d)" for us d0 job keys
    unfolding Merge_def Let_def
    by (rule returns_bindE [OF with_batch_returns [where R = "\<lambda>r. r = (''output.mp3'', 100)"]])
      (auto simp: live_engine_def MaxInt32_def intro!: returns_assuming returns_returnE)
  then show "returns (\<lambda>d. engine_idle (jw_engine d) \<and> same_tables (o_us live_orchestrator) d0 d) (eng_Merge (o_engine live_orchestrator) job keys)
      (\<lambda>r d. r = (''output.mp3'', 100) \<and> engine_idle (jw_engine d) \<and> same_tables (o_us live_orchestrator) d0 d)" for d0 job keys
    unfolding eng idle_from_def [symmetric] .
qed (simp_all add: live_orchestrator_def worker_orchestrator_def live_engine_def example_engine_def quiet_def job_MaxTextChars_def)

section \<open>Properties\<close>

text \<open>
  C3: a job whose services answer is completed (US-14). In a deployment where calls arrive and the
  engine answers, handling the entry of a queued job with its text in store and then its segment
  entries, in any order, ends with the job completed and carrying the output key and duration of
  the merge.
\<close>

theorem job_runs_to_completion:
  assumes "reliable orc ok str pieces out dur" and "tables_ok (svc_data s)" and "ok (jw_engine (svc_data s))"
    and "jw_objects (svc_data s) (InputKey (o_us orc) (j_TenantID j) (j_ID j)) = Some body" and "of_bytes body = str"
    and "j \<in> set (jw_jobs (svc_data s))" and "j_Status j = StatusQueued" and "\<forall>x \<in> set (jw_segs (svc_data s)). s_JobID x \<noteq> j_ID j"
    and "distinct order" and "set order = {0 ..< int (length pieces)}"
  shows "\<exists>s'. bindE (handleJob orc \<lparr>qe_ID = a, qe_JobID = j_ID j, qe_Seq = 0, qe_Stream = ''jobs:pending''\<rparr>)
        (\<lambda>_. handle_entries orc (handleSegment orc) (map (\<lambda>q. \<lparr>qe_ID = a, qe_JobID = j_ID j, qe_Seq = q, qe_Stream = ''jobs:segments''\<rparr>) order)) s = (Inr (), s')
      \<and> (\<exists>j' \<in> set (jw_jobs (svc_data s')). j_ID j' = j_ID j \<and> j_Status j' = StatusCompleted \<and> j_OutputS3Key j' = out \<and> j_DurationMS j' = Some dur)"
proof -
  have "stage (o_us orc) ok str (j_ID j) (j_TenantID j) 0 StatusQueued (\<lambda>_. SegmentPending) (svc_data s)"
    using assms(2-8) by (auto simp: stage_def in_status_def has_segments_def)
  then show ?thesis
    using reliable.drive_returns [OF assms(1,9,10), of "\<lparr>qe_ID = a, qe_JobID = j_ID j, qe_Seq = 0, qe_Stream = ''jobs:pending''\<rparr>" "j_ID j" "j_TenantID j" a]
    by (auto simp: returns_def)
qed

theorem job_runs_to_completion_witness:
  "\<exists>s'. bindE (handleJob live_orchestrator \<lparr>qe_ID = ''1'', qe_JobID = 5, qe_Seq = 0, qe_Stream = ''jobs:pending''\<rparr>)
        (\<lambda>_. handle_entries live_orchestrator (handleSegment live_orchestrator) [\<lparr>qe_ID = ''1'', qe_JobID = 5, qe_Seq = 0, qe_Stream = ''jobs:segments''\<rparr>])
      \<lparr>svc_data = (svc_data (example_world [example_job 5 7]))\<lparr>jw_objects := (\<lambda>_. Some []),
         jw_engine := \<lparr>es_disp = NewDispatcher live_pool, es_cache = \<lparr>svc_data = \<lparr>cd_hashes = (\<lambda>_. []), cd_objects = Map.empty, cd_rows = []\<rparr>,
           svc_calls = 0\<rparr>, es_step = 0\<rparr>\<rparr>, svc_calls = 0\<rparr> = (Inr (), s')
      \<and> (\<exists>j' \<in> set (jw_jobs (svc_data s')). j_ID j' = 5 \<and> j_Status j' = StatusCompleted \<and> j_OutputS3Key j' = ''output.mp3'' \<and> j_DurationMS j' = Some 100)"
  (is "\<exists>s'. bindE _ _ ?s = _ \<and> _")
proof -
  have ok: "tables_ok (svc_data ?s)"
    by (simp add: tables_ok_def keys_ok_def row_ok_def done_count_def example_world_def example_job_def)
  have set: "{0 ..< 1 :: int} = {0}" by auto
  show ?thesis
    using job_runs_to_completion [OF live.reliable_axioms [of "[]"] ok, of "example_job 5 7" "[]" "[0]" "''1''"]
    by (simp add: engine_idle_def NewDispatcher_def of_bytes_def example_world_def example_job_def set)
qed

end
