(* ===== verification/Job_Merge.thy ===== *)
theory Job_Merge
  imports Job_Completion
begin

text \<open>
  What a completed job was made of: a job becomes completed only through a merge of all its
  segments, each done, in the order of their sequence numbers, whatever calls fail on the way.
\<close>

section \<open>The rows of one job\<close>

definition rows_of :: "uuid \<Rightarrow> 'x job_world \<Rightarrow> Job list" where
  "rows_of i d = filter (\<lambda>j. j_ID j = i) (jw_jobs d)"

definition segs_of :: "uuid \<Rightarrow> 'x job_world \<Rightarrow> Segment list" where
  "segs_of i d = filter (\<lambda>s. s_JobID s = i) (jw_segs d)"

definition untouched :: "uuid \<Rightarrow> 'x job_world svc \<Rightarrow> 'x job_world svc \<Rightarrow> bool" where
  "untouched i s t \<longleftrightarrow> rows_of i (svc_data t) = rows_of i (svc_data s) \<and> segs_of i (svc_data t) = segs_of i (svc_data s)"

definition not_completed :: "uuid \<Rightarrow> 'x job_world \<Rightarrow> bool" where
  "not_completed i d \<longleftrightarrow> (\<forall>j \<in> set (rows_of i d). j_Status j \<noteq> StatusCompleted)"

definition short_of_completion :: "uuid \<Rightarrow> 'x job_world svc \<Rightarrow> 'x job_world svc \<Rightarrow> bool" where
  "short_of_completion i s t \<longleftrightarrow> (not_completed i (svc_data s) \<longrightarrow> not_completed i (svc_data t)) \<and> segs_of i (svc_data t) = segs_of i (svc_data s)"

interpretation untouched: state_order "untouched i" for i
  by unfold_locales (simp_all add: untouched_def)

interpretation short: state_order "short_of_completion i" for i
  by unfold_locales (auto simp: short_of_completion_def)

lemma untouched_short: "untouched i s t \<Longrightarrow> short_of_completion i s t"
  by (simp add: untouched_def short_of_completion_def not_completed_def)

lemma keeps_mono: "keeps R m \<Longrightarrow> (\<And>s t. R s t \<Longrightarrow> R' s t) \<Longrightarrow> keeps R' m"
  by (simp add: keeps_def)

text \<open>Others and the merge leave the rows of this job alone: nobody else works on the same job.\<close>

locale own_job =
  fixes orc :: "'x orchestrator" and i :: uuid
  assumes others_elsewhere: "rows_of i (je_others (o_E orc) n d) = rows_of i d" "segs_of i (je_others (o_E orc) n d) = segs_of i d"
    and merge_elsewhere: "keeps (untouched i) (eng_Merge (o_engine orc) job keys)"
begin

lemma jcall_data:
  obtains d where "rows_of i d = rows_of i (svc_data s)" and "segs_of i d = segs_of i (svc_data s)"
    and "svc_data (snd (jcall (o_E orc) f s)) = d \<or> (\<exists>now. svc_data (snd (jcall (o_E orc) f s)) = snd (f now d))"
proof -
  let ?s0 = "s\<lparr>svc_data := je_others (o_E orc) (svc_calls s) (svc_data s)\<rparr>"
  have "svc_data (snd (jcall (o_E orc) f s)) = svc_data ?s0 \<or> svc_data (snd (jcall (o_E orc) f s)) = snd (f (je_clk (o_E orc) (svc_calls s)) (svc_data ?s0))"
    unfolding jcall_def by (rule call_data)
  then show ?thesis using others_elsewhere by (intro that [of "svc_data ?s0"]) auto
qed

lemma jcall_untouched:
  assumes "\<And>now d. rows_of i (snd (f now d)) = rows_of i d \<and> segs_of i (snd (f now d)) = segs_of i d"
  shows "keeps (untouched i) (jcall (o_E orc) f)"
  unfolding keeps_def
proof
  fix s :: "'x job_world svc"
  obtain d where "rows_of i d = rows_of i (svc_data s)" "segs_of i d = segs_of i (svc_data s)"
    "svc_data (snd (jcall (o_E orc) f s)) = d \<or> (\<exists>now. svc_data (snd (jcall (o_E orc) f s)) = snd (f now d))" by (rule jcall_data)
  then show "untouched i s (snd (jcall (o_E orc) f s))" using assms by (auto simp: untouched_def)
qed

lemma query_untouched [keeps_intros]: "keeps (untouched i) (query (o_E orc) f)"
  unfolding query_def by (rule jcall_untouched) simp

lemma ending_untouched [keeps_intros]: "keeps (untouched i) (cleanUp orc job)" "keeps (untouched i) (notify orc k)"
proof -
  have "keeps (untouched i) (DeleteText (o_us orc) (o_E orc) (j_TenantID job) (j_ID job))"
    unfolding DeleteText_def by (rule jcall_untouched) (simp add: rows_of_def segs_of_def)
  then show "keeps (untouched i) (cleanUp orc job)" unfolding cleanUp_def by (intro keeps_intros)
  have "keeps (untouched i) (JobFinished job)" for job
    by (simp add: keeps_def JobFinished_def untouched_def rows_of_def segs_of_def)
  then show "keeps (untouched i) (notify orc k)" unfolding notify_def ByID_def by (intro keeps_intros)
qed

lemma exec_update_short:
  assumes "\<And>now j. w j \<Longrightarrow> j_ID (f now j) = j_ID j \<and> j_Status (f now j) \<noteq> StatusCompleted"
  shows "keeps (short_of_completion i) (exec_rows (o_E orc) (\<lambda>now. update_jobs now w (f now)))"
proof -
  have step: "(not_completed i d \<longrightarrow> not_completed i (snd (update_jobs now w (f now) d))) \<and> segs_of i (snd (update_jobs now w (f now) d)) = segs_of i d" for now d
  proof
    show "not_completed i d \<longrightarrow> not_completed i (snd (update_jobs now w (f now) d))"
    proof (intro impI, unfold not_completed_def, intro ballI)
      fix j' assume nc: "\<forall>j \<in> set (rows_of i d). j_Status j \<noteq> StatusCompleted" and "j' \<in> set (rows_of i (snd (update_jobs now w (f now) d)))"
      then obtain j where "j \<in> set (jw_jobs d)" "j' = (if w j then (f now j)\<lparr>j_UpdatedAt := now\<rparr> else j)" "j_ID j' = i"
        unfolding rows_of_def update_jobs_sel by (auto simp only: set_filter mem_Collect_eq in_sql_update)
      then show "j_Status j' \<noteq> StatusCompleted" using assms [of j now] nc by (auto simp: rows_of_def split: if_splits)
    qed
  qed (simp add: segs_of_def update_jobs_sel)
  have "keeps (short_of_completion i) (jcall (o_E orc) (\<lambda>now d. let (n, d') = update_jobs now w (f now) d in (Inr n, d')))"
    unfolding keeps_def
  proof
    fix s :: "'x job_world svc"
    obtain d where "rows_of i d = rows_of i (svc_data s)" "segs_of i d = segs_of i (svc_data s)"
      "svc_data (snd (jcall (o_E orc) (\<lambda>now d. let (n, d') = update_jobs now w (f now) d in (Inr n, d')) s)) = d
        \<or> (\<exists>now. svc_data (snd (jcall (o_E orc) (\<lambda>now d. let (n, d') = update_jobs now w (f now) d in (Inr n, d')) s)) = snd (update_jobs now w (f now) d))"
      by (rule jcall_data [of s "\<lambda>now d. let (n, d') = update_jobs now w (f now) d in (Inr n, d')"]) (auto simp: case_prod_beta Let_def)
    then show "short_of_completion i s (snd (jcall (o_E orc) (\<lambda>now d. let (n, d') = update_jobs now w (f now) d in (Inr n, d')) s))"
      using step [of d] by (auto simp: short_of_completion_def not_completed_def)
  qed
  then show ?thesis unfolding exec_rows_def by (intro short.keeps_bindE short.keeps_returnE)
qed

lemma failJob_short: "keeps (short_of_completion i) (failJob orc job reason)"
proof -
  have "keeps (short_of_completion i) (exec_rows (o_E orc) (FailJob (j_ID job) reason))"
    unfolding FailJob_def by (rule exec_update_short) simp
  moreover have "keeps (short_of_completion i) (cleanUp orc job)" "keeps (short_of_completion i) (notify orc (j_ID job))"
    using ending_untouched keeps_mono untouched_short by blast+
  ultimately show ?thesis unfolding failJob_def Repo_Fail_def by (intro short.keeps_bindE short.keeps_returnE)
qed

lemma Transition_short: "to \<noteq> StatusCompleted \<Longrightarrow> keeps (short_of_completion i) (Transition (o_E orc) k from to)"
  unfolding Transition_def TransitionJob_def by (rule exec_update_short) simp

lemma Repo_Complete_row:
  assumes "Repo_Complete (o_E orc) i out dur s = (r, s')" and "not_completed i (svc_data s)"
    and "j' \<in> set (rows_of i (svc_data s'))" and "j_Status j' = StatusCompleted"
  shows "j_OutputS3Key j' = out \<and> j_DurationMS j' = Some dur"
proof -
  let ?f = "\<lambda>now d. let (n, d') = CompleteJob i out dur now d in (Inr n :: job_error + nat, d')"
  have s': "svc_data s' = svc_data (snd (jcall (o_E orc) ?f s))"
    using assms(1) by (auto simp: Repo_Complete_def exec_rows_def bindE_def returnE_def split: prod.splits sum.splits)
  obtain d where d: "rows_of i d = rows_of i (svc_data s)"
    "svc_data s' = d \<or> (\<exists>now. svc_data s' = snd (?f now d))"
    unfolding s' by (rule jcall_data [of s ?f])
  have "svc_data s' \<noteq> d" using assms(2-4) d(1) by (auto simp: not_completed_def)
  then obtain now where now: "svc_data s' = snd (CompleteJob i out dur now d)" using d(2) by (auto simp: case_prod_beta Let_def)
  obtain j where j: "j \<in> set (jw_jobs d)" and j': "j_ID j' = i"
    "j' = (if j_ID j = i \<and> j_Status j = StatusMerging then j\<lparr>j_Status := StatusCompleted, j_OutputS3Key := out, j_DurationMS := Some dur,
       j_CompletedAt := Some now, j_UpdatedAt := now\<rparr> else j)"
    using assms(3) unfolding now rows_of_def CompleteJob_def update_jobs_sel by (auto simp only: set_filter mem_Collect_eq in_sql_update)
  show ?thesis
  proof (cases "j_ID j = i \<and> j_Status j = StatusMerging")
    case False
    then have "j \<in> set (rows_of i d)" "j' = j" using j j' by (auto simp: rows_of_def)
    then show ?thesis using assms(2,4) d(1) by (auto simp: not_completed_def)
  qed (use j' in simp)
qed

lemma finish_merges:
  assumes run: "finish orc job s = (r, s')" and job: "j_ID job = i" and before: "not_completed i (svc_data s)"
    and after: "j' \<in> set (rows_of i (svc_data s'))" "j_Status j' = StatusCompleted"
  obtains s1 s2 where "eng_Merge (o_engine orc) job (map s_S3Key (ListJobSegments i (svc_data s))) s1 = (Inr (j_OutputS3Key j', the (j_DurationMS j')), s2)"
    and "\<forall>x \<in> set (segs_of i (svc_data s)). s_Status x = SegmentDone \<and> s_S3Key x \<noteq> []"
proof -
  have stop: False if "short_of_completion i s s'"
    using that before after by (auto simp: short_of_completion_def not_completed_def)
  obtain r1 s1 where 1: "Transition (o_E orc) i StatusSynthesizing StatusMerging s = (r1, s1)" by fastforce
  have k1: "short_of_completion i s s1" using keepsD [OF Transition_short 1] by simp
  obtain r2 s2 where 2: "Segments (o_E orc) i s1 = (r2, s2)" by fastforce
  have k2: "short_of_completion i s s2"
    using keepsD [OF query_untouched, of _ s1 r2 s2] 2 untouched_short k1 short.R_trans unfolding Segments_def by blast
  have live: "\<not> Terminal (j_Status job)" using run stop by (auto simp: finish_def returnE_def short.R_refl split: if_splits)
  obtain moved where r1: "r1 = Inr moved" and cont: "moved \<or> j_Status job = StatusMerging"
    using run 1 live stop k1 by (cases r1) (auto simp: finish_def job bindE_def returnE_def split: if_splits)
  obtain ss where r2: "r2 = Inr ss"
    using run 1 2 live cont stop k2 by (cases r2) (auto simp: finish_def job bindE_def r1)
  have ss: "ss = sort_key s_Seq (segs_of i (svc_data s2))"
    using 2 unfolding r2 Segments_def query_def jcall_def ListJobSegments_def segs_of_def [symmetric]
    by (auto dest!: call_ok)
  have segs: "segs_of i (svc_data s2) = segs_of i (svc_data s)" using k2 by (simp add: short_of_completion_def)
  have none: "find (\<lambda>x. s_Status x \<noteq> SegmentDone \<or> s_S3Key x = []) ss = None"
  proof (rule ccontr)
    assume "find (\<lambda>x. s_Status x \<noteq> SegmentDone \<or> s_S3Key x = []) ss \<noteq> None"
    then obtain x where x: "find (\<lambda>x. s_Status x \<noteq> SegmentDone \<or> s_S3Key x = []) ss = Some x" by blast
    have "failJob orc job (''segment '' @ Itoa (s_Seq x) @ '' is not ready to merge'') s2 = (r, s')"
      using run live cont x 1 2 by (auto simp: finish_def job bindE_def r1 r2)
    from keepsD [OF failJob_short this] k2 show False using stop short.R_trans by blast
  qed
  obtain r3 s3 where 3: "eng_Merge (o_engine orc) job (map s_S3Key ss) s2 = (r3, s3)" by fastforce
  have k3: "short_of_completion i s s3"
    using keepsD [OF merge_elsewhere 3] untouched_short k2 short.R_trans by blast
  obtain out dur where r3: "r3 = Inr (out, dur)"
  proof (cases r3)
    case (Inl e)
    have "failJob orc job (''merge failed: '' @ o_err orc e) s3 = (r, s')"
      using run live cont none 1 2 3 Inl by (auto simp: finish_def job bindE_def catchE_def r1 r2)
    from keepsD [OF failJob_short this] k3 show ?thesis using stop short.R_trans by blast
  qed (use that in \<open>cases "projr r3", auto\<close>)
  obtain r4 s4 where 4: "Repo_Complete (o_E orc) i out dur s3 = (r4, s4)" by fastforce
  have rest: "untouched i s4 s'"
  proof (cases r4)
    case (Inl e)
    then show ?thesis using run live cont none 1 2 3 4 by (auto simp: finish_def job bindE_def catchE_def r1 r2 r3 untouched.R_refl)
  next
    case (Inr b)
    then have "bindE (cleanUp orc job) (\<lambda>_. notify orc i) s4 = (r, s')"
      using run live cont none 1 2 3 4 by (auto simp: finish_def job bindE_def [of "Transition _ _ _ _"] bindE_def [of "Segments _ _"]
          bindE_def [of "Repo_Complete _ _ _ _"] catchE_def r1 r2 r3)
    then show ?thesis by (rule keepsD [rotated]) (intro untouched.keeps_bindE ending_untouched)
  qed
  have "j_OutputS3Key j' = out \<and> j_DurationMS j' = Some dur"
    using Repo_Complete_row [OF 4] k3 before after rest by (simp add: short_of_completion_def untouched_def)
  moreover have "map s_S3Key ss = map s_S3Key (ListJobSegments i (svc_data s))"
    by (simp only: ss segs ListJobSegments_def) (simp only: segs_of_def)
  moreover have "\<forall>x \<in> set (segs_of i (svc_data s)). s_Status x = SegmentDone \<and> s_S3Key x \<noteq> []"
    using none unfolding find_None_iff ss segs by auto
  ultimately show ?thesis using that 3 r3 by simp
qed

end

lemma with_batch_untouched: "keeps (untouched i) (with_batch W k)"
  unfolding with_batch_def keeps_def on_engine_def by (auto simp: untouched_def rows_of_def segs_of_def case_prod_beta Let_def)

interpretation worker_own: own_job "worker_orchestrator (W\<lparr>we_E := quiet F clk\<rparr>) notifier err sleep" i for W F clk notifier err sleep i
proof
  show "keeps (untouched i) (eng_Merge (o_engine (worker_orchestrator (W\<lparr>we_E := quiet F clk\<rparr>) notifier err sleep)) job keys)" for job keys
    by (simp add: worker_orchestrator_def WorkerEngine_def Merge_def Let_def)
      (intro untouched.keeps_bindE with_batch_untouched untouched.keeps_prod untouched.keeps_returnE)
qed (simp_all add: worker_orchestrator_def quiet_def)

section \<open>Properties\<close>


definition merge_job :: Job where
  "merge_job = (example_job 5 7)\<lparr>j_Status := StatusSynthesizing, j_SegmentsTotal := Some 1, j_SegmentsDone := 1\<rparr>"

definition merge_world :: "cache_data svc engine_state job_world svc" where
  "merge_world = \<lparr>svc_data = (svc_data (example_world [merge_job]))\<lparr>jw_objects := (\<lambda>_. Some []),
     jw_segs := [\<lparr>s_JobID = 5, s_Seq = 0, s_TextHash = [], s_Chars = 1, s_Status = SegmentDone, s_Attempts = 1, s_S3Key = ''seg0'', s_LastError = []\<rparr>],
     jw_engine := \<lparr>es_disp = NewDispatcher live_pool, es_cache = \<lparr>svc_data = \<lparr>cd_hashes = (\<lambda>_. []), cd_objects = Map.empty, cd_rows = []\<rparr>,
       svc_calls = 0\<rparr>, es_step = 0\<rparr>\<rparr>, svc_calls = 0\<rparr>"


text \<open>A segment left \<open>running\<close> by a consumer that died is never claimed again: the claim only takes pending and failed rows.\<close>

lemma running_segment_never_reclaimed:
  assumes "tables_ok d" and "x \<in> set (jw_segs d)" and "s_Status x = SegmentRunning"
  shows "ClaimJobSegment (s_JobID x) (s_Seq x) d = (0, d)"
proof -
  have "\<not> (\<exists>y \<in> set (jw_segs d). s_JobID y = s_JobID x \<and> s_Seq y = s_Seq x \<and> (s_Status y = SegmentPending \<or> s_Status y = SegmentFailed))"
  proof
    assume "\<exists>y \<in> set (jw_segs d). s_JobID y = s_JobID x \<and> s_Seq y = s_Seq x \<and> (s_Status y = SegmentPending \<or> s_Status y = SegmentFailed)"
    then obtain y where y: "y \<in> set (jw_segs d)" "s_JobID y = s_JobID x" "s_Seq y = s_Seq x" "s_Status y \<noteq> SegmentRunning" by auto
    have "inj_on (\<lambda>s. (s_JobID s, s_Seq s)) (set (jw_segs d))" using assms(1) by (simp add: tables_ok_def keys_ok_def distinct_map)
    then have "y = x" using y(1-3) assms(2) by (auto dest: inj_onD)
    then show False using y(4) assms(3) by simp
  qed
  from this and sql_update_no_match [OF this] show ?thesis
    by (auto simp: ClaimJobSegment_def update_segs_def sql_affected_def filter_empty_conv)
qed

end
