(* ===== verification/Webhook.thy ===== *)
theory Webhook
  imports Job_Service
begin

text \<open>
  Webhooks: the guard against server-side request forgery (\<^verbatim>\<open>internal/jobs/webhook_guard.go\<close>) with
  the address predicates of Go's \<^verbatim>\<open>net/netip\<close> that it uses, and the signed delivery
  (\<^verbatim>\<open>internal/webhook/webhook.go\<close>). URL and address parsing, DNS, HMAC, JSON and the HTTP post are
  parameters.
\<close>

unbundle bit_operations_syntax

section \<open>Addresses (\<^verbatim>\<open>net/netip\<close>)\<close>

text \<open>An IPv6 address carries a zone, empty for none.\<close>

datatype ip_addr = InvalidAddr | V4 "32 word" | V6 "128 word" string

definition prefix4 :: "32 word \<Rightarrow> nat \<Rightarrow> 32 word \<Rightarrow> bool" where
  "prefix4 base n a \<longleftrightarrow> drop_bit (32 - n) a = drop_bit (32 - n) base"

definition prefix6 :: "128 word \<Rightarrow> nat \<Rightarrow> 128 word \<Rightarrow> bool" where
  "prefix6 base n a \<longleftrightarrow> drop_bit (128 - n) a = drop_bit (128 - n) base"

fun Unmap :: "ip_addr \<Rightarrow> ip_addr" where
  "Unmap (V6 a z) = (if drop_bit 32 a = 0xFFFF then V4 (ucast a) else V6 a z)"
| "Unmap a = a"

fun IsLoopback :: "ip_addr \<Rightarrow> bool" where
  "IsLoopback (V4 a) = (drop_bit 24 a = 127)"
| "IsLoopback (V6 a z) = (a = 1)"
| "IsLoopback InvalidAddr = False"

fun IsPrivate :: "ip_addr \<Rightarrow> bool" where
  "IsPrivate (V4 a) = (drop_bit 24 a = 10 \<or> drop_bit 20 a = 0xAC1 \<or> drop_bit 16 a = 0xC0A8)"
| "IsPrivate (V6 a z) = (drop_bit 120 a AND 0xFE = 0xFC)"
| "IsPrivate InvalidAddr = False"

fun IsLinkLocalUnicast :: "ip_addr \<Rightarrow> bool" where
  "IsLinkLocalUnicast (V4 a) = (drop_bit 16 a = 0xA9FE)"
| "IsLinkLocalUnicast (V6 a z) = (drop_bit 112 a AND 0xFFC0 = 0xFE80)"
| "IsLinkLocalUnicast InvalidAddr = False"

fun IsLinkLocalMulticast :: "ip_addr \<Rightarrow> bool" where
  "IsLinkLocalMulticast (V4 a) = (drop_bit 8 a = 0xE00000)"
| "IsLinkLocalMulticast (V6 a z) = (drop_bit 112 a AND 0xFF0F = 0xFF02)"
| "IsLinkLocalMulticast InvalidAddr = False"

fun IsMulticast :: "ip_addr \<Rightarrow> bool" where
  "IsMulticast (V4 a) = (drop_bit 28 a = 0xE)"
| "IsMulticast (V6 a z) = (drop_bit 120 a = 0xFF)"
| "IsMulticast InvalidAddr = False"

text \<open>A comparison of whole addresses, zone included.\<close>

definition IsUnspecified :: "ip_addr \<Rightarrow> bool" where
  "IsUnspecified a \<longleftrightarrow> a = V4 0 \<or> a = V6 0 []"

section \<open>The guard (\<^verbatim>\<open>webhook_guard.go\<close>)\<close>

text \<open>A prefix contains no address with a zone.\<close>

definition checkAddr :: "ip_addr \<Rightarrow> job_error + unit" where
  "checkAddr addr0 =
    (let addr = Unmap addr0
     in if IsLoopback addr then Inl ErrWebhookRejected
        else if IsPrivate addr then Inl ErrWebhookRejected
        else if IsLinkLocalUnicast addr \<or> IsLinkLocalMulticast addr then Inl ErrWebhookRejected
        else if IsMulticast addr then Inl ErrWebhookRejected
        else if IsUnspecified addr then Inl ErrWebhookRejected
        else case addr of
          InvalidAddr \<Rightarrow> Inl ErrWebhookRejected
        | V4 a \<Rightarrow> if prefix4 0x64400000 10 a then Inl ErrWebhookRejected else Inr ()
        | V6 a z \<Rightarrow> if z = [] \<and> prefix6 0xFC000000000000000000000000000000 7 a then Inl ErrWebhookRejected else Inr ())"

fun check_all :: "ip_addr list \<Rightarrow> job_error + unit" where
  "check_all [] = Inr ()"
| "check_all (a # addrs) = (case checkAddr a of Inl e \<Rightarrow> Inl e | Inr _ \<Rightarrow> check_all addrs)"

text \<open>
  \<open>url_parse\<close> gives scheme and hostname, \<open>parse_addr\<close> reads a literal address, \<open>resolve\<close> is one DNS
  answer within the timeout.
\<close>

definition Check :: "(string \<Rightarrow> (string \<times> string) option) \<Rightarrow> (string \<Rightarrow> ip_addr option) \<Rightarrow> (string \<Rightarrow> ip_addr list option)
    \<Rightarrow> string \<Rightarrow> job_error + unit" where
  "Check url_parse parse_addr resolve rawURL =
    (if rawURL = [] then Inr ()
     else case url_parse rawURL of None \<Rightarrow> Inl ErrWebhookRejected
     | Some (scheme, host) \<Rightarrow>
       if \<not> EqualFold scheme ''https'' then Inl ErrWebhookRejected
       else if host = [] then Inl ErrWebhookRejected
       else case parse_addr host of Some a \<Rightarrow> checkAddr a
         | None \<Rightarrow> (case resolve host of None \<Rightarrow> Inl ErrWebhookRejected
             | Some addrs \<Rightarrow> if addrs = [] then Inl ErrWebhookRejected else check_all addrs))"

section \<open>Delivery (\<^verbatim>\<open>webhook.go\<close>)\<close>

definition MaxAttempts :: nat where "MaxAttempts = 5"

definition Backoff :: "int list" where
  "Backoff = [5 * 10 ^ 9, 30 * 10 ^ 9, 120 * 10 ^ 9, 600 * 10 ^ 9]"

fun status_text :: "Status \<Rightarrow> string" where
  "status_text StatusQueued = ''queued''"
| "status_text StatusSegmenting = ''segmenting''"
| "status_text StatusSynthesizing = ''synthesizing''"
| "status_text StatusMerging = ''merging''"
| "status_text StatusCompleted = ''completed''"
| "status_text StatusFailed = ''failed''"
| "status_text StatusCancelled = ''cancelled''"

record Payload =
  pl_Event :: string
  pl_JobID :: string
  pl_Status :: string
  pl_DurationMS :: "int option"
  pl_TotalChars :: int
  pl_Error :: string
  pl_Metadata :: metadata
  pl_CompletedAt :: "int option"

definition Signature :: "(string \<Rightarrow> string \<Rightarrow> byte list) \<Rightarrow> string \<Rightarrow> string \<Rightarrow> string \<Rightarrow> string" where
  "Signature hmac secret timestamp payload = ''sha256='' @ hex (hmac secret (timestamp @ ''.'' @ payload))"

definition VerifySignature :: "(string \<Rightarrow> string \<Rightarrow> byte list) \<Rightarrow> string \<Rightarrow> string \<Rightarrow> string \<Rightarrow> string \<Rightarrow> bool" where
  "VerifySignature hmac secret timestamp payload presented \<longleftrightarrow> Signature hmac secret timestamp payload = presented"

record post_request =
  pr_URL :: string
  pr_Body :: string
  pr_Timestamp :: string
  pr_Signature :: string
  pr_Delivery :: string

text \<open>
  What the outside does at attempt \<open>n\<close>: the clock in seconds, the answer to the post (a status, or
  none when the request cannot be built or sent), the DNS answer the guard sees and whether a wait
  of the given length is left undisturbed.
\<close>

record outside =
  x_url_parse :: "string \<Rightarrow> (string \<times> string) option"
  x_parse_addr :: "string \<Rightarrow> ip_addr option"
  x_resolve :: "nat \<Rightarrow> string \<Rightarrow> ip_addr list option"
  x_unix :: "nat \<Rightarrow> int"
  x_reply :: "nat \<Rightarrow> post_request \<Rightarrow> int option"
  x_sleep :: "nat \<Rightarrow> int \<Rightarrow> bool"

definition guard_at :: "outside \<Rightarrow> nat \<Rightarrow> string \<Rightarrow> job_error + unit" where
  "guard_at X n = Check (x_url_parse X) (x_parse_addr X) (x_resolve X n)"

definition succeeded :: "outside \<Rightarrow> nat \<Rightarrow> post_request \<Rightarrow> bool" where
  "succeeded X n req = (case x_reply X n req of Some st \<Rightarrow> 200 \<le> st \<and> st < 300 | None \<Rightarrow> False)"

definition post_of :: "(string \<Rightarrow> string \<Rightarrow> byte list) \<Rightarrow> string \<Rightarrow> (uuid \<Rightarrow> string) \<Rightarrow> outside \<Rightarrow> Job \<Rightarrow> string \<Rightarrow> nat \<Rightarrow> post_request" where
  "post_of hmac secret us X job payload attempt =
    (let timestamp = Itoa (x_unix X attempt)
     in \<lparr>pr_URL = j_WebhookURL job, pr_Body = payload, pr_Timestamp = timestamp, pr_Signature = Signature hmac secret timestamp payload,
         pr_Delivery = us (j_ID job) @ ''-'' @ Itoa (int attempt)\<rparr>)"

datatype delivery = Delivered | GaveUp | RejectedURL | ShutDown | Unbuilt

text \<open>The loop of \<^verbatim>\<open>deliver\<close> from attempt \<open>n\<close> on with \<open>left\<close> attempts left, and the requests it posts.\<close>

fun deliver_loop :: "(string \<Rightarrow> string \<Rightarrow> byte list) \<Rightarrow> string \<Rightarrow> (uuid \<Rightarrow> string) \<Rightarrow> outside \<Rightarrow> Job \<Rightarrow> string \<Rightarrow> nat \<Rightarrow> nat
    \<Rightarrow> delivery \<times> post_request list" where
  "deliver_loop hmac secret us X job payload n 0 = (GaveUp, [])"
| "deliver_loop hmac secret us X job payload n (Suc left) =
    (case guard_at X n (j_WebhookURL job) of Inl _ \<Rightarrow> (RejectedURL, [])
     | Inr _ \<Rightarrow>
        let req = post_of hmac secret us X job payload n
        in if succeeded X n req then (Delivered, [req])
           else if n = MaxAttempts then (GaveUp, [req])
           else if \<not> x_sleep X n (Backoff ! min (n - 1) (length Backoff - 1)) then (ShutDown, [req])
           else let (out, reqs) = deliver_loop hmac secret us X job payload (Suc n) left in (out, req # reqs))"

definition payload_of :: "(uuid \<Rightarrow> string) \<Rightarrow> Job \<Rightarrow> Payload" where
  "payload_of us job = \<lparr>pl_Event = ''job.'' @ status_text (j_Status job), pl_JobID = us (j_ID job), pl_Status = status_text (j_Status job),
     pl_DurationMS = j_DurationMS job, pl_TotalChars = j_TotalChars job, pl_Error = j_Error job,
     pl_Metadata = PublicMetadata (j_Metadata job), pl_CompletedAt = j_CompletedAt job\<rparr>"

definition deliver :: "(string \<Rightarrow> string \<Rightarrow> byte list) \<Rightarrow> string \<Rightarrow> (uuid \<Rightarrow> string) \<Rightarrow> (Payload \<Rightarrow> string option) \<Rightarrow> outside \<Rightarrow> Job
    \<Rightarrow> delivery \<times> post_request list" where
  "deliver hmac secret us marshal X job =
    (case marshal (payload_of us job) of None \<Rightarrow> (Unbuilt, [])
     | Some payload \<Rightarrow> deliver_loop hmac secret us X job payload 1 MaxAttempts)"

definition Webhook_JobFinished :: "(string \<Rightarrow> string \<Rightarrow> byte list) \<Rightarrow> string \<Rightarrow> (uuid \<Rightarrow> string) \<Rightarrow> (Payload \<Rightarrow> string option) \<Rightarrow> outside \<Rightarrow> Job
    \<Rightarrow> (delivery \<times> post_request list) option" where
  "Webhook_JobFinished hmac secret us marshal X job =
    (if j_WebhookURL job = [] then None else Some (deliver hmac secret us marshal X job))"

section \<open>The guard against an address-range specification\<close>

text \<open>The addresses a webhook may reach, as intervals of the address read as a number.\<close>

definition infrastructure4 :: "int \<Rightarrow> bool" where
  "infrastructure4 n \<longleftrightarrow> n = 0
     \<or> (0x0A000000 \<le> n \<and> n < 0x0B000000)    \<comment> \<open>10.0.0.0/8\<close>
     \<or> (0x64400000 \<le> n \<and> n < 0x64800000)    \<comment> \<open>100.64.0.0/10\<close>
     \<or> (0x7F000000 \<le> n \<and> n < 0x80000000)    \<comment> \<open>127.0.0.0/8\<close>
     \<or> (0xA9FE0000 \<le> n \<and> n < 0xA9FF0000)    \<comment> \<open>169.254.0.0/16\<close>
     \<or> (0xAC100000 \<le> n \<and> n < 0xAC200000)    \<comment> \<open>172.16.0.0/12\<close>
     \<or> (0xC0A80000 \<le> n \<and> n < 0xC0A90000)    \<comment> \<open>192.168.0.0/16\<close>
     \<or> (0xE0000000 \<le> n \<and> n < 0xF0000000)    \<comment> \<open>224.0.0.0/4\<close>"

definition infrastructure6 :: "int \<Rightarrow> bool" where
  "infrastructure6 n \<longleftrightarrow> n = 1
     \<or> (0x7E * 2 ^ 121 \<le> n \<and> n < 0x7F * 2 ^ 121)     \<comment> \<open>\<open>fc00::/7\<close>\<close>
     \<or> (0x3FA * 2 ^ 118 \<le> n \<and> n < 0x3FB * 2 ^ 118)   \<comment> \<open>\<open>fe80::/10\<close>\<close>
     \<or> 0xFF * 2 ^ 120 \<le> n                             \<comment> \<open>\<open>ff00::/8\<close>\<close>"

fun public :: "ip_addr \<Rightarrow> bool" where
  "public InvalidAddr = False"
| "public (V4 a) = (\<not> infrastructure4 (uint a))"
| "public (V6 a z) =
    (if 0xFFFF * 2 ^ 32 \<le> uint a \<and> uint a < 0x10000 * 2 ^ 32 then \<not> infrastructure4 (uint a mod 2 ^ 32)
     else \<not> infrastructure6 (uint a) \<and> \<not> (a = 0 \<and> z = []))"

lemma div_interval:
  fixes x p q :: int
  assumes "0 < p"
  shows "x div p = q \<longleftrightarrow> q * p \<le> x \<and> x < (q + 1) * p"
proof
  assume "x div p = q"
  then have "q * p + x mod p = x" using div_mult_mod_eq [of x p] by simp
  moreover have "0 \<le> x mod p" "x mod p < p" using assms by simp_all
  ultimately show "q * p \<le> x \<and> x < (q + 1) * p" by (simp add: distrib_right)
next
  assume "q * p \<le> x \<and> x < (q + 1) * p"
  then show "x div p = q" using int_div_pos_eq [of x p q "x - q * p"] by (simp add: algebra_simps)
qed

lemma drop_bit_interval:
  fixes a :: "'a :: len word"
  shows "drop_bit k a = c \<longleftrightarrow> uint c * 2 ^ k \<le> uint a \<and> uint a < (uint c + 1) * 2 ^ k"
proof -
  have "uint (drop_bit k a) = drop_bit k (uint a)"
    by (simp add: unsigned_drop_bit_eq take_bit_int_eq_self)
  also have "\<dots> = uint a div 2 ^ k" by (rule drop_bit_eq_div)
  finally have "uint (drop_bit k a) = uint a div 2 ^ k" .
  then have "drop_bit k a = c \<longleftrightarrow> uint a div 2 ^ k = uint c" by (simp add: word_uint_eq_iff)
  then show ?thesis using div_interval [of "2 ^ k" "uint a" "uint c"] by simp
qed

lemma masked_prefix:
  fixes a c :: "'a :: len word"
  assumes "k + j + m = LENGTH('a)" and "take_bit m c = c"
  shows "drop_bit k a AND push_bit j (mask m) = push_bit j c \<longleftrightarrow> drop_bit (k + j) a = c"
proof -
  have top: "drop_bit k a AND push_bit j (mask m) = push_bit j (drop_bit (k + j) a)"
    using assms(1) by (intro bit_word_eqI) (auto simp: bit_simps dest: bit_imp_le_length)
  have inj: "drop_bit j (push_bit j x) = x" if "take_bit m x = x" for x :: "'a word"
  proof (rule bit_word_eqI)
    fix n assume "n < LENGTH('a)"
    have "bit x n \<longrightarrow> n < m" using that by (metis bit_take_bit_iff)
    then show "bit (drop_bit j (push_bit j x)) n = bit x n" using assms(1) by (auto simp: bit_simps)
  qed
  have "take_bit m (drop_bit (k + j) a) = drop_bit (k + j) a"
    using assms(1) by (intro bit_word_eqI) (auto simp: bit_simps dest: bit_imp_le_length)
  then show ?thesis unfolding top using inj assms(2) by metis
qed

lemma masks6:
  "(0xFE :: 128 word) = push_bit 1 (mask 7)" "(0xFC :: 128 word) = push_bit 1 0x7E"
  "(0xFFC0 :: 128 word) = push_bit 6 (mask 10)" "(0xFE80 :: 128 word) = push_bit 6 0x3FA"
  "(0xFF00 :: 128 word) = push_bit 8 (mask 8)" "(0xFF00 :: 128 word) = push_bit 8 0xFF"
  by (simp_all add: push_bit_eq_mult mask_eq_exp_minus_1)

lemma private6: "drop_bit 120 a AND 0xFE = 0xFC \<longleftrightarrow> drop_bit 121 a = 0x7E" for a :: "128 word"
  using masked_prefix [of 120 1 7 "0x7E" a] unfolding masks6(1,2) by (simp add: take_bit_eq_mod)

lemma link_local6: "drop_bit 112 a AND 0xFFC0 = 0xFE80 \<longleftrightarrow> drop_bit 118 a = 0x3FA" for a :: "128 word"
  using masked_prefix [of 112 6 10 "0x3FA" a] unfolding masks6(3,4) by (simp add: take_bit_eq_mod)

lemma link_multicast6: "drop_bit 112 a AND 0xFF0F = 0xFF02 \<Longrightarrow> drop_bit 120 a = 0xFF" for a :: "128 word"
proof -
  assume "drop_bit 112 a AND 0xFF0F = 0xFF02"
  then have "(drop_bit 112 a AND 0xFF0F) AND 0xFF00 = 0xFF02 AND 0xFF00" by simp
  then have "drop_bit 112 a AND 0xFF00 = 0xFF00" by (simp add: and.assoc)
  then have "drop_bit 112 a AND push_bit 8 (mask 8) = push_bit 8 0xFF"
    unfolding masks6(5) [symmetric] masks6(6) [symmetric] .
  then show ?thesis using masked_prefix [of 112 8 8 "0xFF" a] by (simp add: take_bit_eq_mod)
qed

lemma check4: "checkAddr (V4 a) = Inr () \<longleftrightarrow> \<not> infrastructure4 (uint a)"
proof -
  have "IsLinkLocalMulticast (V4 a) \<Longrightarrow> IsMulticast (V4 a)" by (simp add: drop_bit_interval)
  moreover have "IsUnspecified (V4 a) \<longleftrightarrow> uint a = 0" by (simp add: IsUnspecified_def uint_0_iff)
  moreover have "prefix4 0x64400000 10 a \<longleftrightarrow> 0x64400000 \<le> uint a \<and> uint a < 0x64800000"
    by (simp add: prefix4_def drop_bit_interval)
  moreover have "IsLoopback (V4 a) \<longleftrightarrow> 0x7F000000 \<le> uint a \<and> uint a < 0x80000000" by (simp add: drop_bit_interval)
  moreover have "IsPrivate (V4 a) \<longleftrightarrow> (0x0A000000 \<le> uint a \<and> uint a < 0x0B000000) \<or> (0xAC100000 \<le> uint a \<and> uint a < 0xAC200000)
      \<or> (0xC0A80000 \<le> uint a \<and> uint a < 0xC0A90000)" by (simp add: drop_bit_interval)
  moreover have "IsLinkLocalUnicast (V4 a) \<longleftrightarrow> 0xA9FE0000 \<le> uint a \<and> uint a < 0xA9FF0000" by (simp add: drop_bit_interval)
  moreover have "IsMulticast (V4 a) \<longleftrightarrow> 0xE0000000 \<le> uint a \<and> uint a < 0xF0000000" by (simp add: drop_bit_interval)
  ultimately show ?thesis unfolding checkAddr_def infrastructure4_def by (auto simp: Let_def simp del: IsLoopback.simps IsPrivate.simps
      IsLinkLocalUnicast.simps IsLinkLocalMulticast.simps IsMulticast.simps)
qed

lemma check6:
  assumes "drop_bit 32 a \<noteq> 0xFFFF"
  shows "checkAddr (V6 a z) = Inr () \<longleftrightarrow> \<not> infrastructure6 (uint a) \<and> \<not> (a = 0 \<and> z = [])"
proof -
  have "IsLinkLocalMulticast (V6 a z) \<Longrightarrow> IsMulticast (V6 a z)" using link_multicast6 by simp
  moreover have "IsUnspecified (V6 a z) \<longleftrightarrow> a = 0 \<and> z = []" by (auto simp: IsUnspecified_def)
  moreover have "prefix6 0xFC000000000000000000000000000000 7 a \<Longrightarrow> IsPrivate (V6 a z)"
    by (simp add: prefix6_def private6)
  moreover have "IsLoopback (V6 a z) \<longleftrightarrow> uint a = 1" by (simp add: word_uint_eq_iff)
  moreover have "IsPrivate (V6 a z) \<longleftrightarrow> 0x7E * 2 ^ 121 \<le> uint a \<and> uint a < 0x7F * 2 ^ 121" by (simp add: private6 drop_bit_interval)
  moreover have "IsLinkLocalUnicast (V6 a z) \<longleftrightarrow> 0x3FA * 2 ^ 118 \<le> uint a \<and> uint a < 0x3FB * 2 ^ 118" by (simp add: link_local6 drop_bit_interval)
  moreover have "IsMulticast (V6 a z) \<longleftrightarrow> 0xFF * 2 ^ 120 \<le> uint a"
    using uint_lt2p [of a] by (simp add: drop_bit_interval)
  ultimately show ?thesis using assms unfolding checkAddr_def infrastructure6_def by (auto simp: Let_def simp del: IsLoopback.simps IsPrivate.simps
      IsLinkLocalUnicast.simps IsLinkLocalMulticast.simps IsMulticast.simps)
qed

lemma check_mapped:
  assumes "drop_bit 32 a = (0xFFFF :: 128 word)"
  shows "checkAddr (V6 a z) = checkAddr (V4 (ucast a))" and "uint (ucast a :: 32 word) = uint a mod 2 ^ 32"
  using assms by (simp_all add: checkAddr_def unsigned_ucast_eq take_bit_eq_mod)

lemma checkAddr_public: "checkAddr a = Inr () \<longleftrightarrow> public a"
proof (cases a)
  case (V4 b)
  then show ?thesis using check4 [of b] by simp
next
  case (V6 b z)
  then show ?thesis
    using check6 [of b z] check_mapped(1) [of b z] check_mapped(2) [of b] check4 [of "ucast b"]
    by (cases "drop_bit 32 b = 0xFFFF") (auto simp: drop_bit_interval)
next
  case InvalidAddr
  then show ?thesis by (simp add: checkAddr_def IsUnspecified_def)
qed

lemma check_all_public: "check_all addrs = Inr () \<longleftrightarrow> list_all public addrs"
  by (induction addrs) (auto simp: checkAddr_public [symmetric] split: sum.split)

section \<open>Delivery\<close>

text \<open>The posts of one delivery, from attempt \<open>n\<close> on.\<close>

fun posts_ok :: "(nat \<Rightarrow> post_request) \<Rightarrow> (nat \<Rightarrow> bool) \<Rightarrow> (nat \<Rightarrow> post_request \<Rightarrow> bool) \<Rightarrow> bool \<Rightarrow> nat \<Rightarrow> post_request list \<Rightarrow> bool" where
  "posts_ok req guarded good delivered n [] \<longleftrightarrow> \<not> delivered"
| "posts_ok req guarded good delivered n (r # rs) \<longleftrightarrow> r = req n \<and> guarded n
     \<and> (if rs = [] then good n r = delivered else \<not> good n r \<and> posts_ok req guarded good delivered (Suc n) rs)"

lemma deliver_loop_posts:
  assumes "deliver_loop hmac secret us X job payload n left = (out, reqs)"
  shows "length reqs \<le> left \<and> posts_ok (post_of hmac secret us X job payload) (\<lambda>n. guard_at X n (j_WebhookURL job) = Inr ())
    (succeeded X) (out = Delivered) n reqs"
  using assms
proof (induction left arbitrary: n out reqs)
  case (Suc left)
  obtain out' reqs' where tail: "deliver_loop hmac secret us X job payload (Suc n) left = (out', reqs')" by fastforce
  show ?case using Suc.prems Suc.IH [OF tail] tail
    by (cases reqs') (auto simp: Let_def split: sum.splits if_splits)
qed simp

lemma posts_ok_nth:
  assumes "posts_ok req guarded good delivered n rs" "i < length rs"
  shows "rs ! i = req (n + i) \<and> guarded (n + i) \<and> (good (n + i) (rs ! i) \<longleftrightarrow> delivered \<and> Suc i = length rs)"
  using assms
proof (induction rs arbitrary: n i)
  case (Cons r rs)
  show ?case
  proof (cases i)
    case 0
    then show ?thesis using Cons.prems by (cases rs) auto
  next
    case (Suc k)
    then have "rs \<noteq> []" using Cons.prems by auto
    then show ?thesis using Cons.prems Cons.IH [of "Suc n" k] Suc by (auto simp del: posts_ok.simps simp: posts_ok.simps(2))
  qed
qed simp

lemma posts_ok_nonempty: "posts_ok req guarded good True n rs \<Longrightarrow> rs \<noteq> []"
  by (cases rs) auto

lemma dot_not_in_Itoa: "CHR ''.'' \<notin> set (Itoa i)"
  using Itoa_chars [of "CHR ''.''" i] by auto

lemma split_at_dot:
  assumes "a @ CHR ''.'' # b = c @ CHR ''.'' # d" "CHR ''.'' \<notin> set a" "CHR ''.'' \<notin> set c"
  shows "a = c \<and> b = d"
  using assms
proof (induction a arbitrary: c)
  case Nil
  then show ?case by (cases c) auto
next
  case (Cons x a)
  then show ?case by (cases c) auto
qed

definition signed_text :: "string \<Rightarrow> string \<Rightarrow> string" where
  "signed_text ts body = ts @ ''.'' @ body"

lemma signature_binds:
  assumes "VerifySignature hmac secret ts' body' (Signature hmac secret ts body)" "CHR ''.'' \<notin> set ts" "CHR ''.'' \<notin> set ts'"
  shows "ts' = ts \<and> body' = body \<or> signed_text ts' body' \<noteq> signed_text ts body
    \<and> hmac secret (signed_text ts' body') = hmac secret (signed_text ts body)"
proof -
  have "hmac secret (signed_text ts' body') = hmac secret (signed_text ts body)"
    using assms(1) hex_inj by (simp add: Signature_def VerifySignature_def signed_text_def)
  moreover have "signed_text ts' body' = signed_text ts body \<Longrightarrow> ts' = ts \<and> body' = body"
    using split_at_dot [of ts' body' ts body] assms(2,3) by (simp add: signed_text_def)
  ultimately show ?thesis by blast
qed

lemma post_signature:
  assumes r_def: "r = post_of hmac secret us X job payload n"
  shows "VerifySignature hmac secret (pr_Timestamp r) (pr_Body r) (pr_Signature r)"
    and "CHR ''.'' \<notin> set ts \<and> VerifySignature hmac secret ts body (pr_Signature r) \<Longrightarrow>
      ts = pr_Timestamp r \<and> body = pr_Body r \<or> signed_text ts body \<noteq> signed_text (pr_Timestamp r) (pr_Body r)
      \<and> hmac secret (signed_text ts body) = hmac secret (signed_text (pr_Timestamp r) (pr_Body r))"
  using signature_binds [of hmac secret ts body "pr_Timestamp r" "pr_Body r"] dot_not_in_Itoa
  by (simp_all add: r_def post_of_def Let_def VerifySignature_def)

section \<open>Properties\<close>



definition example_finished :: Job where
  "example_finished = \<lparr>j_ID = 1, j_TenantID = 7, j_KeyID = 1, j_IdempotencyKey = [], j_Status = StatusCompleted, j_VoiceID = ''v'',
     j_Format = ''wav'', j_SampleRate = 24000, j_Normalize = True, j_Params = example_params, j_TotalChars = 3, j_SegmentsTotal = Some 1,
     j_SegmentsDone = 1, j_OutputS3Key = ''o'', j_DurationMS = Some 5, j_WebhookURL = ''https://a'', j_Metadata = [], j_Error = [],
     j_CreatedAt = 0, j_UpdatedAt = 0, j_CompletedAt = Some 9\<rparr>"

definition example_outside :: outside where
  "example_outside = \<lparr>x_url_parse = (\<lambda>_. Some (''https'', ''a'')), x_parse_addr = (\<lambda>_. None), x_resolve = (\<lambda>_ _. Some [V4 0x08080808]),
     x_unix = (\<lambda>n. int n), x_reply = (\<lambda>n _. if n = 1 then Some 500 else Some 204), x_sleep = (\<lambda>_ _. True)\<rparr>"

definition example_hmac :: "string \<Rightarrow> string \<Rightarrow> byte list" where
  "example_hmac secret m = map of_char (secret @ m)"


text \<open>An unspecified IPv6 address with a zone passes, although \<^verbatim>\<open>::\<close> itself does not.\<close>

lemma zoned_unspecified_passes: "checkAddr (V6 0 ''lo'') = Inr () \<and> checkAddr (V6 0 []) = Inl ErrWebhookRejected"
  by (simp add: checkAddr_def IsUnspecified_def prefix6_def)

end
