(* ===== verification/Voices.thy ===== *)
theory Voices
  imports Dispatch Go_Strings "HOL-Library.List_Lexorder"
begin

text \<open>
  The voice catalogue: package \<^verbatim>\<open>internal/voices\<close>, its repository
  (\<^verbatim>\<open>storage/postgres/voicerepo.go\<close>) and its statements (\<^verbatim>\<open>storage/postgres/db/voices.sql.go\<close>).
  The lemmas show which voices a caller can reach and what following the fleet does to the table.
\<close>

section \<open>Data\<close>

record VoiceRow =
  vr_ID :: string
  vr_DisplayName :: string
  vr_Gender :: "string option"
  vr_Tags :: "string list"
  vr_ModelVersion :: string
  vr_TenantID :: "uuid option"
  vr_Enabled :: bool

record Voice =
  v_ID :: string
  v_DisplayName :: string
  v_Gender :: string
  v_Tags :: "string list"
  v_ModelVersion :: string
  v_TenantID :: "uuid option"
  v_Enabled :: bool
  v_PreviewURL :: string

datatype voice_error = ErrUnknown | VoicesFailed

section \<open>Statements (\<^verbatim>\<open>voices.sql.go\<close>) and repository (\<^verbatim>\<open>voicerepo.go\<close>)\<close>

text \<open>Strings are ordered by their bytes, as Go compares them.\<close>

definition bytes_of :: "string \<Rightarrow> nat list" where
  "bytes_of s = map of_char s"

definition ListPublicVoices :: "VoiceRow list \<Rightarrow> VoiceRow list" where
  "ListPublicVoices rows = sort_key (\<lambda>r. bytes_of (vr_ID r)) (filter (\<lambda>r. vr_TenantID r = None \<and> vr_Enabled r) rows)"

definition ListVoicesForTenant :: "uuid \<Rightarrow> VoiceRow list \<Rightarrow> VoiceRow list" where
  "ListVoicesForTenant t rows = sort_key (\<lambda>r. bytes_of (vr_ID r))
     (filter (\<lambda>r. vr_Enabled r \<and> (vr_TenantID r = None \<or> vr_TenantID r = Some t)) rows)"

definition UpsertVoice :: "VoiceRow \<Rightarrow> VoiceRow list \<Rightarrow> VoiceRow list" where
  "UpsertVoice arg rows =
    (if \<exists>r \<in> set rows. vr_ID r = vr_ID arg
     then sql_update (\<lambda>r. vr_ID r = vr_ID arg)
       (\<lambda>r. r\<lparr>vr_DisplayName := vr_DisplayName arg, vr_ModelVersion := vr_ModelVersion arg, vr_Enabled := vr_Enabled arg\<rparr>) rows
     else rows @ [arg])"

definition nullableString :: "string \<Rightarrow> string option" where
  "nullableString v = (if v = [] then None else Some v)"

definition toVoice :: "VoiceRow \<Rightarrow> Voice" where
  "toVoice row = \<lparr>v_ID = vr_ID row, v_DisplayName = vr_DisplayName row,
     v_Gender = (case vr_Gender row of None \<Rightarrow> [] | Some g \<Rightarrow> g), v_Tags = vr_Tags row, v_ModelVersion = vr_ModelVersion row,
     v_TenantID = vr_TenantID row, v_Enabled = vr_Enabled row, v_PreviewURL = []\<rparr>"

definition toVoices :: "VoiceRow list \<Rightarrow> Voice list" where
  "toVoices rows = map toVoice rows"

definition VoiceRepo_List :: "(nat \<Rightarrow> fault) \<Rightarrow> uuid option \<Rightarrow> (VoiceRow list svc, voice_error, Voice list) op" where
  "VoiceRepo_List F tenantID =
    call F VoicesFailed (\<lambda>rows. (Inr (toVoices (case tenantID of None \<Rightarrow> ListPublicVoices rows | Some t \<Rightarrow> ListVoicesForTenant t rows)), rows))"

definition VoiceRepo_Upsert :: "(nat \<Rightarrow> fault) \<Rightarrow> Voice \<Rightarrow> (VoiceRow list svc, voice_error, unit) op" where
  "VoiceRepo_Upsert F v =
    call F VoicesFailed (\<lambda>rows. (Inr (), UpsertVoice \<lparr>vr_ID = v_ID v, vr_DisplayName = v_DisplayName v, vr_Gender = nullableString (v_Gender v),
      vr_Tags = v_Tags v, vr_ModelVersion = v_ModelVersion v, vr_TenantID = v_TenantID v, vr_Enabled = v_Enabled v\<rparr> rows))"

section \<open>The service (\<^verbatim>\<open>voices.go\<close>)\<close>

definition CacheTTL :: int where "CacheTTL = 30 * 10 ^ 9"

text \<open>The service keeps one public listing and when it was fetched, beside the database.\<close>

record voice_service =
  vs_db :: "VoiceRow list svc"
  vs_cached :: "Voice list"
  vs_fetched :: "int option"

definition on_voices :: "(VoiceRow list svc, voice_error, 'a) op \<Rightarrow> (voice_service, voice_error, 'a) op" where
  "on_voices m s = (let (r, d) = m (vs_db s) in (r, s\<lparr>vs_db := d\<rparr>))"

definition cachedPublic :: "int \<Rightarrow> voice_service \<Rightarrow> Voice list option" where
  "cachedPublic now s =
    (case vs_fetched s of None \<Rightarrow> None | Some t \<Rightarrow> if CacheTTL < now - t then None else Some (vs_cached s))"

text \<open>\<open>now\<close> is the clock when the cache is read and \<open>now'\<close> when the listing is stored.\<close>

definition Voices_List :: "(nat \<Rightarrow> fault) \<Rightarrow> int \<Rightarrow> int \<Rightarrow> uuid option \<Rightarrow> (voice_service, voice_error, Voice list) op" where
  "Voices_List F now now' tenantID s =
    (case (if tenantID = None then cachedPublic now s else None) of
       Some cached \<Rightarrow> (Inr cached, s)
     | None \<Rightarrow> bindE (on_voices (VoiceRepo_List F tenantID)) (\<lambda>rows s.
         let found = sort_key (\<lambda>v. bytes_of (v_ID v)) rows
         in (Inr found, if tenantID = None then s\<lparr>vs_cached := found, vs_fetched := Some now'\<rparr> else s)) s)"

definition Voices_Resolve :: "(nat \<Rightarrow> fault) \<Rightarrow> int \<Rightarrow> int \<Rightarrow> uuid option \<Rightarrow> string \<Rightarrow> (voice_service, voice_error, Voice) op" where
  "Voices_Resolve F now now' tenantID i =
    (if i = [] then failE ErrUnknown
     else bindE (Voices_List F now now' tenantID) (\<lambda>available.
       case find (\<lambda>v. v_ID v = i \<and> v_Enabled v) available of None \<Rightarrow> failE ErrUnknown | Some v \<Rightarrow> returnE v))"

text \<open>
  \<^verbatim>\<open>strings.ToUpper\<close> of a string of one byte: a byte outside ASCII is not a rune on its own and becomes
  the replacement character.
\<close>

definition upper_byte :: "char \<Rightarrow> string" where
  "upper_byte c =
    (let n = of_char c :: nat
     in if 128 \<le> n then [char_of (0xEF :: nat), char_of (0xBF :: nat), char_of (0xBD :: nat)]
        else if 97 \<le> n \<and> n \<le> 122 then [char_of (n - 32)] else [c])"

definition displayName :: "string \<Rightarrow> string" where
  "displayName i = (case i of [] \<Rightarrow> [] | c # rest \<Rightarrow> upper_byte c @ rest)"

definition fleet_voice :: "string \<Rightarrow> string \<Rightarrow> Voice" where
  "fleet_voice i modelVersion = \<lparr>v_ID = i, v_DisplayName = displayName i, v_Gender = [], v_Tags = [], v_ModelVersion = modelVersion,
     v_TenantID = None, v_Enabled = True, v_PreviewURL = []\<rparr>"

fun sync_loop :: "(nat \<Rightarrow> fault) \<Rightarrow> (string \<times> string) list \<Rightarrow> (voice_service, voice_error, unit) op" where
  "sync_loop F [] = returnE ()"
| "sync_loop F ((i, modelVersion) # rest) =
    bindE (on_voices (VoiceRepo_Upsert F (fleet_voice i modelVersion))) (\<lambda>_. sync_loop F rest)"

text \<open>\<open>advertised\<close> lists the map of \<^verbatim>\<open>AdvertisedVoices\<close> in the order of one iteration over it.\<close>

definition Sync :: "(nat \<Rightarrow> fault) \<Rightarrow> (string \<times> string) list \<Rightarrow> (voice_service, voice_error, unit) op" where
  "Sync F advertised = bindE (sync_loop F advertised) (\<lambda>_ s. (Inr (), s\<lparr>vs_fetched := None\<rparr>))"

section \<open>Who can reach which voice\<close>

definition visible :: "uuid option \<Rightarrow> VoiceRow \<Rightarrow> bool" where
  "visible tenantID r \<longleftrightarrow> vr_Enabled r \<and> (vr_TenantID r = None \<or> vr_TenantID r = tenantID)"

text \<open>The primary key of the table, and a cached listing that holds public voices only.\<close>

definition voices_inv :: "voice_service \<Rightarrow> bool" where
  "voices_inv s \<longleftrightarrow> distinct (map vr_ID (svc_data (vs_db s))) \<and> (\<forall>v \<in> set (vs_cached s). v_TenantID v = None \<and> v_Enabled v)"

lemma toVoice_simps [simp]:
  "v_ID (toVoice r) = vr_ID r" "v_TenantID (toVoice r) = vr_TenantID r" "v_Enabled (toVoice r) = vr_Enabled r"
  "v_ModelVersion (toVoice r) = vr_ModelVersion r" "v_DisplayName (toVoice r) = vr_DisplayName r"
  by (simp_all add: toVoice_def)

lemma set_listed:
  "set (case tenantID of None \<Rightarrow> ListPublicVoices rows | Some t \<Rightarrow> ListVoicesForTenant t rows) = {r \<in> set rows. visible tenantID r}"
  by (auto simp: ListPublicVoices_def ListVoicesForTenant_def visible_def split: option.split)

lemma List_cases:
  assumes "Voices_List F now now' tenantID s = (r, s')"
  obtains (cached) "tenantID = None" "r = Inr (vs_cached s)" "s' = s"
  | (failed) "r = Inl VoicesFailed" "svc_data (vs_db s') = svc_data (vs_db s)" "vs_cached s' = vs_cached s"
  | (read) vs where "r = Inr vs" "set vs = toVoice ` {row \<in> set (svc_data (vs_db s)). visible tenantID row}"
      "svc_data (vs_db s') = svc_data (vs_db s)" "vs_cached s' = (if tenantID = None then vs else vs_cached s)"
proof (cases "if tenantID = None then cachedPublic now s else None")
  case (Some c)
  have "tenantID = None" using Some by (cases tenantID) simp_all
  moreover have "c = vs_cached s" using Some by (cases "vs_fetched s") (simp_all add: cachedPublic_def split: if_splits)
  moreover have "Voices_List F now now' tenantID s = (Inr c, s)" unfolding Voices_List_def Some by simp
  ultimately show ?thesis using assms by (intro cached) auto
next
  case None
  obtain res d where run: "VoiceRepo_List F tenantID (vs_db s) = (res, d)" by fastforce
  then have d: "svc_data d = svc_data (vs_db s)" and res: "res = Inl VoicesFailed \<or>
      res = Inr (toVoices (case tenantID of None \<Rightarrow> ListPublicVoices (svc_data (vs_db s)) | Some t \<Rightarrow> ListVoicesForTenant t (svc_data (vs_db s))))"
    unfolding VoiceRepo_List_def by (elim call_cases; simp)+
  have list: "Voices_List F now now' tenantID s = (case res of Inl e \<Rightarrow> (Inl e, s\<lparr>vs_db := d\<rparr>)
      | Inr rows \<Rightarrow> (let found = sort_key (\<lambda>v. bytes_of (v_ID v)) rows
          in (Inr found, if tenantID = None then s\<lparr>vs_db := d, vs_cached := found, vs_fetched := Some now'\<rparr> else s\<lparr>vs_db := d\<rparr>)))"
    using None run unfolding Voices_List_def by (simp add: bindE_def on_voices_def split: sum.split)
  show ?thesis
  proof (cases res)
    case (Inl e)
    then have "e = VoicesFailed" using res by simp
    then show ?thesis using assms Inl d by (intro failed) (auto simp: list)
  next
    case (Inr rows)
    then have rows: "set rows = toVoice ` {row \<in> set (svc_data (vs_db s)). visible tenantID row}"
      using res by (simp add: toVoices_def set_listed)
    show ?thesis
      by (rule read [of "sort_key (\<lambda>v. bytes_of (v_ID v)) rows"]) (use assms Inr d rows in \<open>auto simp: list Let_def\<close>)
  qed
qed

lemma List_inv: "Voices_List F now now' tenantID s = (r, s') \<Longrightarrow> voices_inv s \<Longrightarrow> voices_inv s' \<and> svc_data (vs_db s') = svc_data (vs_db s)"
  by (elim List_cases) (auto simp: voices_inv_def visible_def)

lemma find_visible:
  assumes "distinct (map vr_ID rows)" "set vs = toVoice ` {r \<in> set rows. visible tenantID r}"
  shows "find (\<lambda>v. v_ID v = i \<and> v_Enabled v) vs
    = (case find (\<lambda>r. vr_ID r = i) rows of Some r \<Rightarrow> if visible tenantID r then Some (toVoice r) else None | None \<Rightarrow> None)"
proof (cases "find (\<lambda>v. v_ID v = i \<and> v_Enabled v) vs")
  case None
  then have "\<not> (vr_ID r = i \<and> visible tenantID r)" if "r \<in> set rows" for r
    using assms(2) that by (auto simp: find_None_iff visible_def)
  then show ?thesis using None by (auto split: option.split dest: find_SomeD)
next
  case (Some v)
  then have "v \<in> set vs" "v_ID v = i" using find_SomeD [OF Some] by simp_all
  then have "v \<in> toVoice ` {r \<in> set rows. visible tenantID r}" unfolding assms(2) by simp
  then obtain r where r: "r \<in> set rows" "v = toVoice r" "visible tenantID r" by blast
  then have "vr_ID r = i" using \<open>v_ID v = i\<close> by simp
  then show ?thesis using Some r find_unique_key [OF assms(1) r(1)] by simp
qed

lemma UpsertVoice_ids: "distinct (map vr_ID rows) \<Longrightarrow> distinct (map vr_ID (UpsertVoice arg rows))"
  by (auto simp: UpsertVoice_def sql_update_map_id)

lemma UpsertVoice_find:
  "find (\<lambda>r. vr_ID r = i) (UpsertVoice arg rows) =
    (if i = vr_ID arg then
       Some (case find (\<lambda>r. vr_ID r = i) rows of None \<Rightarrow> arg
         | Some r \<Rightarrow> r\<lparr>vr_DisplayName := vr_DisplayName arg, vr_ModelVersion := vr_ModelVersion arg, vr_Enabled := vr_Enabled arg\<rparr>)
     else find (\<lambda>r. vr_ID r = i) rows)"
proof (cases "find (\<lambda>r. vr_ID r = vr_ID arg) rows")
  case None
  then have "\<forall>r \<in> set rows. vr_ID r \<noteq> vr_ID arg" by (simp add: find_None_key)
  then have "UpsertVoice arg rows = rows @ [arg]" by (auto simp: UpsertVoice_def)
  then show ?thesis using None by (simp add: find_append split: option.split)
next
  case (Some x)
  then have "\<exists>r \<in> set rows. vr_ID r = vr_ID arg" by (auto dest: find_SomeD)
  then have upd: "UpsertVoice arg rows = sql_update (\<lambda>r. vr_ID r = vr_ID arg)
      (\<lambda>r. r\<lparr>vr_DisplayName := vr_DisplayName arg, vr_ModelVersion := vr_ModelVersion arg, vr_Enabled := vr_Enabled arg\<rparr>) rows"
    by (simp add: UpsertVoice_def)
  show ?thesis
  proof (cases "find (\<lambda>r. vr_ID r = i) rows")
    case None
    then show ?thesis using Some by (auto simp: upd find_sql_update_key)
  next
    case found: (Some y)
    then have "vr_ID y = i" by (auto dest: find_SomeD)
    then show ?thesis using found by (cases "i = vr_ID arg") (simp_all add: upd find_sql_update_key)
  qed
qed

section \<open>Following the fleet\<close>

abbreviation row_of :: "voice_service \<Rightarrow> string \<Rightarrow> VoiceRow option" where
  "row_of s i \<equiv> find (\<lambda>r. vr_ID r = i) (svc_data (vs_db s))"

definition synced :: "string \<Rightarrow> string \<Rightarrow> VoiceRow option \<Rightarrow> VoiceRow" where
  "synced i mv old = (case old of
     None \<Rightarrow> \<lparr>vr_ID = i, vr_DisplayName = displayName i, vr_Gender = None, vr_Tags = [], vr_ModelVersion = mv, vr_TenantID = None, vr_Enabled = True\<rparr>
   | Some r \<Rightarrow> r\<lparr>vr_DisplayName := displayName i, vr_ModelVersion := mv, vr_Enabled := True\<rparr>)"

lemma upsert_fleet:
  assumes "on_voices (VoiceRepo_Upsert F (fleet_voice i mv)) s = (res, s')"
  shows "(voices_inv s \<longrightarrow> voices_inv s') \<and>
    (res = Inr () \<longrightarrow> (\<forall>k. row_of s' k = (if k = i then Some (synced i mv (row_of s i)) else row_of s k)))"
proof -
  obtain d where run: "VoiceRepo_Upsert F (fleet_voice i mv) (vs_db s) = (res, d)" and s': "s' = s\<lparr>vs_db := d\<rparr>"
    using assms by (auto simp: on_voices_def Let_def split: prod.splits)
  note upd = run [unfolded VoiceRepo_Upsert_def]
  show ?thesis
    using upd by (cases rule: call_cases)
      (auto simp: s' voices_inv_def UpsertVoice_ids UpsertVoice_find fleet_voice_def nullableString_def synced_def split: option.split)
qed

lemma sync_loop_rows:
  assumes "sync_loop F adv s = (res, s')" "distinct (map fst adv)"
  shows "(voices_inv s \<longrightarrow> voices_inv s') \<and> (res = Inr () \<longrightarrow> (\<forall>k. row_of s' k =
    (case map_of adv k of Some mv \<Rightarrow> Some (synced k mv (row_of s k)) | None \<Rightarrow> row_of s k)))"
  using assms
proof (induction adv arbitrary: s)
  case Nil
  then show ?case by (simp add: returnE_def)
next
  case (Cons p adv)
  obtain i mv where p: "p = (i, mv)" by fastforce
  obtain r1 s1 where first: "on_voices (VoiceRepo_Upsert F (fleet_voice i mv)) s = (r1, s1)" by fastforce
  note one = upsert_fleet [OF first]
  show ?case
  proof (cases r1)
    case (Inl e)
    then show ?thesis using Cons.prems first one by (auto simp: p bindE_def)
  next
    case (Inr u)
    then have rest: "sync_loop F adv s1 = (res, s')" using Cons.prems(1) first by (simp add: p bindE_def)
    have "map_of adv i = None" using Cons.prems(2) by (simp add: p map_of_eq_None_iff)
    then show ?thesis using Cons.IH [OF rest] one Inr Cons.prems(2) by (auto simp: p split: option.split)
  qed
qed

lemma Sync_rows:
  assumes "Sync F adv s = (res, s')" "distinct (map fst adv)"
  shows "(voices_inv s \<longrightarrow> voices_inv s') \<and> (res = Inr () \<longrightarrow> vs_fetched s' = None \<and> (\<forall>k. row_of s' k =
    (case map_of adv k of Some mv \<Rightarrow> Some (synced k mv (row_of s k)) | None \<Rightarrow> row_of s k)))"
proof -
  obtain r1 s1 where loop: "sync_loop F adv s = (r1, s1)" by fastforce
  have db: "vs_db s' = vs_db s1" "vs_cached s' = vs_cached s1" and res: "res = r1" "r1 = Inr () \<Longrightarrow> vs_fetched s' = None"
    using assms(1) loop by (auto simp: Sync_def bindE_def split: sum.splits)
  then have "voices_inv s' = voices_inv s1" by (simp add: voices_inv_def)
  then show ?thesis using sync_loop_rows [OF loop assms(2)] res unfolding db by blast
qed

text \<open>
  A run of \<^verbatim>\<open>Sync\<close> resets the name and the enabled flag of an advertised voice to the defaults, and leaves
  enabled every voice the fleet no longer advertises.
\<close>

lemma sync_resets_operator_settings:
  assumes "Sync F adv s = (Inr (), s')" "distinct (map fst adv)" "map_of adv i = Some mv" "row_of s i = Some r"
  shows "\<exists>r'. row_of s' i = Some r' \<and> vr_DisplayName r' = displayName i \<and> vr_Enabled r'"
  using Sync_rows [OF assms(1,2)] assms(3,4) by (simp add: synced_def)

lemma sync_keeps_unadvertised:
  assumes "Sync F adv s = (Inr (), s')" "distinct (map fst adv)" "map_of adv i = None"
  shows "row_of s' i = row_of s i"
  using Sync_rows [OF assms(1,2)] assms(3) by simp

section \<open>Properties\<close>

text \<open>
  C39: a tenant reaches exactly the voices it may use (US-13). Resolving a voice for a tenant changes
  no voice; what it returns is the row of that id, enabled and either public or owned by the
  tenant; and when the database answers, it returns that voice if there is one and the same error
  for an absent, a disabled and a foreign voice.
\<close>

theorem voice_resolution_tenant_scoped:
  assumes "voices_inv s" and "Voices_Resolve F now now' (Some t) i s = (res, s')"
  shows "voices_inv s' \<and> (\<forall>k. row_of s' k = row_of s k)
    \<and> (\<forall>v. res = Inr v \<longrightarrow> (\<exists>r. row_of s i = Some r \<and> vr_Enabled r \<and> (vr_TenantID r = None \<or> vr_TenantID r = Some t) \<and> v = toVoice r))
    \<and> (F (svc_calls (vs_db s)) = Fine \<longrightarrow> i \<noteq> [] \<longrightarrow> res =
        (case row_of s i of Some r \<Rightarrow> if vr_Enabled r \<and> (vr_TenantID r = None \<or> vr_TenantID r = Some t) then Inr (toVoice r) else Inl ErrUnknown
         | None \<Rightarrow> Inl ErrUnknown))"
proof (cases "i = []")
  case True
  then show ?thesis using assms by (auto simp: Voices_Resolve_def failE_def)
next
  case False
  have ids: "distinct (map vr_ID (svc_data (vs_db s)))" using assms(1) by (simp add: voices_inv_def)
  obtain lr ls where list: "Voices_List F now now' (Some t) s = (lr, ls)" by fastforce
  then have s': "s' = ls" and res: "res = (case lr of Inl e \<Rightarrow> Inl e | Inr vs \<Rightarrow>
      (case find (\<lambda>v. v_ID v = i \<and> v_Enabled v) vs of None \<Rightarrow> Inl ErrUnknown | Some v \<Rightarrow> Inr v))"
    using assms(2) False by (auto simp: Voices_Resolve_def bindE_def failE_def returnE_def split: sum.splits option.splits)
  have fine: "F (svc_calls (vs_db s)) = Fine \<Longrightarrow> lr \<noteq> Inl VoicesFailed"
    using list by (auto simp: Voices_List_def bindE_def on_voices_def VoiceRepo_List_def call_fine)
  from list show ?thesis
  proof (cases rule: List_cases)
    case failed
    then show ?thesis using fine res List_inv [OF list assms(1)] by (auto simp: s')
  next
    case (read vs)
    then have "find (\<lambda>v. v_ID v = i \<and> v_Enabled v) vs
      = (case row_of s i of Some r \<Rightarrow> if visible (Some t) r then Some (toVoice r) else None | None \<Rightarrow> None)"
      by (intro find_visible [OF ids])
    then show ?thesis using read(1) res List_inv [OF list assms(1)]
      by (auto simp: s' visible_def split: option.splits)
  qed simp
qed

definition example_voices :: voice_service where
  "example_voices = \<lparr>vs_db = \<lparr>svc_data = [synced ''maichi'' ''m1'' None, (synced ''own'' ''m1'' None)\<lparr>vr_TenantID := Some 8\<rparr>], svc_calls = 0\<rparr>,
     vs_cached = [], vs_fetched = None\<rparr>"

theorem voice_resolution_tenant_scoped_witness:
  "fst (Voices_Resolve (\<lambda>_. Fine) 5 6 (Some 7) ''own'' example_voices) = Inl ErrUnknown
   \<and> (\<exists>v. fst (Voices_Resolve (\<lambda>_. Fine) 5 6 (Some 8) ''own'' example_voices) = Inr v)"
proof -
  have inv: "voices_inv example_voices" by (simp add: voices_inv_def example_voices_def synced_def)
  obtain r7 s7 r8 s8 where run: "Voices_Resolve (\<lambda>_. Fine) 5 6 (Some 7) ''own'' example_voices = (r7, s7)"
    "Voices_Resolve (\<lambda>_. Fine) 5 6 (Some 8) ''own'' example_voices = (r8, s8)" by fastforce
  have row: "row_of example_voices ''own'' = Some ((synced ''own'' ''m1'' None)\<lparr>vr_TenantID := Some 8\<rparr>)"
    by (simp add: example_voices_def synced_def)
  have "r7 = Inl ErrUnknown"
    using conjunct2 [OF conjunct2 [OF conjunct2 [OF voice_resolution_tenant_scoped [OF inv run(1)]]]] unfolding row by (simp add: synced_def)
  moreover have "\<exists>v. r8 = Inr v"
    using conjunct2 [OF conjunct2 [OF conjunct2 [OF voice_resolution_tenant_scoped [OF inv run(2)]]]] unfolding row by (simp add: synced_def)
  ultimately show ?thesis using run by simp
qed

end
