(* ===== verification/Go_Time.thy ===== *)
theory Go_Time
  imports Prelude
begin

text \<open>
  The part of Go's \<^verbatim>\<open>time\<close> package that the gateway uses on calendar dates. A \<^verbatim>\<open>time.Time\<close> in UTC is
  the number of nanoseconds since 1970-01-01; dates are in the proleptic Gregorian calendar.
\<close>

definition day_ns :: int where "day_ns = 86400 * 10 ^ 9"

definition day_of :: "int \<Rightarrow> int" where
  "day_of t = t div day_ns"

text \<open>\<^verbatim>\<open>Truncate(24 * time.Hour)\<close>.\<close>

definition truncate_day :: "int \<Rightarrow> int" where
  "truncate_day t = day_of t * day_ns"

text \<open>
  A date from its day number: years are counted from 1 March, so that the leap day is the last
  day of a year, in eras of 400 years.
\<close>

definition civil :: "int \<Rightarrow> int \<times> int \<times> int" where
  "civil n =
    (let z = n + 719468; era = z div 146097; doe = z mod 146097;
         yoe = (doe - doe div 1460 + doe div 36524 - doe div 146096) div 365;
         doy = doe - (365 * yoe + yoe div 4 - yoe div 100);
         mp = (5 * doy + 2) div 153;
         d = doy - (153 * mp + 2) div 5 + 1;
         m = (if mp < 10 then mp + 3 else mp - 9)
     in (yoe + era * 400 + (if m \<le> 2 then 1 else 0), m, d))"

text \<open>\<^verbatim>\<open>time.Date\<close>: the month is normalised into a year, a day past the end of its month runs into the next.\<close>

definition days_from_civil :: "int \<Rightarrow> int \<Rightarrow> int \<Rightarrow> int" where
  "days_from_civil year month d =
    (let y0 = year + (month - 1) div 12; m = (month - 1) mod 12 + 1;
         y = (if m \<le> 2 then y0 - 1 else y0);
         era = y div 400; yoe = y mod 400;
         doy = (153 * (if m > 2 then m - 3 else m + 9) + 2) div 5 + d - 1;
         doe = yoe * 365 + yoe div 4 - yoe div 100 + doy
     in era * 146097 + doe - 719468)"

definition AddDate :: "int \<Rightarrow> int \<Rightarrow> int \<Rightarrow> int \<Rightarrow> int" where
  "AddDate years months days t =
    (let (y, m, d) = civil (day_of t) in days_from_civil (y + years) (m + months) (d + days) * day_ns + t mod day_ns)"

definition month_of :: "int \<Rightarrow> int \<times> int" where
  "month_of t = (let (y, m, _) = civil (day_of t) in (y, m))"

lemma day_ns_pos [simp]: "0 < day_ns" by (simp add: day_ns_def)

lemma day_of_truncate [simp]: "day_of (truncate_day t) = day_of t"
  by (simp add: day_of_def truncate_day_def day_ns_def)

lemma truncate_day_mono: "s \<le> t \<Longrightarrow> truncate_day s \<le> truncate_day t"
  by (simp add: truncate_day_def day_of_def zdiv_mono1 day_ns_def)

lemma truncate_day_idem [simp]: "truncate_day (truncate_day t) = truncate_day t"
  by (simp add: truncate_day_def [of "truncate_day t"]) (simp add: truncate_day_def)

text \<open>Some dates: 1970-01-01, 2000-02-29, 2026-01-31.\<close>

lemma civil_dates: "civil 0 = (1970, 1, 1)" "civil 11016 = (2000, 2, 29)" "civil 20484 = (2026, 1, 31)"
  by code_simp+

lemma days_from_civil_dates: "days_from_civil 1970 1 1 = 0" "days_from_civil 2000 2 29 = 11016" "days_from_civil 2026 1 31 = 20484"
  by code_simp+

end
