(* ===== verification/Usage.thy ===== *)
theory Usage
  imports Quota Voices Go_Time "HOL-Library.Multiset"
begin

text \<open>
  Metering: package \<^verbatim>\<open>internal/usage\<close> (the meter and the reports), its tables
  (\<^verbatim>\<open>storage/postgres/db/usage.sql.go\<close>), the batch writer (\<^verbatim>\<open>usagewriter.go\<close>) and the readers
  (\<^verbatim>\<open>usagerepo.go\<close>, \<^verbatim>\<open>maintenancerepo.go\<close>). The lemmas account for every metered request.
\<close>

section \<open>Tables and statements (\<^verbatim>\<open>usage.sql.go\<close>)\<close>

datatype usage_error = UsageFailed | ErrInvalidRange string

record SynthRequest =
  sy_ID :: uuid
  sy_TenantID :: uuid
  sy_ApiKeyID :: uuid
  sy_VoiceID :: string
  sy_CacheKey :: "byte list"
  sy_Mode :: string
  sy_Chars :: int
  sy_DurationMs :: "int option"
  sy_TtfaMs :: "int option"
  sy_Cached :: bool
  sy_Status :: string
  sy_ErrorCode :: "string option"
  sy_CreatedAt :: int

record UsageDaily =
  du_TenantID :: uuid
  du_Day :: int
  du_Chars :: int
  du_AudioMs :: int
  du_Requests :: int
  du_CacheHits :: int

text \<open>The partitions of \<^verbatim>\<open>synth_requests\<close> are the months that have one.\<close>

record usage_data =
  ud_requests :: "SynthRequest list"
  ud_daily :: "UsageDaily list"
  ud_partitions :: "(int \<times> int) list"

definition request_key :: "SynthRequest \<Rightarrow> uuid \<times> int" where
  "request_key r = (sy_ID r, sy_CreatedAt r)"

text \<open>The checks of the table: a row needs a partition for its time and must satisfy the constraints.\<close>

definition InsertSynthRequest :: "SynthRequest \<Rightarrow> usage_data \<Rightarrow> (usage_error + unit) \<times> usage_data" where
  "InsertSynthRequest r d =
    (if month_of (sy_CreatedAt r) \<notin> set (ud_partitions d) \<or> sy_Chars r < 0
        \<or> sy_Mode r \<notin> {''sync'', ''stream'', ''job_segment''}
        \<or> sy_Status r \<notin> {''ok'', ''client_cancelled'', ''error'', ''rejected''} then (Inl UsageFailed, d)
     else if \<exists>q \<in> set (ud_requests d). request_key q = request_key r then (Inr (), d)
     else (Inr (), d\<lparr>ud_requests := ud_requests d @ [r]\<rparr>))"

definition billable :: "int \<Rightarrow> int \<Rightarrow> SynthRequest \<Rightarrow> bool" where
  "billable from till r \<longleftrightarrow> from \<le> sy_CreatedAt r \<and> sy_CreatedAt r < till \<and> sy_Status r \<in> {''ok'', ''client_cancelled''}"

definition SumCharsByTenantSince :: "int \<Rightarrow> int \<Rightarrow> usage_data \<Rightarrow> (uuid \<times> int) list" where
  "SumCharsByTenantSince from till d =
    (let rows = filter (billable from till) (ud_requests d)
     in map (\<lambda>t. (t, sum_list (map sy_Chars (filter (\<lambda>r. sy_TenantID r = t) rows)))) (remdups (map sy_TenantID rows)))"

definition daily_sums :: "SynthRequest list \<Rightarrow> uuid \<times> int \<Rightarrow> UsageDaily" where
  "daily_sums rows k =
    (let rs = filter (\<lambda>r. (sy_TenantID r, day_of (sy_CreatedAt r)) = k) rows
     in \<lparr>du_TenantID = fst k, du_Day = snd k, du_Chars = sum_list (map sy_Chars rs),
         du_AudioMs = sum_list (map (\<lambda>r. case sy_DurationMs r of None \<Rightarrow> 0 | Some m \<Rightarrow> m) rs),
         du_Requests = int (length rs), du_CacheHits = int (length (filter sy_Cached rs))\<rparr>)"

definition daily_key :: "UsageDaily \<Rightarrow> uuid \<times> int" where
  "daily_key u = (du_TenantID u, du_Day u)"

definition upsert_daily :: "UsageDaily \<Rightarrow> UsageDaily list \<Rightarrow> UsageDaily list" where
  "upsert_daily u rows =
    (if \<exists>r \<in> set rows. daily_key r = daily_key u then sql_update (\<lambda>r. daily_key r = daily_key u) (\<lambda>_. u) rows else rows @ [u])"

definition RollupUsageDaily :: "int \<Rightarrow> int \<Rightarrow> usage_data \<Rightarrow> usage_data" where
  "RollupUsageDaily from till d =
    (let rows = filter (billable from till) (ud_requests d);
         keys = remdups (map (\<lambda>r. (sy_TenantID r, day_of (sy_CreatedAt r))) rows)
     in d\<lparr>ud_daily := fold upsert_daily (map (daily_sums rows) keys) (ud_daily d)\<rparr>)"

definition UsageByDay :: "uuid \<Rightarrow> int \<Rightarrow> int \<Rightarrow> usage_data \<Rightarrow> UsageDaily list" where
  "UsageByDay t from till d =
    sort_key du_Day (filter (\<lambda>u. du_TenantID u = t \<and> from \<le> du_Day u \<and> du_Day u \<le> till) (ud_daily d))"

text \<open>The function \<^verbatim>\<open>ensure_synth_requests_partition\<close> of the first migration.\<close>

definition ensure_partition :: "int \<Rightarrow> usage_data \<Rightarrow> string \<times> usage_data" where
  "ensure_partition t d =
    (let (y, m) = month_of t; name = ''synth_requests_'' @ pad 4 (Itoa y) @ pad 2 (Itoa m)
     in (name, if (y, m) \<in> set (ud_partitions d) then d else d\<lparr>ud_partitions := ud_partitions d @ [(y, m)]\<rparr>))"

section \<open>The batch writer (\<^verbatim>\<open>usagewriter.go\<close>)\<close>

record UsageRecord =
  ur_ID :: uuid
  ur_TenantID :: uuid
  ur_KeyID :: uuid
  ur_VoiceID :: string
  ur_CacheKey :: "byte list"
  ur_Mode :: string
  ur_Chars :: int
  ur_DurationMS :: int
  ur_TTFAMS :: int
  ur_Cached :: bool
  ur_Status :: string
  ur_ErrorCode :: string
  ur_CreatedAt :: "int option"  \<comment> \<open>none for the zero time\<close>

definition clampChars :: "int \<Rightarrow> int" where
  "clampChars chars = (if chars < 0 then 0 else if 2 ^ 30 < chars then 2 ^ 30 else chars)"

definition nullableInt32 :: "int \<Rightarrow> int option" where
  "nullableInt32 v = (if v = 0 then None else Some v)"

definition request_row :: "UsageRecord \<Rightarrow> SynthRequest" where
  "request_row r = \<lparr>sy_ID = ur_ID r, sy_TenantID = ur_TenantID r, sy_ApiKeyID = ur_KeyID r, sy_VoiceID = ur_VoiceID r,
     sy_CacheKey = ur_CacheKey r, sy_Mode = ur_Mode r, sy_Chars = clampChars (ur_Chars r), sy_DurationMs = nullableInt32 (ur_DurationMS r),
     sy_TtfaMs = nullableInt32 (ur_TTFAMS r), sy_Cached = ur_Cached r, sy_Status = ur_Status r,
     sy_ErrorCode = nullableString (ur_ErrorCode r), sy_CreatedAt = (case ur_CreatedAt r of None \<Rightarrow> 0 | Some t \<Rightarrow> t)\<rparr>"

fun insert_records :: "(nat \<Rightarrow> fault) \<Rightarrow> UsageRecord list \<Rightarrow> (usage_data svc, usage_error, unit) op" where
  "insert_records F [] = returnE ()"
| "insert_records F (r # rs) = bindE (call F UsageFailed (InsertSynthRequest (request_row r))) (\<lambda>_. insert_records F rs)"

definition WriteBatch :: "(nat \<Rightarrow> fault) \<Rightarrow> UsageRecord list \<Rightarrow> (usage_data svc, usage_error, unit) op" where
  "WriteBatch F records = (if records = [] then returnE () else in_tx F UsageFailed (insert_records F records))"

section \<open>The meter (\<^verbatim>\<open>meter.go\<close>)\<close>

definition QueueSize :: nat where "QueueSize = 4096"
definition BatchSize :: nat where "BatchSize = 128"
definition uuid_Nil :: uuid where "uuid_Nil = 0"

text \<open>The channel, the batch of the writer goroutine, the counter of dropped records and the database.\<close>

record meter =
  mt_queue :: "UsageRecord list"
  mt_batch :: "UsageRecord list"
  mt_dropped :: int
  mt_db :: "usage_data svc"

definition stamped :: "uuid \<Rightarrow> int \<Rightarrow> UsageRecord \<Rightarrow> UsageRecord" where
  "stamped fresh now r =
    (let r1 = (if ur_ID r = uuid_Nil then r\<lparr>ur_ID := fresh\<rparr> else r)
     in if ur_CreatedAt r1 = None then r1\<lparr>ur_CreatedAt := Some now\<rparr> else r1)"

definition Meter_Record :: "uuid \<Rightarrow> int \<Rightarrow> UsageRecord \<Rightarrow> meter \<Rightarrow> meter" where
  "Meter_Record fresh now r m =
    (let record = stamped fresh now r
     in if length (mt_queue m) < QueueSize then m\<lparr>mt_queue := mt_queue m @ [record]\<rparr>
        else m\<lparr>mt_dropped := wrap64 (mt_dropped m + 1)\<rparr>)"

definition Dropped :: "meter \<Rightarrow> int" where
  "Dropped m = mt_dropped m"

definition flush :: "(nat \<Rightarrow> fault) \<Rightarrow> meter \<Rightarrow> meter" where
  "flush F m =
    (if mt_batch m = [] then m
     else let (_, db) = WriteBatch F (mt_batch m) (mt_db m) in m\<lparr>mt_db := db, mt_batch := []\<rparr>)"

text \<open>One receive of the writer goroutine, while it runs and while it drains.\<close>

definition take_record :: "(nat \<Rightarrow> fault) \<Rightarrow> meter \<Rightarrow> meter" where
  "take_record F m =
    (case mt_queue m of [] \<Rightarrow> m
     | r # rest \<Rightarrow>
        let m1 = m\<lparr>mt_queue := rest, mt_batch := mt_batch m @ [r]\<rparr>
        in if BatchSize \<le> length (mt_batch m1) then flush F m1 else m1)"

text \<open>What \<^verbatim>\<open>Stop\<close> waits for: everything queued is taken, and the last batch written.\<close>

fun drain :: "(nat \<Rightarrow> fault) \<Rightarrow> nat \<Rightarrow> meter \<Rightarrow> meter" where
  "drain F 0 m = flush F m"
| "drain F (Suc n) m = drain F n (take_record F m)"

definition Stop :: "(nat \<Rightarrow> fault) \<Rightarrow> meter \<Rightarrow> meter" where
  "Stop F m = drain F (length (mt_queue m)) m"

section \<open>Reports (\<^verbatim>\<open>report.go\<close>) and readers\<close>

definition MaxReportDays :: int where "MaxReportDays = 366"

record Day =
  d_Day :: int
  d_Chars :: int
  d_AudioMS :: int
  d_Requests :: int
  d_CacheHits :: int

record Totals =
  tt_Chars :: int
  tt_AudioMS :: int
  tt_Requests :: int
  tt_CacheHits :: int

record Report =
  rp_From :: int
  rp_To :: int
  rp_Days :: "Day list"
  rp_Totals :: Totals
  rp_PlanLimit :: int

text \<open>\<^verbatim>\<open>UsageRepository.ByDay\<close> and \<^verbatim>\<open>SumCharsSince\<close>: a date parameter is the day of the time given.\<close>

definition ByDay :: "(nat \<Rightarrow> fault) \<Rightarrow> uuid \<Rightarrow> int \<Rightarrow> int \<Rightarrow> (usage_data svc, usage_error, Day list) op" where
  "ByDay F t from till = call F UsageFailed (\<lambda>d. (Inr (map (\<lambda>u. \<lparr>d_Day = du_Day u * day_ns, d_Chars = du_Chars u,
     d_AudioMS = du_AudioMs u, d_Requests = du_Requests u, d_CacheHits = du_CacheHits u\<rparr>) (UsageByDay t (day_of from) (day_of till) d)), d))"

definition SumCharsSince :: "(nat \<Rightarrow> fault) \<Rightarrow> int \<Rightarrow> int \<Rightarrow> (usage_data svc, usage_error, (uuid \<times> int) list) op" where
  "SumCharsSince F from till = call F UsageFailed (\<lambda>d. (Inr (SumCharsByTenantSince from till d), d))"

definition add_day :: "Day \<Rightarrow> Totals \<Rightarrow> Totals" where
  "add_day x t = \<lparr>tt_Chars = wrap64 (tt_Chars t + d_Chars x), tt_AudioMS = wrap64 (tt_AudioMS t + d_AudioMS x),
     tt_Requests = wrap64 (tt_Requests t + d_Requests x), tt_CacheHits = wrap64 (tt_CacheHits t + d_CacheHits x)\<rparr>"

definition Build :: "(nat \<Rightarrow> fault) \<Rightarrow> uuid \<Rightarrow> int \<Rightarrow> int \<Rightarrow> int \<Rightarrow> (usage_data svc, usage_error, Report) op" where
  "Build F t from0 to0 planLimit =
    (let from = truncate_day from0; till = truncate_day to0
     in if till < from then failE (ErrInvalidRange ''to is before from'')
        else if MaxReportDays * day_ns < till - from
        then failE (ErrInvalidRange (''window is longer than '' @ Itoa MaxReportDays @ '' days''))
        else bindE (ByDay F t from till) (\<lambda>days.
          returnE \<lparr>rp_From = from, rp_To = till, rp_Days = days,
            rp_Totals = fold add_day days \<lparr>tt_Chars = 0, tt_AudioMS = 0, tt_Requests = 0, tt_CacheHits = 0\<rparr>, rp_PlanLimit = planLimit\<rparr>))"

text \<open>
  The rows of \<^verbatim>\<open>WriteCSV\<close>: none of the fields (dates and numbers) needs quoting. \<open>date_only\<close> is
  \<^verbatim>\<open>Format(time.DateOnly)\<close>.
\<close>

definition date_only :: "int \<Rightarrow> string" where
  "date_only t = (let (y, m, d) = civil (day_of t) in pad 4 (Itoa y) @ ''-'' @ pad 2 (Itoa m) @ ''-'' @ pad 2 (Itoa d))"

definition CRLF :: string where "CRLF = [char_of (13 :: nat), char_of (10 :: nat)]"

definition csv_row :: "string list \<Rightarrow> string" where
  "csv_row fs = Join fs '','' @ CRLF"

definition WriteCSV :: "Report \<Rightarrow> string" where
  "WriteCSV report = csv_row [''day'', ''chars'', ''audio_ms'', ''requests'', ''cache_hits'']
     @ concat (map (\<lambda>x. csv_row [date_only (d_Day x), Itoa (d_Chars x), Itoa (d_AudioMS x), Itoa (d_Requests x), Itoa (d_CacheHits x)])
         (rp_Days report))"

section \<open>Writing batches\<close>

definition usage_ok :: "usage_data \<Rightarrow> bool" where
  "usage_ok d \<longleftrightarrow> distinct (map request_key (ud_requests d))"

text \<open>A table grows by some of the given rows, and keeps its key.\<close>

definition grows :: "SynthRequest set \<Rightarrow> usage_data \<Rightarrow> usage_data \<Rightarrow> bool" where
  "grows S d d' \<longleftrightarrow> (usage_ok d \<longrightarrow> usage_ok d') \<and> set (ud_requests d) \<subseteq> set (ud_requests d')
     \<and> set (ud_requests d') \<subseteq> set (ud_requests d) \<union> S"

definition has_key :: "usage_data \<Rightarrow> SynthRequest \<Rightarrow> bool" where
  "has_key d r \<longleftrightarrow> (\<exists>q \<in> set (ud_requests d). request_key q = request_key r)"

lemma grows_refl [simp]: "grows S d d"
  by (simp add: grows_def)

lemma grows_trans: "grows S d d1 \<Longrightarrow> grows T d1 d2 \<Longrightarrow> grows (S \<union> T) d d2"
  by (auto simp: grows_def)

lemma grows_mono: "grows S d d' \<Longrightarrow> S \<subseteq> T \<Longrightarrow> grows T d d'"
  by (auto simp: grows_def)

lemma has_key_grows: "has_key d r \<Longrightarrow> grows S d d' \<Longrightarrow> has_key d' r"
  by (auto simp: grows_def has_key_def)

lemma InsertSynthRequest_grows: "grows {r} d (snd (InsertSynthRequest r d))"
  by (auto simp: InsertSynthRequest_def grows_def usage_ok_def)

lemma InsertSynthRequest_key: "InsertSynthRequest r d = (Inr u, d') \<Longrightarrow> has_key d' r"
  by (auto simp: InsertSynthRequest_def has_key_def split: if_splits)

lemma insert_records_grows:
  "insert_records F rs s = (res, s') \<Longrightarrow> grows (request_row ` set rs) (svc_data s) (svc_data s')
     \<and> (res = Inr () \<longrightarrow> (\<forall>r \<in> set rs. has_key (svc_data s') (request_row r)))"
proof (induction rs arbitrary: s)
  case Nil
  then show ?case by (simp add: returnE_def)
next
  case (Cons r rs)
  obtain r1 s1 where first: "call F UsageFailed (InsertSynthRequest (request_row r)) s = (r1, s1)" by fastforce
  have one: "grows {request_row r} (svc_data s) (svc_data s1)"
    using call_data [of F UsageFailed "InsertSynthRequest (request_row r)" s] InsertSynthRequest_grows first by (metis grows_refl snd_conv)
  show ?case
  proof (cases r1)
    case (Inl e)
    then show ?thesis using Cons.prems first grows_mono [OF one] by (auto simp: bindE_def)
  next
    case (Inr u)
    then have rest: "insert_records F rs s1 = (res, s')" using Cons.prems first by (simp add: bindE_def)
    have "has_key (svc_data s1) (request_row r)" using call_ok first Inr InsertSynthRequest_key by metis
    then show ?thesis using Cons.IH [OF rest] grows_trans [OF one] has_key_grows by fastforce
  qed
qed

lemma WriteBatch_grows:
  assumes "WriteBatch F rs s = (res, s')"
  shows "grows (request_row ` set rs) (svc_data s) (svc_data s')
     \<and> (res = Inr () \<longrightarrow> (\<forall>r \<in> set rs. has_key (svc_data s') (request_row r)))"
proof (cases "rs = []")
  case True
  then show ?thesis using assms by (simp add: WriteBatch_def returnE_def)
next
  case False
  then have "in_tx F UsageFailed (insert_records F rs) s = (res, s')" using assms by (simp add: WriteBatch_def)
  then show ?thesis
  proof (cases rule: in_tx_atomic)
    case (rolled_back e)
    then show ?thesis by simp
  next
    case (committed a s1 s2)
    then show ?thesis using insert_records_grows [of F rs s1] by auto
  qed
qed

section \<open>Interleavings of the meter\<close>

text \<open>
  Requests record, the writer goroutine receives and its ticker flushes, in any order. Beside the
  meter we keep what was recorded, dropped, written, and lost with a failed write.
\<close>

record metering =
  me_meter :: meter
  me_recorded :: "UsageRecord list"
  me_dropped :: "UsageRecord list"
  me_written :: "UsageRecord list"
  me_lost :: "UsageRecord list"

definition flushed :: "(nat \<Rightarrow> fault) \<Rightarrow> meter \<Rightarrow> metering \<Rightarrow> metering" where
  "flushed F m g =
    (if mt_batch m = [] then g
     else if fst (WriteBatch F (mt_batch m) (mt_db m)) = Inr () then g\<lparr>me_written := me_written g @ mt_batch m\<rparr>
     else g\<lparr>me_lost := me_lost g @ mt_batch m\<rparr>)"

definition received :: "meter \<Rightarrow> meter" where
  "received m = (case mt_queue m of [] \<Rightarrow> m | r # rest \<Rightarrow> m\<lparr>mt_queue := rest, mt_batch := mt_batch m @ [r]\<rparr>)"

definition taken :: "(nat \<Rightarrow> fault) \<Rightarrow> metering \<Rightarrow> metering" where
  "taken F g =
    (let m = me_meter g; g' = g\<lparr>me_meter := take_record F m\<rparr>
     in if mt_queue m \<noteq> [] \<and> BatchSize \<le> length (mt_batch (received m)) then flushed F (received m) g' else g')"

inductive meter_step :: "(nat \<Rightarrow> fault) \<Rightarrow> metering \<Rightarrow> metering \<Rightarrow> bool" for F where
  step_record: "meter_step F g (g\<lparr>me_meter := Meter_Record fresh now r (me_meter g), me_recorded := me_recorded g @ [stamped fresh now r],
     me_dropped := me_dropped g @ (if length (mt_queue (me_meter g)) < QueueSize then [] else [stamped fresh now r])\<rparr>)"
| step_take: "meter_step F g (taken F g)"
| step_tick: "meter_step F g (flushed F (me_meter g) (g\<lparr>me_meter := flush F (me_meter g)\<rparr>))"

definition metering_start :: "usage_data svc \<Rightarrow> metering" where
  "metering_start db = \<lparr>me_meter = \<lparr>mt_queue = [], mt_batch = [], mt_dropped = 0, mt_db = db\<rparr>,
     me_recorded = [], me_dropped = [], me_written = [], me_lost = []\<rparr>"

abbreviation me_data :: "metering \<Rightarrow> usage_data" where
  "me_data g \<equiv> svc_data (mt_db (me_meter g))"

definition meter_acc :: "usage_data \<Rightarrow> metering \<Rightarrow> bool" where
  "meter_acc d0 g \<longleftrightarrow>
     mset (me_recorded g) = mset (mt_queue (me_meter g)) + mset (mt_batch (me_meter g)) + mset (me_dropped g) + mset (me_written g) + mset (me_lost g)
   \<and> length (mt_queue (me_meter g)) \<le> QueueSize
   \<and> mt_dropped (me_meter g) = wrap64 (int (length (me_dropped g)))
   \<and> grows (request_row ` (set (me_written g) \<union> set (me_lost g))) d0 (me_data g)
   \<and> (\<forall>r \<in> set (me_written g). has_key (me_data g) (request_row r))"

definition meter_inv :: "usage_data \<Rightarrow> metering \<Rightarrow> bool" where
  "meter_inv d0 g \<longleftrightarrow> meter_acc d0 g \<and> length (mt_batch (me_meter g)) < BatchSize"

lemma wrap64_step: "wrap64 (wrap64 x + 1) = wrap64 (x + 1)"
proof -
  have "(wrap64 x + 1 + 2 ^ 63) mod 2 ^ 64 = ((x + 2 ^ 63) mod 2 ^ 64 + 1) mod 2 ^ 64" by (simp add: wrap64_def add.commute)
  also have "\<dots> = (x + 2 ^ 63 + 1) mod 2 ^ 64" by (simp only: mod_add_left_eq)
  also have "x + 2 ^ 63 + 1 = x + 1 + 2 ^ 63" by simp
  finally show ?thesis by (simp only: wrap64_def)
qed

lemma flush_empty [simp]: "mt_batch (flush F m) = []" "mt_queue (flush F m) = mt_queue m"
  by (auto simp: flush_def split: prod.split)

lemma flush_acc:
  assumes "meter_acc d0 g"
  shows "meter_acc d0 (flushed F (me_meter g) (g\<lparr>me_meter := flush F (me_meter g)\<rparr>))"
proof -
  let ?m = "me_meter g"
  obtain res db where w: "WriteBatch F (mt_batch ?m) (mt_db ?m) = (res, db)" by fastforce
  note new = WriteBatch_grows [OF w]
  have "grows (request_row ` (set (me_written g) \<union> set (me_lost g)) \<union> request_row ` set (mt_batch ?m)) d0 (svc_data db)"
    using assms new grows_trans by (fastforce simp: meter_acc_def)
  then have rows: "grows (request_row ` S) d0 (svc_data db)" if "set (me_written g) \<union> set (me_lost g) \<union> set (mt_batch ?m) \<subseteq> S" for S
    using that by (auto elim!: grows_mono)
  have keys: "\<forall>r \<in> set (me_written g). has_key (svc_data db) (request_row r)"
    using assms new has_key_grows by (fastforce simp: meter_acc_def)
  show "meter_acc d0 (flushed F ?m (g\<lparr>me_meter := flush F ?m\<rparr>))"
  proof (cases "mt_batch ?m = []")
    case False
    have "meter_acc d0 (g\<lparr>me_meter := flush F ?m, me_written := me_written g @ mt_batch ?m\<rparr>)" if "res = Inr ()"
      using assms w new keys rows [of "set (me_written g) \<union> set (mt_batch ?m) \<union> set (me_lost g)"] False that
      by (auto simp: meter_acc_def flush_def)
    moreover have "meter_acc d0 (g\<lparr>me_meter := flush F ?m, me_lost := me_lost g @ mt_batch ?m\<rparr>)"
      using assms w new keys rows [of "set (me_written g) \<union> (set (me_lost g) \<union> set (mt_batch ?m))"] False
      by (auto simp: meter_acc_def flush_def)
    ultimately show ?thesis using w False by (simp add: flushed_def)
  qed (use assms in \<open>simp add: flushed_def flush_def\<close>)
qed

lemma take_acc:
  assumes "meter_acc d0 g" "length (mt_batch (me_meter g)) < BatchSize"
  shows "meter_acc d0 (taken F g)" "length (mt_batch (me_meter (taken F g))) < BatchSize"
    and "me_recorded (taken F g) = me_recorded g" and "me_meter (taken F g) = take_record F (me_meter g)"
proof -
  let ?m = "me_meter g" and ?g = "g\<lparr>me_meter := received (me_meter g)\<rparr>"
  have acc: "meter_acc d0 ?g" using assms(1) by (cases "mt_queue ?m") (auto simp: meter_acc_def received_def)
  have tk: "take_record F ?m = (if mt_queue ?m \<noteq> [] \<and> BatchSize \<le> length (mt_batch (received ?m)) then flush F (received ?m) else received ?m)"
    by (cases "mt_queue ?m") (auto simp: take_record_def received_def)
  have le: "0 < BatchSize" by (simp add: BatchSize_def)
  show "meter_acc d0 (taken F g)" using flush_acc [OF acc, of F] acc by (simp add: taken_def tk Let_def)
  show "me_recorded (taken F g) = me_recorded g" "me_meter (taken F g) = take_record F ?m"
    by (simp_all add: taken_def flushed_def Let_def)
  then show "length (mt_batch (me_meter (taken F g))) < BatchSize"
    using assms(2) le by (cases "mt_queue ?m") (auto simp: tk received_def)
qed

lemma meter_step_inv: "meter_step F g g' \<Longrightarrow> meter_inv d0 g \<Longrightarrow> meter_inv d0 g'"
proof (induction rule: meter_step.induct)
  case (step_record g fresh now r)
  then show ?case
    by (auto simp: meter_inv_def meter_acc_def Meter_Record_def Let_def wrap64_step add.commute [of 1])
next
  case (step_take g)
  then show ?case using take_acc by (auto simp: meter_inv_def)
next
  case (step_tick g)
  then have "meter_acc d0 g" by (simp add: meter_inv_def)
  then show ?case using flush_acc [of d0 g F] by (auto simp: meter_inv_def flushed_def BatchSize_def)
qed

lemma meter_run_inv: "(meter_step F)\<^sup>*\<^sup>* g g' \<Longrightarrow> meter_inv d0 g \<Longrightarrow> meter_inv d0 g'"
  by (induction rule: rtranclp_induct) (auto intro: meter_step_inv)

lemma metering_start_inv: "meter_inv (svc_data db) (metering_start db)"
  by (simp add: meter_inv_def meter_acc_def metering_start_def BatchSize_def wrap64_def)

lemma take_queue: "mt_queue (take_record F m) = tl (mt_queue m)"
  by (cases "mt_queue m") (auto simp: take_record_def flush_def Let_def split: prod.split)

lemma drain_steps:
  assumes "length (mt_queue (me_meter g)) = n"
  shows "\<exists>g'. (meter_step F)\<^sup>*\<^sup>* g g' \<and> me_meter g' = drain F n (me_meter g) \<and> me_recorded g' = me_recorded g \<and> me_dropped g' = me_dropped g
    \<and> mt_queue (me_meter g') = [] \<and> mt_batch (me_meter g') = []"
  using assms
proof (induction n arbitrary: g)
  case 0
  let ?g = "flushed F (me_meter g) (g\<lparr>me_meter := flush F (me_meter g)\<rparr>)"
  have "(meter_step F)\<^sup>*\<^sup>* g ?g" by (simp add: r_into_rtranclp step_tick)
  then show ?case using 0 by (intro exI [of _ ?g]) (auto simp: flushed_def flush_def split: prod.split)
next
  case (Suc n)
  have "me_meter (taken F g) = take_record F (me_meter g)" "me_recorded (taken F g) = me_recorded g" "me_dropped (taken F g) = me_dropped g"
    by (simp_all add: taken_def flushed_def Let_def)
  moreover have "length (mt_queue (take_record F (me_meter g))) = n" using Suc.prems by (simp add: take_queue)
  ultimately obtain g' where "(meter_step F)\<^sup>*\<^sup>* (taken F g) g'" "me_meter g' = drain F n (take_record F (me_meter g))"
    "me_recorded g' = me_recorded g" "me_dropped g' = me_dropped g" "mt_queue (me_meter g') = []" "mt_batch (me_meter g') = []"
    using Suc.IH [of "taken F g"] by auto
  then show ?case using step_take [of F g] by (auto intro!: exI [of _ g'] intro: converse_rtranclp_into_rtranclp)
qed

section \<open>The daily rollup\<close>

text \<open>
  A rollup recomputes a day from the requests of its window only: with the window of thirty minutes
  that the scheduler uses, a later run replaces the sums of the day by those of its last half hour.
\<close>

definition example_request :: "uuid \<Rightarrow> int \<Rightarrow> int \<Rightarrow> SynthRequest" where
  "example_request i chars t = \<lparr>sy_ID = i, sy_TenantID = 7, sy_ApiKeyID = 1, sy_VoiceID = ''v'', sy_CacheKey = [], sy_Mode = ''sync'',
     sy_Chars = chars, sy_DurationMs = Some 10, sy_TtfaMs = None, sy_Cached = False, sy_Status = ''ok'', sy_ErrorCode = None, sy_CreatedAt = t\<rparr>"

lemma rollup_forgets_earlier_requests:
  "let hour = 3600 * 10 ^ 9; window = 1800 * 10 ^ 9; minute = 60 * 10 ^ 9;
       d = \<lparr>ud_requests = [example_request 1 100 hour, example_request 2 5 (10 * hour)], ud_daily = [], ud_partitions = [(1970, 1)]\<rparr>;
       morning = RollupUsageDaily (hour + 1 - window) (hour + 1 + minute) d;
       noon = RollupUsageDaily (10 * hour + 1 - window) (10 * hour + 1 + minute) morning
   in map du_Chars (ud_daily morning) = [100] \<and> map du_Chars (ud_daily noon) = [5]"
  by (simp add: RollupUsageDaily_def billable_def example_request_def daily_sums_def day_of_def day_ns_def upsert_daily_def
      sql_update_def daily_key_def Let_def)

section \<open>Properties\<close>

text \<open>
  C38: every metered request is accounted for, once. Under any interleaving of requests, receives of
  the writer goroutine and ticks, and whatever the database does, the records are exactly those
  queued, in the pending batch, dropped, written, or in a batch whose write failed; the queue and the
  batch stay within their bounds and the counter counts the dropped ones. With distinct record ids
  the table holds one row per written record, keeps its earlier rows and gains no other row than
  those of written records and of failed batches. \<^verbatim>\<open>Stop\<close> leaves nothing queued.
\<close>

theorem metered_requests_accounted:
  assumes "(meter_step F)\<^sup>*\<^sup>* (metering_start db) g"
    and "distinct (map request_key (ud_requests (svc_data db) @ map request_row (me_recorded g)))"
  shows "mset (me_recorded g) = mset (mt_queue (me_meter g)) + mset (mt_batch (me_meter g)) + mset (me_dropped g)
        + mset (me_written g) + mset (me_lost g)
    \<and> length (mt_queue (me_meter g)) \<le> 4096 \<and> length (mt_batch (me_meter g)) < 128
    \<and> Dropped (me_meter g) = wrap64 (int (length (me_dropped g)))
    \<and> distinct (map request_key (ud_requests (me_data g)))
    \<and> set (ud_requests (svc_data db)) \<union> request_row ` set (me_written g) \<subseteq> set (ud_requests (me_data g))
    \<and> set (ud_requests (me_data g)) \<subseteq> set (ud_requests (svc_data db)) \<union> request_row ` (set (me_written g) \<union> set (me_lost g))
    \<and> (\<exists>g'. (meter_step F)\<^sup>*\<^sup>* g g' \<and> me_meter g' = Stop F (me_meter g) \<and> mt_queue (me_meter g') = [] \<and> mt_batch (me_meter g') = []
         \<and> me_recorded g' = me_recorded g \<and> me_dropped g' = me_dropped g)"
proof -
  have inv: "meter_inv (svc_data db) g" using meter_run_inv [OF assms(1) metering_start_inv] .
  then have acc: "meter_acc (svc_data db) g" and "length (mt_batch (me_meter g)) < BatchSize" by (simp_all add: meter_inv_def)
  from acc have rows: "grows (request_row ` (set (me_written g) \<union> set (me_lost g))) (svc_data db) (me_data g)"
    and mset: "mset (me_recorded g) = mset (mt_queue (me_meter g)) + mset (mt_batch (me_meter g)) + mset (me_dropped g)
        + mset (me_written g) + mset (me_lost g)" by (simp_all add: meter_acc_def)
  have sub: "set (me_written g) \<union> set (me_lost g) \<subseteq> set (me_recorded g)"
    using arg_cong [OF mset, of set_mset] by auto
  have "set (ud_requests (me_data g)) \<subseteq> set (ud_requests (svc_data db)) \<union> request_row ` (set (me_written g) \<union> set (me_lost g))"
    using rows by (simp add: grows_def)
  then have within: "set (ud_requests (me_data g)) \<subseteq> set (ud_requests (svc_data db) @ map request_row (me_recorded g))"
    using image_mono [OF sub, of request_row] by (simp only: set_append set_map) blast
  have ok: "usage_ok (svc_data db)" using assms(2) by (simp add: usage_ok_def)
  have "request_row r \<in> set (ud_requests (me_data g))" if r: "r \<in> set (me_written g)" for r
  proof -
    obtain q where q: "q \<in> set (ud_requests (me_data g))" "request_key q = request_key (request_row r)"
      using acc r by (auto simp: meter_acc_def has_key_def)
    then have "q \<in> set (ud_requests (svc_data db) @ map request_row (me_recorded g))"
      "request_row r \<in> set (ud_requests (svc_data db) @ map request_row (me_recorded g))"
      using within sub r by (blast, auto)
    then have "q = request_row r" using assms(2) q(2) by (meson distinct_map inj_onD)
    then show ?thesis using q(1) by simp
  qed
  then show ?thesis
    using mset rows ok acc drain_steps [OF refl, of F g] \<open>length (mt_batch (me_meter g)) < BatchSize\<close>
    by (auto simp: grows_def usage_ok_def meter_acc_def Dropped_def Stop_def QueueSize_def BatchSize_def)
qed

definition example_record :: UsageRecord where
  "example_record = \<lparr>ur_ID = 0, ur_TenantID = 7, ur_KeyID = 1, ur_VoiceID = ''v'', ur_CacheKey = [], ur_Mode = ''sync'', ur_Chars = 3,
     ur_DurationMS = 10, ur_TTFAMS = 0, ur_Cached = False, ur_Status = ''ok'', ur_ErrorCode = [], ur_CreatedAt = None\<rparr>"

definition example_usage :: "usage_data svc" where
  "example_usage = \<lparr>svc_data = \<lparr>ud_requests = [], ud_daily = [], ud_partitions = [(1970, 1)]\<rparr>, svc_calls = 0\<rparr>"

text \<open>One request is recorded, received and flushed: it is the only row.\<close>

theorem metered_requests_accounted_witness:
  "\<exists>g. (meter_step (\<lambda>_. Fine))\<^sup>*\<^sup>* (metering_start example_usage) g \<and> me_recorded g = [stamped 5 9 example_record]
     \<and> Dropped (me_meter g) = 0 \<and> length (mt_queue (me_meter g)) \<le> 4096"
proof -
  let ?F = "\<lambda>_. Fine"
  let ?g = "(metering_start example_usage)\<lparr>me_meter := Meter_Record 5 9 example_record (me_meter (metering_start example_usage)),
    me_recorded := me_recorded (metering_start example_usage) @ [stamped 5 9 example_record],
    me_dropped := me_dropped (metering_start example_usage) @ (if length (mt_queue (me_meter (metering_start example_usage))) < QueueSize
      then [] else [stamped 5 9 example_record])\<rparr>"
  have run: "(meter_step ?F)\<^sup>*\<^sup>* (metering_start example_usage) ?g" by (intro r_into_rtranclp step_record)
  have rec: "me_recorded ?g = [stamped 5 9 example_record]" "me_dropped ?g = []" by (simp_all add: metering_start_def QueueSize_def)
  have "ud_requests (svc_data example_usage) = []" by (simp add: example_usage_def)
  then show ?thesis using metered_requests_accounted [OF run] rec run by (intro exI [of _ ?g]) (simp add: wrap64_def)
qed

end
