(* ===== verification/Maintenance.thy ===== *)
theory Maintenance
  imports Usage Cache Redis
begin

text \<open>
  Scheduled maintenance: package \<^verbatim>\<open>internal/maintenance\<close> with its repository
  (\<^verbatim>\<open>storage/postgres/maintenancerepo.go\<close>) over the usage tables and the cache catalogue. The lemmas
  show what the eviction sweep may remove and which months the partition task covers.
\<close>

section \<open>The repository (\<^verbatim>\<open>maintenancerepo.go\<close>)\<close>

datatype maintenance_error = MaintenanceFailed

record CacheEntry =
  ce_CacheKey :: Key
  ce_S3Key :: string

definition EvictableCacheEntries :: "int \<Rightarrow> nat \<Rightarrow> AudioCache list \<Rightarrow> CacheEntry list" where
  "EvictableCacheEntries idleBefore limit rows =
    map (\<lambda>r. \<lparr>ce_CacheKey = ac_key r, ce_S3Key = S3Key (ac_entry r)\<rparr>)
      (take limit (sort_key ac_last_hit_at (filter (\<lambda>r. ac_last_hit_at r < idleBefore) rows)))"

definition DeleteCacheEntry :: "Key \<Rightarrow> AudioCache list \<Rightarrow> AudioCache list" where
  "DeleteCacheEntry k rows = filter (\<lambda>r. ac_key r \<noteq> k) rows"

text \<open>The two databases of the tasks: the usage tables, and the cache with its objects.\<close>

record maintained =
  mn_usage :: "usage_data svc"
  mn_cache :: "cache_data svc"

definition on_usage :: "(usage_data svc, 'e, 'a) op \<Rightarrow> (maintained, maintenance_error, 'a) op" where
  "on_usage m s = (let (r, d) = m (mn_usage s) in (case r of Inl _ \<Rightarrow> Inl MaintenanceFailed | Inr a \<Rightarrow> Inr a, s\<lparr>mn_usage := d\<rparr>))"

definition on_cached :: "(cache_data svc, 'e, 'a) op \<Rightarrow> (maintained, maintenance_error, 'a) op" where
  "on_cached m s = (let (r, d) = m (mn_cache s) in (case r of Inl _ \<Rightarrow> Inl MaintenanceFailed | Inr a \<Rightarrow> Inr a, s\<lparr>mn_cache := d\<rparr>))"

definition RollupUsage :: "(nat \<Rightarrow> fault) \<Rightarrow> int \<Rightarrow> int \<Rightarrow> (usage_data svc, usage_error, unit) op" where
  "RollupUsage F from till = call F UsageFailed (\<lambda>d. (Inr (), RollupUsageDaily from till d))"

definition EnsurePartition :: "(nat \<Rightarrow> fault) \<Rightarrow> int \<Rightarrow> (usage_data svc, usage_error, string) op" where
  "EnsurePartition F t = call F UsageFailed (\<lambda>d. let (name, d') = ensure_partition t d in (Inr name, d'))"

definition Repo_Evictable :: "(nat \<Rightarrow> fault) \<Rightarrow> int \<Rightarrow> nat \<Rightarrow> (cache_data svc, cache_error, CacheEntry list) op" where
  "Repo_Evictable F idleBefore limit = call F CatalogueFailed (\<lambda>d. (Inr (EvictableCacheEntries idleBefore limit (cd_rows d)), d))"

definition Repo_DeleteCacheEntry :: "(nat \<Rightarrow> fault) \<Rightarrow> Key \<Rightarrow> (cache_data svc, cache_error, unit) op" where
  "Repo_DeleteCacheEntry F k = call F CatalogueFailed (\<lambda>d. (Inr (), d\<lparr>cd_rows := DeleteCacheEntry k (cd_rows d)\<rparr>))"

section \<open>Tasks (\<^verbatim>\<open>scheduler.go\<close>)\<close>

definition RollupEvery :: int where "RollupEvery = 300 * 10 ^ 9"
definition EvictionEvery :: int where "EvictionEvery = 24 * 3600 * 10 ^ 9"
definition PartitionsEvery :: int where "PartitionsEvery = 24 * 3600 * 10 ^ 9"
definition RollupWindow :: int where "RollupWindow = 1800 * 10 ^ 9"
definition CacheMaxIdle :: int where "CacheMaxIdle = 30 * 24 * 3600 * 10 ^ 9"
definition evictionBatch :: nat where "evictionBatch = 500"

record 's Task =
  task_Name :: string
  task_Every :: int
  task_Run :: "('s, maintenance_error, unit) op"
  task_LockTTL :: int

text \<open>The sweep: the object goes first; a row whose object could not be deleted stays.\<close>

fun evict_loop :: "(nat \<Rightarrow> fault) \<Rightarrow> CacheEntry list \<Rightarrow> (cache_data svc, cache_error, unit) op" where
  "evict_loop F [] = returnE ()"
| "evict_loop F (e # es) =
    catchE (objDelete (dep_store F) (ce_S3Key e)) (\<lambda>_. evict_loop F es)
      (\<lambda>_. bindE (Repo_DeleteCacheEntry F (ce_CacheKey e)) (\<lambda>_. evict_loop F es))"

definition evictCache :: "(nat \<Rightarrow> fault) \<Rightarrow> int \<Rightarrow> (cache_data svc, cache_error, unit) op" where
  "evictCache F now = bindE (Repo_Evictable F (now - CacheMaxIdle) evictionBatch) (evict_loop F)"

definition ensure_ahead :: "(nat \<Rightarrow> fault) \<Rightarrow> int \<Rightarrow> int \<Rightarrow> (usage_data svc, usage_error, unit) op" where
  "ensure_ahead F now1 now2 =
    bindE (EnsurePartition F (AddDate 0 1 0 now1)) (\<lambda>_. bindE (EnsurePartition F (AddDate 0 2 0 now2)) (\<lambda>_. returnE ()))"

text \<open>The standard schedule; the tasks read the clock when they run, the last one twice.\<close>

definition Tasks :: "(nat \<Rightarrow> fault) \<Rightarrow> int \<Rightarrow> int \<Rightarrow> maintained Task list" where
  "Tasks F now now' =
    [\<lparr>task_Name = ''usage-rollup'', task_Every = RollupEvery,
       task_Run = on_usage (RollupUsage F (now - RollupWindow) (now + 60 * 10 ^ 9)), task_LockTTL = RollupEvery\<rparr>,
     \<lparr>task_Name = ''cache-eviction'', task_Every = EvictionEvery,
       task_Run = on_cached (evictCache F now), task_LockTTL = 3600 * 10 ^ 9\<rparr>,
     \<lparr>task_Name = ''partition-maintenance'', task_Every = PartitionsEvery,
       task_Run = on_usage (ensure_ahead F now now'), task_LockTTL = 600 * 10 ^ 9\<rparr>]"

text \<open>One run of a task by one replica: under its lock, which is released whatever the task returned.\<close>

definition Scheduler_RunOnce :: "'w redis \<Rightarrow> string \<Rightarrow> 's Task \<Rightarrow> 'w \<times> 's \<Rightarrow> bool \<times> 'w \<times> 's" where
  "Scheduler_RunOnce rdb token task = (\<lambda>(w, s).
    let ttl = (if task_LockTTL task \<le> 0 then task_Every task else task_LockTTL task);
        name = ''sched:'' @ task_Name task
    in case Lock_Acquire rdb token name ttl w of
         (Inr True, w1) \<Rightarrow> (let (_, s1) = task_Run task s in (True, Lock_Release rdb token name w1, s1))
       | (_, w1) \<Rightarrow> (False, w1, s))"

section \<open>What the sweep removes\<close>

text \<open>Idle rows may go, each after its object; nothing else changes.\<close>

definition evicts :: "AudioCache set \<Rightarrow> cache_data \<Rightarrow> cache_data \<Rightarrow> bool" where
  "evicts V d d' \<longleftrightarrow> cd_hashes d' = cd_hashes d \<and> (\<exists>keep. cd_rows d' = filter keep (cd_rows d))
     \<and> (\<forall>r \<in> set (cd_rows d). r \<notin> set (cd_rows d') \<longrightarrow> r \<in> V \<and> cd_objects d' (S3Key (ac_entry r)) = None)
     \<and> (\<forall>k. cd_objects d' k = cd_objects d k \<or> k \<in> (S3Key \<circ> ac_entry) ` V \<and> cd_objects d' k = None)"

lemma evicts_refl [simp]: "evicts V d d"
  by (auto simp: evicts_def intro: exI [of _ "\<lambda>_. True"])

lemma evicts_trans:
  assumes "evicts V d d1" "evicts V d1 d2"
  shows "evicts V d d2"
proof -
  obtain p q where "cd_rows d1 = filter p (cd_rows d)" "cd_rows d2 = filter q (cd_rows d1)" using assms by (auto simp: evicts_def)
  then have "cd_rows d2 = filter (\<lambda>x. q x \<and> p x) (cd_rows d)" by (simp add: conj_commute)
  moreover have "cd_objects d2 k = None" if "cd_objects d1 k = None" for k using assms(2) that unfolding evicts_def by metis
  moreover have "cd_objects d2 k = cd_objects d k \<or> k \<in> (S3Key \<circ> ac_entry) ` V \<and> cd_objects d2 k = None" for k
    using assms unfolding evicts_def by metis
  moreover have "r \<in> V \<and> cd_objects d2 (S3Key (ac_entry r)) = None" if "r \<in> set (cd_rows d)" "r \<notin> set (cd_rows d2)" for r
    using assms that calculation(2) unfolding evicts_def by metis
  moreover have "cd_hashes d2 = cd_hashes d" using assms by (simp add: evicts_def)
  ultimately show ?thesis unfolding evicts_def by blast
qed

definition owned_by :: "AudioCache set \<Rightarrow> AudioCache list \<Rightarrow> CacheEntry \<Rightarrow> bool" where
  "owned_by V rows e \<longleftrightarrow> (\<exists>v \<in> V. S3Key (ac_entry v) = ce_S3Key e \<and> (\<forall>r \<in> set rows. ac_key r = ce_CacheKey e \<longrightarrow> r = v))"

lemma owned_by_evicts: "owned_by V (cd_rows d) e \<Longrightarrow> evicts V d d' \<Longrightarrow> owned_by V (cd_rows d') e"
  by (auto simp: owned_by_def evicts_def)

lemma delete_object:
  assumes "objDelete (dep_store F) (ce_S3Key e) s = (res, s')" "owned_by V (cd_rows (svc_data s)) e"
  shows "evicts V (svc_data s) (svc_data s') \<and> (\<forall>u. res = Inr u \<longrightarrow> cd_objects (svc_data s') (ce_S3Key e) = None)"
proof -
  have del: "evicts V d (d\<lparr>cd_objects := (cd_objects d)(ce_S3Key e := None)\<rparr>)" if "d = svc_data s" for d
    using assms(2) that by (auto simp: evicts_def owned_by_def intro: exI [of _ "\<lambda>_. True"] rev_image_eqI)
  have "call F ObjectFailed (\<lambda>d. (Inr (), d\<lparr>cd_objects := (cd_objects d)(ce_S3Key e := None)\<rparr>)) s = (res, s')"
    using assms(1) by (simp add: dep_store_def)
  then show ?thesis using del by (cases rule: call_cases) auto
qed

lemma delete_row:
  assumes "Repo_DeleteCacheEntry F (ce_CacheKey e) s = (res, s')" "owned_by V (cd_rows (svc_data s)) e"
    and "cd_objects (svc_data s) (ce_S3Key e) = None"
  shows "evicts V (svc_data s) (svc_data s')"
proof -
  have "evicts V d (d\<lparr>cd_rows := DeleteCacheEntry (ce_CacheKey e) (cd_rows d)\<rparr>)" if "d = svc_data s" for d
    using assms(2,3) that by (auto simp: evicts_def owned_by_def DeleteCacheEntry_def)
  then show ?thesis using assms(1) unfolding Repo_DeleteCacheEntry_def by (elim call_cases) auto
qed

lemma evict_loop_evicts:
  assumes "evict_loop F es s = (res, s')" "list_all (owned_by V (cd_rows (svc_data s))) es"
  shows "evicts V (svc_data s) (svc_data s')"
  using assms
proof (induction es arbitrary: s)
  case Nil
  then show ?case by (simp add: returnE_def)
next
  case (Cons e es)
  obtain r1 s1 where obj: "objDelete (dep_store F) (ce_S3Key e) s = (r1, s1)" by fastforce
  obtain r2 s2 where row: "Repo_DeleteCacheEntry F (ce_CacheKey e) s1 = (r2, s2)" by fastforce
  have one: "evicts V (svc_data s) (svc_data s1)" "r1 = Inr u \<Longrightarrow> cd_objects (svc_data s1) (ce_S3Key e) = None" for u
    using delete_object [OF obj] Cons.prems(2) by auto
  have own: "list_all (owned_by V (cd_rows (svc_data s1))) (e # es)" using Cons.prems(2) owned_by_evicts [OF _ one(1)] by (auto simp: list_all_iff)
  show ?case
  proof (cases r1)
    case (Inl err)
    then have "evict_loop F es s1 = (res, s')" using Cons.prems(1) obj by (simp add: catchE_def)
    then show ?thesis using Cons.IH own evicts_trans [OF one(1)] by simp
  next
    case (Inr u)
    then have two: "evicts V (svc_data s1) (svc_data s2)" using delete_row [OF row] own one(2) by simp
    then have own2: "list_all (owned_by V (cd_rows (svc_data s2))) es" using own owned_by_evicts [OF _ two] by (auto simp: list_all_iff)
    have "s' = s2 \<or> evict_loop F es s2 = (res, s')"
      using Cons.prems(1) obj row Inr by (cases r2) (simp_all add: catchE_def bindE_def)
    then show ?thesis using Cons.IH own2 evicts_trans [OF evicts_trans [OF one(1) two]] evicts_trans [OF one(1) two] by auto
  qed
qed

lemma evict_loop_fine:
  assumes "\<And>n. F n = Fine" "evict_loop F es s = (res, s')"
  shows "res = Inr () \<and> cd_rows (svc_data s') = filter (\<lambda>r. ac_key r \<notin> ce_CacheKey ` set es) (cd_rows (svc_data s))"
  using assms(2)
proof (induction es arbitrary: s)
  case (Cons e es)
  then show ?case
    by (simp add: catchE_def bindE_def dep_store_def Repo_DeleteCacheEntry_def call_fine assms(1) DeleteCacheEntry_def conj_commute)
qed (simp add: returnE_def)

definition idle_rows :: "int \<Rightarrow> AudioCache list \<Rightarrow> AudioCache list" where
  "idle_rows now rows = take evictionBatch (sort_key ac_last_hit_at (filter (\<lambda>r. ac_last_hit_at r < now - CacheMaxIdle) rows))"

lemma idle_rows_sub: "set (idle_rows now rows) \<subseteq> {r \<in> set rows. ac_last_hit_at r < now - CacheMaxIdle}"
  using set_take_subset [of evictionBatch "sort_key ac_last_hit_at (filter (\<lambda>r. ac_last_hit_at r < now - CacheMaxIdle) rows)"]
  by (auto simp: idle_rows_def)

lemma card_idle_rows: "card (set (idle_rows now rows)) \<le> 500"
  using card_length [of "idle_rows now rows"] by (simp add: idle_rows_def evictionBatch_def)

lemma evictCache_run:
  assumes "evictCache F now s = (res, s')"
  obtains (failed) e where "res = Inl e" "svc_data s' = svc_data s" "F (svc_calls s) \<noteq> Fine"
  | (swept) s1 es where "svc_data s1 = svc_data s" "evict_loop F es s1 = (res, s')"
      "es = map (\<lambda>r. \<lparr>ce_CacheKey = ac_key r, ce_S3Key = S3Key (ac_entry r)\<rparr>) (idle_rows now (cd_rows (svc_data s)))"
proof -
  let ?es = "EvictableCacheEntries (now - CacheMaxIdle) evictionBatch (cd_rows (svc_data s))"
  obtain r1 s1 where q: "Repo_Evictable F (now - CacheMaxIdle) evictionBatch s = (r1, s1)" by fastforce
  then have s1: "svc_data s1 = svc_data s" "r1 = Inr ?es \<or> (\<exists>e. r1 = Inl e)"
    unfolding Repo_Evictable_def by (elim call_cases; simp)+
  show ?thesis
  proof (cases r1)
    case (Inl e)
    have "F (svc_calls s) \<noteq> Fine" using q Inl by (auto simp: Repo_Evictable_def call_fine)
    then show ?thesis using assms q Inl s1 by (intro failed [of e]) (auto simp: evictCache_def bindE_def)
  next
    case (Inr es)
    then have "evict_loop F es s1 = (res, s')" using assms q by (simp add: evictCache_def bindE_def)
    moreover have "es = ?es" using s1 Inr by simp
    ultimately show ?thesis using s1(1) swept by (simp add: EvictableCacheEntries_def idle_rows_def)
  qed
qed

lemma idle_owned:
  assumes "distinct (map ac_key rows)"
  shows "list_all (owned_by (set (idle_rows now rows)) rows)
    (map (\<lambda>r. \<lparr>ce_CacheKey = ac_key r, ce_S3Key = S3Key (ac_entry r)\<rparr>) (idle_rows now rows))"
proof -
  have "owned_by (set (idle_rows now rows)) rows \<lparr>ce_CacheKey = ac_key v, ce_S3Key = S3Key (ac_entry v)\<rparr>"
    if "v \<in> set (idle_rows now rows)" for v
  proof -
    have "v \<in> set rows" using that idle_rows_sub by blast
    then have "\<forall>r \<in> set rows. ac_key r = ac_key v \<longrightarrow> r = v" using assms by (auto simp: distinct_map inj_on_def)
    then show ?thesis using that by (auto simp: owned_by_def)
  qed
  then show ?thesis by (simp add: list_all_iff)
qed

text \<open>
  The partition task looks one and two months ahead with \<^verbatim>\<open>AddDate\<close>, which carries a day past the end of a
  month into the next: on 31 January it makes the partition of March twice and none for February.
\<close>

lemma partitions_skip_february:
  "let d = \<lparr>ud_requests = [], ud_daily = [], ud_partitions = [(2026, 1)]\<rparr>; now = days_from_civil 2026 1 31 * day_ns
   in ud_partitions (svc_data (snd (ensure_ahead (\<lambda>_. Fine) now now \<lparr>svc_data = d, svc_calls = 0\<rparr>))) = [(2026, 1), (2026, 3)]"
proof -
  let ?now = "days_from_civil 2026 1 31 * day_ns"
  have "month_of (AddDate 0 1 0 ?now) = (2026, 3)" "month_of (AddDate 0 2 0 ?now) = (2026, 3)" by code_simp+
  then show ?thesis by (simp add: ensure_ahead_def EnsurePartition_def ensure_partition_def bindE_def returnE_def call_def)
qed

section \<open>Properties\<close>

text \<open>
  C40: the cache eviction sweep removes idle entries only (NFR-11, FL-07). There are at most 500 rows, all
  unused for thirty days, such that whatever fails, only these lose their row, each only when its
  object is gone, only their objects are deleted, and index and other rows stay; and when nothing
  fails all of them are removed.
\<close>

theorem cache_eviction_sweeps_idle_only:
  assumes "evictCache F now s = (res, s')" and "distinct (map ac_key (cd_rows (svc_data s)))"
  shows "\<exists>V \<subseteq> set (cd_rows (svc_data s)). card V \<le> 500 \<and> (\<forall>v \<in> V. ac_last_hit_at v < now - 30 * 24 * 3600 * 10 ^ 9)
    \<and> cd_hashes (svc_data s') = cd_hashes (svc_data s) \<and> set (cd_rows (svc_data s')) \<subseteq> set (cd_rows (svc_data s))
    \<and> (\<forall>r \<in> set (cd_rows (svc_data s)). r \<notin> set (cd_rows (svc_data s')) \<longrightarrow> r \<in> V \<and> cd_objects (svc_data s') (S3Key (ac_entry r)) = None)
    \<and> (\<forall>k. cd_objects (svc_data s') k = cd_objects (svc_data s) k
         \<or> (\<exists>v \<in> V. k = S3Key (ac_entry v)) \<and> cd_objects (svc_data s') k = None)
    \<and> ((\<forall>n. F n = Fine) \<longrightarrow> res = Inr () \<and> set (cd_rows (svc_data s')) = set (cd_rows (svc_data s)) - V)"
proof -
  let ?rows = "cd_rows (svc_data s)"
  let ?V = "set (idle_rows now ?rows)"
  have run: "evicts ?V (svc_data s) (svc_data s') \<and> ((\<forall>n. F n = Fine) \<longrightarrow> res = Inr () \<and> set (cd_rows (svc_data s')) = set ?rows - ?V)"
    using assms(1)
  proof (cases rule: evictCache_run)
    case (failed e)
    then show ?thesis by auto
  next
    case (swept s1 es)
    have own: "list_all (owned_by ?V (cd_rows (svc_data s1))) es" using idle_owned [OF assms(2)] swept by simp
    have keys: "ac_key r \<in> ce_CacheKey ` set es \<longleftrightarrow> r \<in> ?V" if "r \<in> set ?rows" for r
      using swept(3) that idle_rows_sub [of now ?rows] assms(2) by (auto simp: image_image distinct_map inj_on_def)
    have "res = Inr () \<and> set (cd_rows (svc_data s')) = set ?rows - ?V" if "\<And>n. F n = Fine"
      using evict_loop_fine [OF that swept(2)] swept(1) keys by auto
    then show ?thesis using evict_loop_evicts [OF swept(2) own] swept(1) by simp
  qed
  have "?V \<subseteq> set ?rows" "\<forall>v \<in> ?V. ac_last_hit_at v < now - 30 * 24 * 3600 * 10 ^ 9"
    using idle_rows_sub [of now ?rows] by (auto simp: CacheMaxIdle_def)
  then show ?thesis using run card_idle_rows [of now ?rows]
    by (intro exI [of _ ?V]) (auto simp: evicts_def)
qed

definition example_entry :: "Key \<Rightarrow> int \<Rightarrow> AudioCache" where
  "example_entry k t = \<lparr>ac_key = k, ac_entry = \<lparr>S3Key = ObjectKey k, Format = ''pcm16'', entry_DurationMS = 5, Bytes = 2\<rparr>,
     ac_hit_count = 0, ac_created_at = t, ac_last_hit_at = t\<rparr>"

definition example_catalogue :: "cache_data svc" where
  "example_catalogue = \<lparr>svc_data = \<lparr>cd_hashes = (\<lambda>_. []), cd_objects = (\<lambda>k. if k = ObjectKey [1] then Some [0, 0] else None),
     cd_rows = [example_entry [1] 0, example_entry [2] (31 * 24 * 3600 * 10 ^ 9)]\<rparr>, svc_calls = 0\<rparr>"

text \<open>Of two entries, one idle for 31 days: only that one goes.\<close>

theorem cache_eviction_sweeps_idle_only_witness:
  "set (cd_rows (svc_data (snd (evictCache (\<lambda>_. Fine) (31 * 24 * 3600 * 10 ^ 9) example_catalogue)))) \<supseteq> {example_entry [2] (31 * 24 * 3600 * 10 ^ 9)}"
proof -
  let ?now = "31 * 24 * 3600 * 10 ^ 9 :: int"
  obtain res s' where run: "evictCache (\<lambda>_. Fine) ?now example_catalogue = (res, s')" by fastforce
  have "distinct (map ac_key (cd_rows (svc_data example_catalogue)))" by (simp add: example_catalogue_def example_entry_def)
  from cache_eviction_sweeps_idle_only [OF run this] obtain V where
    V: "\<forall>v \<in> V. ac_last_hit_at v < ?now - 30 * 24 * 3600 * 10 ^ 9"
    and rows: "set (cd_rows (svc_data s')) = set (cd_rows (svc_data example_catalogue)) - V" by auto
  have "example_entry [2] ?now \<notin> V" using V by (auto simp: example_entry_def)
  then show ?thesis using rows run by (simp add: example_catalogue_def)
qed

end
