(* ===== verification/Http.thy ===== *)
theory Http
  imports Auth Ratelimit Degrade Webhook Voices
begin

text \<open>
  The HTTP edge: package \<^verbatim>\<open>internal/http\<close> without the endpoint handlers (theory Handlers). A handler
  is a function from a request and an exchange, the response written so far beside the world the
  use cases act on, to an exchange; a middleware is a function on handlers, as in the code. Log
  lines, metrics and tracing are left out; the text a JSON encoder produces is left to the encoder.
\<close>

section \<open>Problems (\<^verbatim>\<open>problem.go\<close>)\<close>

datatype Code = CodeInvalidRequest | CodeTextTooLong | CodeUnknownVoice | CodeUnauthorized | CodeForbiddenScope
  | CodeQuotaExceeded | CodeRateLimited | CodeConcurrencyLimited | CodeOverloaded | CodeJobNotFound
  | CodeIdempotencyConflict | CodeInternal

fun code_text :: "Code \<Rightarrow> string" where
  "code_text CodeInvalidRequest = ''invalid_request''"
| "code_text CodeTextTooLong = ''text_too_long''"
| "code_text CodeUnknownVoice = ''unknown_voice''"
| "code_text CodeUnauthorized = ''unauthorized''"
| "code_text CodeForbiddenScope = ''forbidden_scope''"
| "code_text CodeQuotaExceeded = ''quota_exceeded''"
| "code_text CodeRateLimited = ''rate_limited''"
| "code_text CodeConcurrencyLimited = ''concurrency_limited''"
| "code_text CodeOverloaded = ''overloaded''"
| "code_text CodeJobNotFound = ''job_not_found''"
| "code_text CodeIdempotencyConflict = ''idempotency_conflict''"
| "code_text CodeInternal = ''internal''"

definition ContentTypeProblem :: string where "ContentTypeProblem = ''application/problem+json''"

definition problemTypeBase :: string where "problemTypeBase = ''https://docs.vitts.dev/errors/''"

record Problem =
  pb_Type :: string
  pb_Title :: string
  pb_Status :: int
  pb_Detail :: string
  pb_Instance :: string
  pb_Code :: Code
  pb_RequestID :: string

text \<open>The cause of an error is logged only, and left out.\<close>

record http_error =
  e_Code :: Code
  e_Status :: int
  e_Title :: string
  e_Detail :: string
  e_RetryAfter :: int  \<comment> \<open>nanoseconds\<close>

fun statusFor :: "Code \<Rightarrow> int \<times> string" where
  "statusFor CodeInvalidRequest = (400, ''Invalid request'')"
| "statusFor CodeTextTooLong = (413, ''Text too long'')"
| "statusFor CodeUnknownVoice = (422, ''Unknown voice'')"
| "statusFor CodeUnauthorized = (401, ''Unauthorized'')"
| "statusFor CodeForbiddenScope = (403, ''Forbidden scope'')"
| "statusFor CodeJobNotFound = (404, ''Job not found'')"
| "statusFor CodeIdempotencyConflict = (409, ''Idempotency conflict'')"
| "statusFor CodeQuotaExceeded = (402, ''Quota exceeded'')"
| "statusFor CodeRateLimited = (429, ''Rate limited'')"
| "statusFor CodeConcurrencyLimited = (429, ''Concurrency limited'')"
| "statusFor CodeOverloaded = (503, ''Overloaded'')"
| "statusFor CodeInternal = (500, ''Internal error'')"

definition NewError :: "Code \<Rightarrow> string \<Rightarrow> http_error" where
  "NewError code detail = \<lparr>e_Code = code, e_Status = fst (statusFor code), e_Title = snd (statusFor code), e_Detail = detail, e_RetryAfter = 0\<rparr>"

text \<open>The literal \<^verbatim>\<open>&Error{Code: code, Cause: err}\<close>.\<close>

definition bare_error :: "Code \<Rightarrow> http_error" where
  "bare_error code = \<lparr>e_Code = code, e_Status = 0, e_Title = [], e_Detail = [], e_RetryAfter = 0\<rparr>"

text \<open>\<^verbatim>\<open>math.Ceil(d.Seconds())\<close> in double arithmetic, never below one.\<close>

definition duration_seconds :: "int \<Rightarrow> rat" where
  "duration_seconds d = f64 (of_int (go_quot d (10 ^ 9)) + f64 (of_int (d - go_quot d (10 ^ 9) * 10 ^ 9) / 10 ^ 9))"

definition retry_seconds :: "int \<Rightarrow> int" where
  "retry_seconds d = (let seconds = \<lceil>duration_seconds d\<rceil> in if seconds < 1 then 1 else seconds)"

definition retryAfterSeconds :: "int \<Rightarrow> string" where
  "retryAfterSeconds d = Itoa (retry_seconds d)"

section \<open>Requests and responses\<close>

text \<open>
  What the handlers read of a request: \<^verbatim>\<open>Header.Get\<close>, \<^verbatim>\<open>URL.Query().Get\<close> and \<^verbatim>\<open>chi.URLParam\<close> give the empty
  string for what is absent. The last two fields are the context values the middlewares attach.
\<close>

record http_request =
  hr_Method :: string
  hr_Path :: string
  hr_Header :: "string \<Rightarrow> string"
  hr_Query :: "string \<Rightarrow> string"
  hr_Param :: "string \<Rightarrow> string"
  hr_Body :: string
  hr_RemoteAddr :: string
  hr_requestID :: string
  hr_identity :: "Identity option"

text \<open>A response body is a problem document or what the endpoint writes.\<close>

datatype 'd payload = ProblemBody Problem | Body 'd

text \<open>
  A response writer: the header map, the status line with the headers as they were when it was
  sent, and the body pieces written. A second \<^verbatim>\<open>WriteHeader\<close> is ignored; a body without a status
  line sends 200 first.
\<close>

record 'd response =
  rw_Header :: "string \<Rightarrow> string option"
  rw_sent :: "(int \<times> (string \<Rightarrow> string option)) option"
  rw_body :: "'d payload list"

definition fresh_response :: "'d response" where
  "fresh_response = \<lparr>rw_Header = Map.empty, rw_sent = None, rw_body = []\<rparr>"

definition Header_Set :: "string \<Rightarrow> string \<Rightarrow> 'd response \<Rightarrow> 'd response" where
  "Header_Set k v w = w\<lparr>rw_Header := (rw_Header w)(k \<mapsto> v)\<rparr>"

definition WriteHeader_status :: "int \<Rightarrow> 'd response \<Rightarrow> 'd response" where
  "WriteHeader_status status w = (if rw_sent w = None then w\<lparr>rw_sent := Some (status, rw_Header w)\<rparr> else w)"

definition Write_body :: "'d payload \<Rightarrow> 'd response \<Rightarrow> 'd response" where
  "Write_body b w = (let w' = WriteHeader_status 200 w in w'\<lparr>rw_body := rw_body w' @ [b]\<rparr>)"

lemmas response_simps = Header_Set_def WriteHeader_status_def Write_body_def Let_def

record ('w, 'd) exchange =
  x_writer :: "'d response"
  x_world :: 'w

type_synonym ('w, 'd) handler = "http_request \<Rightarrow> ('w, 'd) exchange \<Rightarrow> ('w, 'd) exchange"

definition writing :: "('d response \<Rightarrow> 'd response) \<Rightarrow> ('w, 'd) exchange \<Rightarrow> ('w, 'd) exchange" where
  "writing f x = x\<lparr>x_writer := f (x_writer x)\<rparr>"

text \<open>A call of a use case from a handler, with the branch for its error and the one for its result.\<close>

definition calling :: "('w, 'e, 'a) op \<Rightarrow> ('e \<Rightarrow> ('w, 'd) exchange \<Rightarrow> 'r) \<Rightarrow> ('a \<Rightarrow> ('w, 'd) exchange \<Rightarrow> 'r) \<Rightarrow> ('w, 'd) exchange \<Rightarrow> 'r" where
  "calling m h k x = (case m (x_world x) of (Inl e, w) \<Rightarrow> h e (x\<lparr>x_world := w\<rparr>) | (Inr a, w) \<Rightarrow> k a (x\<lparr>x_world := w\<rparr>))"

definition HeaderRetryAfter :: string where "HeaderRetryAfter = ''Retry-After''"
definition HeaderRateLimitLimit :: string where "HeaderRateLimitLimit = ''X-RateLimit-Limit''"
definition HeaderRateLimitRemain :: string where "HeaderRateLimitRemain = ''X-RateLimit-Remaining''"
definition HeaderRateLimitResetSec :: string where "HeaderRateLimitResetSec = ''X-RateLimit-Reset''"
definition HeaderContentType :: string where "HeaderContentType = ''Content-Type''"

text \<open>\<^verbatim>\<open>toProblem\<close>; \<^const>\<open>None\<close> is an error that is no \<^verbatim>\<open>*Error\<close>.\<close>

definition with_defaults :: "http_error \<Rightarrow> http_error" where
  "with_defaults e = e\<lparr>e_Status := (if e_Status e = 0 then fst (statusFor (e_Code e)) else e_Status e),
     e_Title := (if e_Title e = [] then snd (statusFor (e_Code e)) else e_Title e)\<rparr>"

definition toProblem :: "http_request \<Rightarrow> http_error option \<Rightarrow> Problem" where
  "toProblem r err =
    (let mapped = with_defaults (case err of None \<Rightarrow> NewError CodeInternal [] | Some e \<Rightarrow> e)
     in \<lparr>pb_Type = problemTypeBase @ code_text (e_Code mapped), pb_Title = e_Title mapped, pb_Status = e_Status mapped,
         pb_Detail = e_Detail mapped, pb_Instance = hr_Path r, pb_Code = e_Code mapped, pb_RequestID = hr_requestID r\<rparr>)"

definition WriteProblem :: "http_request \<Rightarrow> http_error option \<Rightarrow> ('w, 'd) exchange \<Rightarrow> ('w, 'd) exchange" where
  "WriteProblem r err =
    (let problem = toProblem r err
     in writing (\<lambda>w. Write_body (ProblemBody problem) (WriteHeader_status (pb_Status problem) (Header_Set HeaderContentType ContentTypeProblem
          (case err of Some e \<Rightarrow> if 0 < e_RetryAfter e then Header_Set HeaderRetryAfter (retryAfterSeconds (e_RetryAfter e)) w else w | None \<Rightarrow> w)))))"

definition problem :: "http_request \<Rightarrow> http_error \<Rightarrow> ('w, 'd) exchange \<Rightarrow> ('w, 'd) exchange" where
  "problem r e = WriteProblem r (Some e)"

section \<open>Request identifiers and recovery (\<^verbatim>\<open>middleware.go\<close>)\<close>

definition HeaderRequestID :: string where "HeaderRequestID = ''X-Request-Id''"

definition maxRequestIDLen :: nat where "maxRequestIDLen = 64"

text \<open>The runes kept are ASCII, so writing one back writes its byte.\<close>

definition id_char :: "nat \<Rightarrow> bool" where
  "id_char c \<longleftrightarrow> 97 \<le> c \<and> c \<le> 122 \<or> 65 \<le> c \<and> c \<le> 90 \<or> 48 \<le> c \<and> c \<le> 57 \<or> c = 45 \<or> c = 95 \<or> c = 46"

definition sanitiseRequestID :: "string \<Rightarrow> string" where
  "sanitiseRequestID raw = map (char_of \<circ> fst) (filter (id_char \<circ> fst) (decode_runes (take maxRequestIDLen raw)))"

text \<open>\<open>fresh\<close> is the answer of \<^verbatim>\<open>uuid.NewString\<close>.\<close>

definition RequestID :: "string \<Rightarrow> ('w, 'd) handler \<Rightarrow> ('w, 'd) handler" where
  "RequestID fresh next r x =
    (let i = sanitiseRequestID (hr_Header r HeaderRequestID); i' = (if i = [] then fresh else i)
     in next (r\<lparr>hr_requestID := i'\<rparr>) (writing (Header_Set HeaderRequestID i') x))"

text \<open>A handler that panics is one without a value; what it wrote before the panic stays written.\<close>

definition Recover :: "(http_request \<Rightarrow> ('w, 'd) exchange \<Rightarrow> bool \<times> ('w, 'd) exchange) \<Rightarrow> ('w, 'd) handler" where
  "Recover next r x = (let (panicked, x') = next r x in if panicked then problem r (NewError CodeInternal []) x' else x')"

section \<open>The tenant API guard chain (\<^verbatim>\<open>auth.go\<close>, \<^verbatim>\<open>ratelimit.go\<close>)\<close>

definition HeaderAuthorization :: string where "HeaderAuthorization = ''Authorization''"

definition missing_key :: "http_request \<Rightarrow> ('w, 'd) exchange \<Rightarrow> ('w, 'd) exchange" where
  "missing_key r = problem r (NewError CodeUnauthorized ''missing or malformed API key'')"

text \<open>What the chain calls: the authenticator, the plan limits, the limiter with its breaker, and the clock.\<close>

record 'w guards =
  gd_Authenticate :: "string \<Rightarrow> ('w, auth_error, Identity) op"
  gd_ReqPerMinute :: "string \<Rightarrow> ('w, db_error, int) op"
  gd_Allow :: "uuid \<Rightarrow> int \<Rightarrow> ('w, limit_error, RateDecision) op"
  gd_Tolerate :: "'w \<Rightarrow> bool \<times> 'w"
  gd_Succeed :: "'w \<Rightarrow> 'w"

definition http_Authenticate :: "'w guards \<Rightarrow> ('w, 'd) handler \<Rightarrow> ('w, 'd) handler" where
  "http_Authenticate G next r x =
    (case ParseBearer (hr_Header r HeaderAuthorization) of
       Inl _ \<Rightarrow> missing_key r x
     | Inr secret \<Rightarrow>
         calling (gd_Authenticate G secret)
           (\<lambda>e. if e = ErrLookupFailure then problem r (bare_error CodeInternal)
                else problem r (NewError CodeUnauthorized ''invalid API key''))
           (\<lambda>identity. next (r\<lparr>hr_identity := Some identity\<rparr>)) x)"

definition OptionalAuthenticate :: "'w guards \<Rightarrow> ('w, 'd) handler \<Rightarrow> ('w, 'd) handler" where
  "OptionalAuthenticate G next r x =
    (case ParseBearer (hr_Header r HeaderAuthorization) of
       Inl _ \<Rightarrow> next r x
     | Inr secret \<Rightarrow>
         calling (gd_Authenticate G secret)
           (\<lambda>e. if e = ErrLookupFailure then problem r (bare_error CodeInternal) else next r)
           (\<lambda>identity. next (r\<lparr>hr_identity := Some identity\<rparr>)) x)"

definition RequireScope :: "string \<Rightarrow> ('w, 'd) handler \<Rightarrow> ('w, 'd) handler" where
  "RequireScope scope next r x =
    (case hr_identity r of
       None \<Rightarrow> missing_key r x
     | Some identity \<Rightarrow>
         (case Require identity scope of
            Inl _ \<Rightarrow> problem r (NewError CodeForbiddenScope (''key lacks scope '' @ scope)) x
          | Inr _ \<Rightarrow> next r x))"

definition degradeRetryAfter :: int where "degradeRetryAfter = 5 * 10 ^ 9"

definition writeRateHeaders :: "RateDecision \<Rightarrow> 'd response \<Rightarrow> 'd response" where
  "writeRateHeaders d w =
    (let w' = Header_Set HeaderRateLimitRemain (Itoa (rd_Remaining d)) (Header_Set HeaderRateLimitLimit (Itoa (rd_Limit d)) w)
     in if rd_Allowed d then w'
        else let seconds = retryAfterSeconds (rd_RetryAfter d)
          in Header_Set HeaderRateLimitResetSec seconds (Header_Set HeaderRetryAfter seconds w'))"

definition RateLimit :: "'w guards \<Rightarrow> ('w, 'd) handler \<Rightarrow> ('w, 'd) handler" where
  "RateLimit G next r x =
    (case hr_identity r of
       None \<Rightarrow> missing_key r x
     | Some identity \<Rightarrow>
         calling (gd_ReqPerMinute G (id_PlanID identity))
           (\<lambda>_. problem r (bare_error CodeInternal))
           (\<lambda>perMinute. calling (gd_Allow G (id_KeyID identity) perMinute)
             (\<lambda>_ x1. let (ok, w) = gd_Tolerate G (x_world x1); x2 = x1\<lparr>x_world := w\<rparr>
               in if \<not> ok then problem r ((bare_error CodeOverloaded)\<lparr>e_Detail := ''rate limiting is unavailable'', e_RetryAfter := degradeRetryAfter\<rparr>) x2
                  else next r x2)
             (\<lambda>decision x1. let x2 = writing (writeRateHeaders decision) (x1\<lparr>x_world := gd_Succeed G (x_world x1)\<rparr>)
               in if \<not> rd_Allowed decision then problem r (NewError CodeRateLimited ''request rate exceeded'') x2
                  else next r x2)) x)"

section \<open>Routes (\<^verbatim>\<open>router.go\<close>)\<close>

record ('w, 'd) Route =
  rt_Method :: string
  rt_Pattern :: string
  rt_Handler :: "('w, 'd) handler"
  rt_Scope :: string
  rt_Public :: bool

text \<open>The chain one tenant route is mounted behind.\<close>

definition route_chain :: "'w guards \<Rightarrow> ('w, 'd) Route \<Rightarrow> ('w, 'd) handler" where
  "route_chain G route =
    (let handler = (if rt_Scope route \<noteq> [] then RequireScope (rt_Scope route) (rt_Handler route) else rt_Handler route)
     in if rt_Public route then OptionalAuthenticate G handler else http_Authenticate G (RateLimit G handler))"

definition TenantRoutes :: "'w guards \<Rightarrow> ('w, 'd) Route list \<Rightarrow> (string \<times> string \<times> ('w, 'd) handler) list" where
  "TenantRoutes G routes = map (\<lambda>route. (rt_Method route, rt_Pattern route, route_chain G route)) routes"

definition notFound :: "('w, 'd) handler" where
  "notFound r = problem r \<lparr>e_Code = CodeInvalidRequest, e_Status = 404, e_Title = ''No such endpoint'', e_Detail = [], e_RetryAfter = 0\<rparr>"

definition methodNotAllowed :: "('w, 'd) handler" where
  "methodNotAllowed r = problem r \<lparr>e_Code = CodeInvalidRequest, e_Status = 405, e_Title = ''Method not allowed'', e_Detail = [], e_RetryAfter = 0\<rparr>"

section \<open>Cross-origin requests (\<^verbatim>\<open>cors.go\<close>)\<close>

definition HeaderOrigin :: string where "HeaderOrigin = ''Origin''"
definition HeaderACAllowOrigin :: string where "HeaderACAllowOrigin = ''Access-Control-Allow-Origin''"
definition HeaderACAllowMethods :: string where "HeaderACAllowMethods = ''Access-Control-Allow-Methods''"
definition HeaderACAllowHeaders :: string where "HeaderACAllowHeaders = ''Access-Control-Allow-Headers''"
definition HeaderACExposeHeaders :: string where "HeaderACExposeHeaders = ''Access-Control-Expose-Headers''"
definition HeaderACMaxAge :: string where "HeaderACMaxAge = ''Access-Control-Max-Age''"
definition HeaderACRequestMethod :: string where "HeaderACRequestMethod = ''Access-Control-Request-Method''"
definition HeaderVary :: string where "HeaderVary = ''Vary''"

definition corsMaxAge :: int where "corsMaxAge = 24 * 3600"
definition corsMethods :: "string list" where "corsMethods = [''GET'', ''POST'', ''DELETE'', ''OPTIONS'']"
definition corsHeaders :: "string list" where "corsHeaders = [HeaderAuthorization, ''Content-Type'', ''Idempotency-Key'']"

definition corsExposed :: "string list" where
  "corsExposed = [HeaderRateLimitLimit, HeaderRateLimitRemain, HeaderRateLimitResetSec, HeaderRetryAfter]"

definition Header_Add :: "string \<Rightarrow> string \<Rightarrow> 'd response \<Rightarrow> 'd response" where
  "Header_Add k v w = Header_Set k (case rw_Header w k of None \<Rightarrow> v | Some old \<Rightarrow> old @ '', '' @ v) w"

definition allowed_origins :: "string list \<Rightarrow> string list" where
  "allowed_origins origins = filter (\<lambda>s. s \<noteq> []) (map TrimSpace origins)"

definition preflight :: "http_request \<Rightarrow> bool" where
  "preflight r \<longleftrightarrow> hr_Method r = ''OPTIONS'' \<and> hr_Header r HeaderACRequestMethod \<noteq> []"

definition CORS :: "string list \<Rightarrow> ('w, 'd) handler \<Rightarrow> ('w, 'd) handler" where
  "CORS origins next r x =
    (let origin = hr_Header r HeaderOrigin; x1 = writing (Header_Add HeaderVary HeaderOrigin) x
     in if origin = [] \<or> origin \<notin> set (allowed_origins origins)
        then if preflight r then writing (WriteHeader_status 403) x1 else next r x1
        else let x2 = writing (\<lambda>w. Header_Set HeaderACExposeHeaders (Join corsExposed '', '') (Header_Set HeaderACAllowOrigin origin w)) x1
          in if preflight r
             then writing (\<lambda>w. WriteHeader_status 204 (Header_Set HeaderACMaxAge (Itoa corsMaxAge)
                    (Header_Set HeaderACAllowHeaders (Join corsHeaders '', '') (Header_Set HeaderACAllowMethods (Join corsMethods '', '') w)))) x2
             else next r x2)"

section \<open>The operator guard (\<^verbatim>\<open>admin.go\<close>)\<close>

definition HeaderAdminKey :: string where "HeaderAdminKey = ''X-Admin-Key''"

text \<open>\<^verbatim>\<open>netip.Prefix\<close>: an address without zone and its leading bits.\<close>

datatype ip_prefix = Prefix ip_addr nat

fun Contains :: "ip_prefix \<Rightarrow> ip_addr \<Rightarrow> bool" where
  "Contains (Prefix (V4 base) n) (V4 a) = (n \<le> 32 \<and> prefix4 base n a)"
| "Contains (Prefix (V6 base z) n) (V6 a z') = (n \<le> 128 \<and> z' = [] \<and> prefix6 base n a)"
| "Contains _ _ = False"

record AdminGuard =
  ag_keyDigest :: "byte list"
  ag_allowed :: "ip_prefix list"

definition NewAdminGuard :: "(string \<Rightarrow> byte list) \<Rightarrow> string \<Rightarrow> ip_prefix list \<Rightarrow> AdminGuard" where
  "NewAdminGuard sha256 key allowed = \<lparr>ag_keyDigest = sha256 key, ag_allowed = allowed\<rparr>"

fun permits_any :: "ip_prefix list \<Rightarrow> ip_addr \<Rightarrow> bool" where
  "permits_any [] addr = False"
| "permits_any (p # ps) addr = (if Contains p addr then True else permits_any ps addr)"

definition permits :: "AdminGuard \<Rightarrow> ip_addr \<Rightarrow> bool" where
  "permits g addr = permits_any (ag_allowed g) addr"

text \<open>\<open>split_host\<close> is \<^verbatim>\<open>net.SplitHostPort\<close>, \<open>parse_addr\<close> is \<^verbatim>\<open>netip.ParseAddr\<close>.\<close>

definition peerAddr :: "(string \<Rightarrow> string option) \<Rightarrow> (string \<Rightarrow> ip_addr option) \<Rightarrow> http_request \<Rightarrow> ip_addr option" where
  "peerAddr split_host parse_addr r =
    (let host = (case split_host (hr_RemoteAddr r) of None \<Rightarrow> hr_RemoteAddr r | Some h \<Rightarrow> h)
     in map_option Unmap (parse_addr host))"

definition AdminMiddleware :: "(string \<Rightarrow> byte list) \<Rightarrow> (string \<Rightarrow> string option) \<Rightarrow> (string \<Rightarrow> ip_addr option) \<Rightarrow> AdminGuard
    \<Rightarrow> ('w, 'd) handler \<Rightarrow> ('w, 'd) handler" where
  "AdminMiddleware sha256 split_host parse_addr g next r x =
    (let peer = peerAddr split_host parse_addr r; keyOK = (sha256 (hr_Header r HeaderAdminKey) = ag_keyDigest g)
     in if \<not> keyOK \<or> peer = None \<or> \<not> permits g (the peer)
        then problem r (NewError CodeUnauthorized ''admin credentials required'') x
        else next r x)"

section \<open>Health (\<^verbatim>\<open>health.go\<close>)\<close>

record Readiness_Status =
  hs_Ready :: bool
  hs_Checks :: "string \<Rightarrow> string option"
  hs_Failing :: "string list"

text \<open>The registry maps names to checks; a second registration replaces the first.\<close>

definition Register :: "string \<Rightarrow> ('w \<Rightarrow> bool) \<Rightarrow> (string \<Rightarrow> ('w \<Rightarrow> bool) option) \<Rightarrow> (string \<Rightarrow> ('w \<Rightarrow> bool) option)" where
  "Register name check checks = checks(name \<mapsto> check)"

text \<open>
  The goroutines of \<^verbatim>\<open>Evaluate\<close> report under a lock, in the order they finish: \<open>finished\<close> lists the
  names with whether the check passed.
\<close>

definition record_check :: "string \<times> bool \<Rightarrow> Readiness_Status \<Rightarrow> Readiness_Status" where
  "record_check c status = (case c of (name, ok) \<Rightarrow>
     if \<not> ok then \<lparr>hs_Ready = False, hs_Checks = (hs_Checks status)(name \<mapsto> ''failing''), hs_Failing = hs_Failing status @ [name]\<rparr>
     else status\<lparr>hs_Checks := (hs_Checks status)(name \<mapsto> ''ok'')\<rparr>)"

definition Evaluate :: "(string \<times> bool) list \<Rightarrow> Readiness_Status" where
  "Evaluate finished =
    (let status = fold record_check finished \<lparr>hs_Ready = True, hs_Checks = Map.empty, hs_Failing = []\<rparr>
     in status\<lparr>hs_Failing := sort_key bytes_of (hs_Failing status)\<rparr>)"

definition readyz_code :: "Readiness_Status \<Rightarrow> int" where
  "readyz_code status = (if \<not> hs_Ready status then 503 else 200)"

section \<open>The chain over the gateway's own components\<close>

text \<open>
  The state the guard chain shares: the account tables, the cached plan limits, Redis, the breaker
  and the number of clock readings so far; \<open>T n\<close> is the \<open>n\<close>-th reading in nanoseconds.
\<close>

record 'r edge =
  ed_accounts :: "accounts svc"
  ed_plans :: "string \<Rightarrow> cachedPlan option"
  ed_redis :: 'r
  ed_breaker :: breaker
  ed_readings :: nat

definition read_clock :: "(nat \<Rightarrow> int) \<Rightarrow> 'r edge \<Rightarrow> int \<times> 'r edge" where
  "read_clock T g = (T (ed_readings g), g\<lparr>ed_readings := Suc (ed_readings g)\<rparr>)"

definition edge_guards :: "(string \<Rightarrow> byte list) \<Rightarrow> (nat \<Rightarrow> fault) \<Rightarrow> 'r redis_data \<Rightarrow> (uuid \<Rightarrow> string) \<Rightarrow> (nat \<Rightarrow> int) \<Rightarrow> 'r edge guards" where
  "edge_guards sha256 F R uuid_str T =
    \<lparr>gd_Authenticate = (\<lambda>secret g. let (r, a) = Authenticate sha256 F secret (ed_accounts g) in (r, g\<lparr>ed_accounts := a\<rparr>)),
     gd_ReqPerMinute = (\<lambda>planID g. let (now, g1) = read_clock T g; (now', g2) = read_clock T g1;
       (r, a, c) = PlanLimits_ReqPerMinute F now now' planID (ed_accounts g2, ed_plans g2) in (r, g2\<lparr>ed_accounts := a, ed_plans := c\<rparr>)),
     gd_Allow = (\<lambda>keyID perMinute g. let (now, g1) = read_clock T g; (r, w) = Allow R uuid_str (go_quot now (10 ^ 6)) keyID perMinute (ed_redis g1)
       in (r, g1\<lparr>ed_redis := w\<rparr>)),
     gd_Tolerate = (\<lambda>g. let (now, g1) = read_clock T g; (ok, b) = Tolerate now (ed_breaker g1) in (ok, g1\<lparr>ed_breaker := b\<rparr>)),
     gd_Succeed = (\<lambda>g. g\<lparr>ed_breaker := Succeed (ed_breaker g)\<rparr>)\<rparr>"

section \<open>Lemmas\<close>

text \<open>A problem response: what a client receives.\<close>

definition answered_problem :: "http_request \<Rightarrow> Code \<Rightarrow> ('w, 'd) exchange \<Rightarrow> bool" where
  "answered_problem r code x \<longleftrightarrow> (\<exists>h p. rw_sent (x_writer x) = Some (fst (statusFor code), h) \<and> h HeaderContentType = Some ContentTypeProblem
     \<and> rw_body (x_writer x) = [ProblemBody p] \<and> pb_Code p = code \<and> pb_Status p = fst (statusFor code) \<and> pb_Instance p = hr_Path r)"

definition unsent :: "('w, 'd) exchange \<Rightarrow> bool" where
  "unsent x \<longleftrightarrow> rw_sent (x_writer x) = None \<and> rw_body (x_writer x) = []"

lemma statusFor_nonzero [simp]: "fst (statusFor code) \<noteq> 0" "snd (statusFor code) \<noteq> []"
  by (cases code; simp)+

lemma with_defaults_NewError [simp]: "with_defaults (NewError code detail) = NewError code detail"
  by (simp add: with_defaults_def NewError_def)

lemma unsent_simps [simp]: "unsent (x\<lparr>x_world := w\<rparr>) = unsent x" "unsent (writing (Header_Set k v) x) = unsent x"
  by (simp_all add: unsent_def writing_def response_simps)

lemma writing_world [simp]: "x_world (writing f x) = x_world x"
  by (simp add: writing_def)

lemma unsent_rate [simp]: "unsent (writing (writeRateHeaders d) x) = unsent x"
  by (simp add: unsent_def writing_def writeRateHeaders_def response_simps)

lemma problem_world [simp]: "x_world (problem r e x) = x_world x"
  by (simp add: problem_def WriteProblem_def writing_def Let_def)

lemma problem_answers:
  assumes "unsent x" and "e_Status e = 0 \<or> e_Status e = fst (statusFor (e_Code e))"
  shows "answered_problem r (e_Code e) (problem r e x)"
  using assms
  by (auto simp: answered_problem_def problem_def WriteProblem_def writing_def response_simps unsent_def toProblem_def with_defaults_def
      HeaderContentType_def HeaderRetryAfter_def)

lemma new_error_answers: "unsent x \<Longrightarrow> answered_problem r code (problem r (NewError code detail) x)"
  using problem_answers [of x "NewError code detail" r] by (simp add: NewError_def)

lemma bare_error_answers: "unsent x \<Longrightarrow> answered_problem r code (problem r (bare_error code) x)"
  using problem_answers [of x "bare_error code" r] by (simp add: bare_error_def)

text \<open>The waiting time a response announces.\<close>

definition announces_wait :: "('w, 'd) exchange \<Rightarrow> bool" where
  "announces_wait x \<longleftrightarrow> (\<exists>status h n. rw_sent (x_writer x) = Some (status, h) \<and> h HeaderRetryAfter = Some (Itoa n) \<and> 1 \<le> n)"

lemma retry_seconds_pos: "1 \<le> retry_seconds d"
  by (simp add: retry_seconds_def Let_def)

lemma problem_waits:
  assumes "unsent x" and "0 < e_RetryAfter e"
  shows "announces_wait (problem r e x)"
  using assms retry_seconds_pos [of "e_RetryAfter e"]
  by (auto simp: announces_wait_def problem_def WriteProblem_def writing_def response_simps unsent_def
      HeaderContentType_def HeaderRetryAfter_def retryAfterSeconds_def)

lemma rate_headers_wait:
  assumes "unsent x" and "\<not> rd_Allowed d"
  shows "announces_wait (problem r (NewError code detail) (writing (writeRateHeaders d) x))"
  using assms retry_seconds_pos [of "rd_RetryAfter d"]
  by (auto simp: announces_wait_def problem_def WriteProblem_def writing_def response_simps unsent_def writeRateHeaders_def NewError_def
      HeaderContentType_def HeaderRetryAfter_def HeaderRateLimitResetSec_def retryAfterSeconds_def)

text \<open>What a guard answers instead of calling on.\<close>

definition refused :: "http_request \<Rightarrow> ('w, 'd) exchange \<Rightarrow> bool" where
  "refused r x \<longleftrightarrow> (\<exists>code \<in> {CodeUnauthorized, CodeForbiddenScope, CodeRateLimited, CodeOverloaded, CodeInternal}.
     answered_problem r code x \<and> (code = CodeRateLimited \<or> code = CodeOverloaded \<longrightarrow> announces_wait x))"

lemma refused_simps [simp]: "refused (r\<lparr>hr_identity := i\<rparr>) x = refused r x"
  by (simp add: refused_def answered_problem_def)

lemma refusedI:
  "unsent x \<Longrightarrow> refused r (missing_key r x)"
  "unsent x \<Longrightarrow> refused r (problem r (NewError CodeUnauthorized detail) x)"
  "unsent x \<Longrightarrow> refused r (problem r (NewError CodeForbiddenScope detail) x)"
  "unsent x \<Longrightarrow> refused r (problem r (bare_error CodeInternal) x)"
  "unsent x \<Longrightarrow> \<not> rd_Allowed d \<Longrightarrow> refused r (problem r (NewError CodeRateLimited detail) (writing (writeRateHeaders d) x))"
  by (auto simp: refused_def missing_key_def intro!: bexI new_error_answers bare_error_answers rate_headers_wait)

lemma overloaded_refused:
  assumes "unsent x" and "0 < d"
  shows "refused r (problem r ((bare_error CodeOverloaded)\<lparr>e_Detail := detail, e_RetryAfter := d\<rparr>) x)"
  using problem_answers [OF assms(1), of "(bare_error CodeOverloaded)\<lparr>e_Detail := detail, e_RetryAfter := d\<rparr>" r]
    problem_waits [OF assms(1), of "(bare_error CodeOverloaded)\<lparr>e_Detail := detail, e_RetryAfter := d\<rparr>" r] assms(2)
  by (auto simp: refused_def bare_error_def)

text \<open>
  A middleware as a gate: whatever handler stands behind it, it either calls that handler, once and
  last, on a request and exchange that satisfy \<open>P\<close>, or refuses without calling it.
\<close>

definition gated :: "(('w, 'd) handler \<Rightarrow> ('w, 'd) handler) \<Rightarrow> http_request \<Rightarrow> ('w, 'd) exchange
    \<Rightarrow> (http_request \<Rightarrow> ('w, 'd) exchange \<Rightarrow> bool) \<Rightarrow> bool" where
  "gated M r x P \<longleftrightarrow> (\<exists>r' x'. (\<forall>h. M h r x = h r' x') \<and> P r' x') \<or> (\<exists>x'. (\<forall>h. M h r x = x') \<and> refused r x')"

lemma gated_pass: "(\<And>h. M h r x = h r' x') \<Longrightarrow> P r' x' \<Longrightarrow> gated M r x P"
  by (auto simp: gated_def)

lemma gated_stop: "(\<And>h. M h r x = x') \<Longrightarrow> refused r x' \<Longrightarrow> gated M r x P"
  by (auto simp: gated_def)

lemma gated_weaken: "gated M r x P \<Longrightarrow> (\<And>r' x'. P r' x' \<Longrightarrow> Q r' x') \<Longrightarrow> gated M r x Q"
  by (auto simp: gated_def)

lemma gated_comp:
  assumes "gated M r x P" and "\<And>r' x'. P r' x' \<Longrightarrow> gated N r' x' Q \<and> hr_Path r' = hr_Path r"
  shows "gated (\<lambda>h. M (N h)) r x Q"
proof -
  have "refused r x'" if "refused r' x'" "hr_Path r' = hr_Path r" for r' x'
    using that by (auto simp: refused_def answered_problem_def)
  then show ?thesis using assms unfolding gated_def by metis
qed

lemma gated_Authenticate:
  assumes "unsent x"
  shows "gated (http_Authenticate G) r x (\<lambda>r' x'. \<exists>secret i w. ParseBearer (hr_Header r HeaderAuthorization) = Inr secret
    \<and> gd_Authenticate G secret (x_world x) = (Inr i, w) \<and> r' = r\<lparr>hr_identity := Some i\<rparr> \<and> x' = x\<lparr>x_world := w\<rparr>)"
proof (cases "ParseBearer (hr_Header r HeaderAuthorization)")
  case (Inl e)
  then show ?thesis by (intro gated_stop [of _ _ _ "missing_key r x"]) (simp_all add: http_Authenticate_def assms refusedI)
next
  case (Inr secret)
  obtain res w where a: "gd_Authenticate G secret (x_world x) = (res, w)" by fastforce
  show ?thesis
  proof (cases res)
    case (Inl e)
    show ?thesis
      by (rule gated_stop) (auto simp: http_Authenticate_def Inr calling_def a Inl assms refusedI)
  next
    case (Inr i)
    show ?thesis
      using \<open>ParseBearer _ = Inr secret\<close> by (intro gated_pass [of _ _ _ "r\<lparr>hr_identity := Some i\<rparr>" "x\<lparr>x_world := w\<rparr>"]) (auto simp: http_Authenticate_def calling_def a Inr)
  qed
qed

lemma gated_RequireScope:
  assumes "unsent x" and "hr_identity r = Some i"
  shows "gated (RequireScope scope) r x (\<lambda>r' x'. r' = r \<and> x' = x \<and> scope \<in> set (id_Scopes i))"
proof (cases "scope \<in> set (id_Scopes i)")
  case True
  then show ?thesis by (intro gated_pass [of _ _ _ r x]) (simp_all add: RequireScope_def assms Require_def Has_def)
next
  case False
  then show ?thesis
    by (intro gated_stop [of _ _ _ "problem r (NewError CodeForbiddenScope (''key lacks scope '' @ scope)) x"])
      (simp_all add: RequireScope_def assms Require_def Has_def refusedI)
qed

text \<open>Within its budget, or the limiter is down and the outage is younger than the degrade window.\<close>

definition within_rate :: "'w guards \<Rightarrow> Identity \<Rightarrow> 'w \<Rightarrow> 'w \<Rightarrow> bool" where
  "within_rate G i w w' \<longleftrightarrow> (\<exists>perMinute w1. gd_ReqPerMinute G (id_PlanID i) w = (Inr perMinute, w1)
     \<and> ((\<exists>d w2. gd_Allow G (id_KeyID i) perMinute w1 = (Inr d, w2) \<and> rd_Allowed d \<and> w' = gd_Succeed G w2)
        \<or> (\<exists>e w2. gd_Allow G (id_KeyID i) perMinute w1 = (Inl e, w2) \<and> gd_Tolerate G w2 = (True, w'))))"

lemma gated_RateLimit:
  assumes "unsent x" and "hr_identity r = Some i"
  shows "gated (RateLimit G) r x (\<lambda>r' x'. r' = r \<and> unsent x' \<and> within_rate G i (x_world x) (x_world x'))"
proof -
  obtain res w1 where lim: "gd_ReqPerMinute G (id_PlanID i) (x_world x) = (res, w1)" by fastforce
  show ?thesis
  proof (cases res)
    case (Inl e)
    then show ?thesis by (intro gated_stop) (auto simp: RateLimit_def assms calling_def lim intro!: refusedI)
  next
    case (Inr perMinute)
    obtain res2 w2 where al: "gd_Allow G (id_KeyID i) perMinute w1 = (res2, w2)" by fastforce
    note run = RateLimit_def assms calling_def lim Inr al
    show ?thesis
    proof (cases res2)
      case (Inl e)
      obtain ok w3 where tol: "gd_Tolerate G w2 = (ok, w3)" by fastforce
      show ?thesis
      proof (cases ok)
        case True
        then show ?thesis using lim al Inl \<open>res = Inr perMinute\<close> tol
          by (intro gated_pass [of _ _ _ r "x\<lparr>x_world := w3\<rparr>"]) (auto simp: run tol within_rate_def)
      next
        case False
        then show ?thesis using Inl
          by (intro gated_stop) (auto simp: run tol degradeRetryAfter_def intro!: overloaded_refused)
      qed
    next
      case (Inr d)
      show ?thesis
      proof (cases "rd_Allowed d")
        case True
        then show ?thesis using lim al Inr \<open>res = Inr perMinute\<close>
          by (intro gated_pass [of _ _ _ r "writing (writeRateHeaders d) (x\<lparr>x_world := gd_Succeed G w2\<rparr>)"])
            (auto simp: run within_rate_def)
      next
        case False
        then show ?thesis using Inr by (intro gated_stop) (auto simp: run intro!: refusedI)
      qed
    qed
  qed
qed

lemma ReqPerMinute_ok:
  assumes "PlanLimits_ReqPerMinute F now now' i (a, c) = (Inr perMinute, a', c')"
  shows "svc_data a' = svc_data a" and "(\<exists>p \<in> set (db_plans (svc_data a)). plan_ID p = i \<and> perMinute = ReqPerMinute p)
    \<or> (\<exists>entry. c i = Some entry \<and> perMinute = cp_reqPerMinute entry)"
proof -
  have read: "svc_data a1 = svc_data a \<and> p \<in> set (db_plans (svc_data a)) \<and> plan_ID p = i" if "read_plan F i a = (Inr p, a1)" for p a1
    using call_ok [OF that [unfolded read_plan_def]] by (auto simp: GetPlan_def dest!: find_SomeD split: option.splits)
  show "svc_data a' = svc_data a" "(\<exists>p \<in> set (db_plans (svc_data a)). plan_ID p = i \<and> perMinute = ReqPerMinute p)
    \<or> (\<exists>entry. c i = Some entry \<and> perMinute = cp_reqPerMinute entry)"
    using assms by (auto simp: PlanLimits_ReqPerMinute_def dest!: read split: option.splits if_splits prod.splits sum.splits)
qed

text \<open>The rate check of the chain on its components: the plan's limit and one token of the key's bucket.\<close>

definition spent_token :: "'r redis_data \<Rightarrow> (uuid \<Rightarrow> string) \<Rightarrow> string \<Rightarrow> uuid \<Rightarrow> 'r edge \<Rightarrow> 'r edge \<Rightarrow> bool" where
  "spent_token R us planID keyID g g' \<longleftrightarrow> (\<exists>now perMinute res.
     ((\<exists>p \<in> set (db_plans (svc_data (ed_accounts g))). plan_ID p = planID \<and> perMinute = ReqPerMinute p)
        \<or> (\<exists>entry. ed_plans g planID = Some entry \<and> perMinute = cp_reqPerMinute entry))
     \<and> Allow R us now keyID perMinute (ed_redis g) = (res, ed_redis g')
     \<and> (case res of Inr d \<Rightarrow> rd_Allowed d \<and> ed_breaker g' = Succeed (ed_breaker g)
                  | Inl _ \<Rightarrow> \<exists>now'. Tolerate now' (ed_breaker g) = (True, ed_breaker g')))"

lemma edge_within_rate:
  assumes "within_rate (edge_guards sha256 F R us T) i g g'"
  shows "svc_data (ed_accounts g') = svc_data (ed_accounts g)" and "spent_token R us (id_PlanID i) (id_KeyID i) g g'"
proof -
  let ?G = "edge_guards sha256 F R us T"
  obtain perMinute g1 where lim: "gd_ReqPerMinute ?G (id_PlanID i) g = (Inr perMinute, g1)"
    and rest: "(\<exists>d g2. gd_Allow ?G (id_KeyID i) perMinute g1 = (Inr d, g2) \<and> rd_Allowed d \<and> g' = gd_Succeed ?G g2)
        \<or> (\<exists>e g2. gd_Allow ?G (id_KeyID i) perMinute g1 = (Inl e, g2) \<and> gd_Tolerate ?G g2 = (True, g'))"
    using assms unfolding within_rate_def by blast
  obtain n n' a c where pl: "PlanLimits_ReqPerMinute F n n' (id_PlanID i) (ed_accounts g, ed_plans g) = (Inr perMinute, a, c)"
    and g1: "g1 = g\<lparr>ed_readings := ed_readings g1, ed_accounts := a, ed_plans := c\<rparr>"
    using lim by (auto simp: edge_guards_def read_clock_def split: prod.splits)
  note ok = ReqPerMinute_ok [OF pl]
  have keep: "ed_redis g1 = ed_redis g" "ed_breaker g1 = ed_breaker g" "svc_data (ed_accounts g1) = svc_data (ed_accounts g)"
    using ok(1) by (subst g1; simp)+
  show "svc_data (ed_accounts g') = svc_data (ed_accounts g)"
    using rest keep(3) by (auto simp: edge_guards_def read_clock_def split: prod.splits)
  show "spent_token R us (id_PlanID i) (id_KeyID i) g g'"
    using rest
  proof (elim disjE exE conjE)
    fix d g2 assume "gd_Allow ?G (id_KeyID i) perMinute g1 = (Inr d, g2)" "rd_Allowed d" "g' = gd_Succeed ?G g2"
    then obtain now where "Allow R us now (id_KeyID i) perMinute (ed_redis g) = (Inr d, ed_redis g')" "ed_breaker g' = Succeed (ed_breaker g)"
      by (auto simp: edge_guards_def read_clock_def keep split: prod.splits)
    then show ?thesis using ok(2) \<open>rd_Allowed d\<close>
      unfolding spent_token_def by (intro exI [of _ now] exI [of _ perMinute] exI [of _ "Inr d"]) simp
  next
    fix e g2 assume "gd_Allow ?G (id_KeyID i) perMinute g1 = (Inl e, g2)" "gd_Tolerate ?G g2 = (True, g')"
    then obtain now now' where "Allow R us now (id_KeyID i) perMinute (ed_redis g) = (Inl e, ed_redis g')"
      "Tolerate now' (ed_breaker g) = (True, ed_breaker g')"
      by (auto simp: edge_guards_def read_clock_def keep split: prod.splits)
    then show ?thesis using ok(2)
      unfolding spent_token_def by (intro exI [of _ now] exI [of _ perMinute] exI [of _ "Inl e"]) auto
  qed
qed

lemma edge_authenticated:
  assumes "gd_Authenticate (edge_guards sha256 F R us T) secret g = (Inr i, g')"
  shows "\<exists>k \<in> set (db_keys (svc_data (ed_accounts g))). \<exists>t \<in> set (db_tenants (svc_data (ed_accounts g))). k_hash k = sha256 secret
      \<and> k_revoked_at k = None \<and> t_id t = k_tenant_id k \<and> t_status t = Active_tenant \<and> id_TenantID i = k_tenant_id k \<and> id_KeyID i = k_id k
      \<and> id_PlanID i = t_plan_id t \<and> id_Scopes i = k_scopes k"
    and "svc_data (ed_accounts g') = svc_data (ed_accounts g)" and "ed_plans g' = ed_plans g \<and> ed_redis g' = ed_redis g \<and> ed_breaker g' = ed_breaker g"
proof -
  obtain a where a: "Authenticate sha256 F secret (ed_accounts g) = (Inr i, a)" and g': "g' = g\<lparr>ed_accounts := a\<rparr>"
    using assms by (auto simp: edge_guards_def split: prod.splits)
  have f: "FindByHash F (sha256 secret) (ed_accounts g) = (Inr i, a)" using a by (auto simp: Authenticate_def Hash_def failE_def split: if_splits)
  show "\<exists>k \<in> set (db_keys (svc_data (ed_accounts g))). \<exists>t \<in> set (db_tenants (svc_data (ed_accounts g))). k_hash k = sha256 secret
      \<and> k_revoked_at k = None \<and> t_id t = k_tenant_id k \<and> t_status t = Active_tenant \<and> id_TenantID i = k_tenant_id k \<and> id_KeyID i = k_id k
      \<and> id_PlanID i = t_plan_id t \<and> id_Scopes i = k_scopes k"
    using FindByHash_ok(1) [OF f] by (metis Identity.select_convs(1-4))
  show "svc_data (ed_accounts g') = svc_data (ed_accounts g)" using FindByHash_ok(2) [OF f] g' by simp
  show "ed_plans g' = ed_plans g \<and> ed_redis g' = ed_redis g \<and> ed_breaker g' = ed_breaker g" using g' by simp
qed

text \<open>An identifier that reaches the logs is short and carries no control character.\<close>

lemma sanitised_request_id:
  "length (sanitiseRequestID raw) \<le> 64" "c \<in> set (sanitiseRequestID raw) \<Longrightarrow> id_char (of_char c)"
proof -
  have "length (decode_runes s) \<le> length s" for s using rune_len_le [of s] by (simp add: rune_len_def)
  then have "length (decode_runes (take 64 raw)) \<le> 64" by (rule order_trans) simp
  then show "length (sanitiseRequestID raw) \<le> 64"
    unfolding sanitiseRequestID_def maxRequestIDLen_def by (metis length_filter_le length_map order_trans)
  have "id_char n \<Longrightarrow> n < 256" for n by (auto simp: id_char_def)
  then show "c \<in> set (sanitiseRequestID raw) \<Longrightarrow> id_char (of_char c)"
    by (fastforce simp: sanitiseRequestID_def)
qed

text \<open>An origin that is not configured is never allowed, and its preflight never reaches a handler.\<close>

lemma cors_unknown_origin:
  assumes "hr_Header r HeaderOrigin \<notin> set (allowed_origins origins)" and "preflight r" and "unsent x" and "rw_Header (x_writer x) HeaderACAllowOrigin = None"
  shows "\<exists>h. rw_sent (x_writer (CORS origins next r x)) = Some (403, h) \<and> h HeaderACAllowOrigin = None"
  using assms by (auto simp: CORS_def writing_def Header_Add_def response_simps unsent_def HeaderVary_def HeaderACAllowOrigin_def split: option.splits)

text \<open>The operator routes run only for the key, from an address of the allowlist; an empty list closes them.\<close>

lemma admin_guard_admits:
  assumes "unsent x"
  shows "gated (AdminMiddleware sha256 split_host parse_addr (NewAdminGuard sha256 key allowed)) r x (\<lambda>r' x'. r' = r \<and> x' = x
    \<and> sha256 (hr_Header r HeaderAdminKey) = sha256 key \<and> (\<exists>peer p. peerAddr split_host parse_addr r = Some peer \<and> p \<in> set allowed \<and> Contains p peer))"
proof -
  have any: "permits_any ps a \<longleftrightarrow> (\<exists>p \<in> set ps. Contains p a)" for ps a by (induction ps) auto
  show ?thesis
  proof (cases "sha256 (hr_Header r HeaderAdminKey) = sha256 key \<and> (\<exists>peer. peerAddr split_host parse_addr r = Some peer \<and> permits_any allowed peer)")
    case True
    then show ?thesis by (intro gated_pass [of _ _ _ r x]) (auto simp: AdminMiddleware_def NewAdminGuard_def permits_def any)
  next
    case False
    then show ?thesis
      by (intro gated_stop [of _ _ _ "problem r (NewError CodeUnauthorized ''admin credentials required'') x"])
        (auto simp: AdminMiddleware_def NewAdminGuard_def permits_def Let_def assms refusedI)
  qed
qed

text \<open>The readiness report does not depend on the order in which the checks finish.\<close>

lemma fold_record_check:
  assumes "distinct (map fst cs)"
  shows "fold record_check cs s = \<lparr>hs_Ready = (hs_Ready s \<and> (\<forall>c \<in> set cs. snd c)),
     hs_Checks = (\<lambda>n. case map_of cs n of None \<Rightarrow> hs_Checks s n | Some ok \<Rightarrow> Some (if ok then ''ok'' else ''failing'')),
     hs_Failing = hs_Failing s @ map fst (filter (Not \<circ> snd) cs)\<rparr>"
  using assms
proof (induction cs arbitrary: s)
  case (Cons c cs)
  obtain n ok where c: "c = (n, ok)" by force
  have "map_of cs n = None" using Cons.prems c by (simp add: map_of_eq_None_iff)
  then show ?case using Cons c by (cases ok) (auto simp: record_check_def fun_eq_iff split: option.split)
qed simp

lemma readiness_order_irrelevant:
  assumes "mset cs = mset cs'" and "distinct (map fst cs)"
  shows "Evaluate cs = Evaluate cs'"
proof -
  have d: "distinct (map fst cs')" using assms by (metis mset_eq_imp_distinct_iff mset_map)
  have "map_of cs = map_of cs'" using assms d by (metis map_of_inject_set mset_eq_setD)
  moreover have "set cs = set cs'" using assms(1) by (rule mset_eq_setD)
  moreover have "sort_key bytes_of (map fst (filter (Not \<circ> snd) cs)) = sort_key bytes_of (map fst (filter (Not \<circ> snd) cs'))"
  proof (rule sort_key_inj_key_eq)
    show "mset (map fst (filter (Not \<circ> snd) cs)) = mset (sort_key bytes_of (map fst (filter (Not \<circ> snd) cs')))" using assms(1) by (simp add: mset_filter)
    show "inj_on bytes_of (set (map fst (filter (Not \<circ> snd) cs)))" by (auto simp: inj_on_def bytes_of_def)
  qed simp
  ultimately show ?thesis using assms d by (simp add: Evaluate_def fold_record_check Let_def)
qed

text \<open>
  The chain of a route that is not public, whatever its guards: the handler runs for an authenticated key within its rate and with the
  scope of the route, or the request is refused.
\<close>

lemma route_chain_gated:
  assumes "unsent x" and "\<not> rt_Public route"
  shows "gated (\<lambda>h. route_chain G (route\<lparr>rt_Handler := h\<rparr>)) r x (\<lambda>r' x'. \<exists>secret i w. ParseBearer (hr_Header r HeaderAuthorization) = Inr secret
      \<and> gd_Authenticate G secret (x_world x) = (Inr i, w) \<and> r' = r\<lparr>hr_identity := Some i\<rparr> \<and> unsent x' \<and> within_rate G i w (x_world x')
      \<and> (rt_Scope route = [] \<or> rt_Scope route \<in> set (id_Scopes i)))"
proof -
  let ?scoped = "\<lambda>h. if rt_Scope route \<noteq> [] then RequireScope (rt_Scope route) h else h"
  have chain: "route_chain G (route\<lparr>rt_Handler := h\<rparr>) = http_Authenticate G (RateLimit G (?scoped h))" for h
    using assms(2) by (simp add: route_chain_def)
  have scoped: "gated ?scoped r' x' (\<lambda>r'' x''. r'' = r' \<and> x'' = x' \<and> (rt_Scope route = [] \<or> rt_Scope route \<in> set (id_Scopes i)))"
    if "unsent x'" "hr_identity r' = Some i" for r' x' i
    using gated_RequireScope [OF that, of "rt_Scope route"] by (cases "rt_Scope route = []") (auto simp: gated_def)
  let ?ok = "\<lambda>r' x'. \<exists>secret i w. ParseBearer (hr_Header r HeaderAuthorization) = Inr secret \<and> gd_Authenticate G secret (x_world x) = (Inr i, w)
      \<and> r' = r\<lparr>hr_identity := Some i\<rparr> \<and> unsent x' \<and> within_rate G i w (x_world x') \<and> (rt_Scope route = [] \<or> rt_Scope route \<in> set (id_Scopes i))"
  have rate: "gated (\<lambda>h. RateLimit G (?scoped h)) (r\<lparr>hr_identity := Some i\<rparr>) (x\<lparr>x_world := w\<rparr>) ?ok"
    if "ParseBearer (hr_Header r HeaderAuthorization) = Inr secret" "gd_Authenticate G secret (x_world x) = (Inr i, w)" for secret i w
    using that assms(1)
    by (intro gated_comp [OF gated_RateLimit [where i = i], where N = ?scoped]) (auto intro: gated_weaken [OF scoped])
  have "gated (\<lambda>h. http_Authenticate G (RateLimit G (?scoped h))) r x ?ok"
    by (rule gated_comp [OF gated_Authenticate [OF assms(1)]]) (use rate in auto)
  then show ?thesis by (simp add: chain)
qed

section \<open>Properties\<close>


definition example_edge :: "zmem edge" where
  "example_edge = \<lparr>ed_accounts = \<lparr>svc_data = example_accounts, svc_calls = 0\<rparr>, ed_plans = Map.empty, ed_redis = zmem_empty,
     ed_breaker = New Window, ed_readings = 0\<rparr>"

definition example_call :: http_request where
  "example_call = \<lparr>hr_Method = ''POST'', hr_Path = ''/v1/jobs'', hr_Header = (\<lambda>k. if k = ''Authorization'' then ''Bearer zt_live_abc'' else []),
     hr_Query = (\<lambda>_. []), hr_Param = (\<lambda>_. []), hr_Body = [], hr_RemoteAddr = [], hr_requestID = [], hr_identity = None\<rparr>"

definition example_exchange :: "(zmem edge, unit) exchange" where
  "example_exchange = \<lparr>x_writer = fresh_response, x_world = example_edge\<rparr>"

definition example_route :: "(zmem edge, unit) Route" where
  "example_route = \<lparr>rt_Method = ''POST'', rt_Pattern = ''/jobs'', rt_Handler = (\<lambda>r x. x), rt_Scope = ScopeJobs, rt_Public = False\<rparr>"

lemma example_bearer: "ParseBearer ''Bearer zt_live_abc'' = Inr ''zt_live_abc''"
proof -
  have "list_all plain ''zt_live_abc''" by (simp add: plain_def IsSpace_def)
  then have "TrimSpace ''zt_live_abc'' = ''zt_live_abc''" by (rule TrimSpace_plain)
  moreover have "EqualFold ''Bearer '' ''bearer ''" by code_simp
  ultimately show ?thesis by (simp add: ParseBearer_def splitPrefix_def HasPrefix_def PrefixLive_def Let_def)
qed


end
