(* ===== verification/Synth.thy ===== *)
theory Synth
  imports Audio Degrade Cache Dispatch Ratelimit Usage Accounts
begin

text \<open>
  The synthesis use case: package \<^verbatim>\<open>internal/synth\<close>. The service is written over its ports
  (quota, cache, dispatcher, catalogue, plans, meter, leases, the worker and the sink), as in the
  code; beside the world the ports act on, the model keeps a log of what one request did. The
  metrics of \<^verbatim>\<open>observe\<close> and the log lines are left out.
\<close>

section \<open>Errors\<close>

text \<open>
  A Go error as the callers see it: the sentinels \<^verbatim>\<open>errors.Is\<close> finds in it, the gRPC status it
  carries, if any, and the \<^verbatim>\<open>dispatch.Overload\<close> that \<^verbatim>\<open>errors.As\<close> finds in it, if any.
\<close>

datatype sentinel = ErrInvalidRequest | ErrTextTooLong | ErrUnknownVoice | ErrQuotaExceeded | ErrFormatNotReady
  | ErrWorkerFailed | ErrConcurrencyLimited | ErrOverloaded

datatype grpc_code = ResourceExhausted | OtherCode

record synth_error =
  se_is :: "sentinel list"
  se_code :: "grpc_code option"
  se_overload :: "Overload option"

definition plain :: synth_error where
  "plain = \<lparr>se_is = [], se_code = None, se_overload = None\<rparr>"

definition wrapping :: "sentinel \<Rightarrow> synth_error \<Rightarrow> synth_error" where
  "wrapping k e = e\<lparr>se_is := k # se_is e\<rparr>"

definition errors_Is :: "synth_error \<Rightarrow> sentinel \<Rightarrow> bool" where
  "errors_Is e k \<longleftrightarrow> k \<in> set (se_is e)"

definition status_Code :: "synth_error \<Rightarrow> grpc_code" where
  "status_Code e = (case se_code e of None \<Rightarrow> OtherCode | Some c \<Rightarrow> c)"

section \<open>Requests (\<^verbatim>\<open>synth.go\<close>)\<close>

definition MaxTextChars :: int where "MaxTextChars = 3000"
definition MinTextChars :: int where "MinTextChars = 1"
definition FormatWAV :: string where "FormatWAV = ''wav''"
definition FormatMP3 :: string where "FormatMP3 = ''mp3''"
definition FormatOggOpus :: string where "FormatOggOpus = ''ogg_opus''"

definition SupportedSampleRates :: "int list" where
  "SupportedSampleRates = [8000, 16000, 24000, 48000]"

record Request =
  rq_TenantID :: uuid
  rq_KeyID :: uuid
  rq_RequestID :: string
  rq_Text :: string
  rq_VoiceID :: string
  rq_Format :: string
  rq_SampleRate :: int
  rq_Normalize :: bool
  rq_Params :: Params

record Result =
  rs_Audio :: "byte list"
  rs_DurationMS :: int
  rs_SampleRate :: int
  rs_Format :: string
  rs_CacheHit :: bool
  rs_CharsBilled :: int
  rs_VoiceID :: string
  rs_ModelVersion :: string

definition supportedRate :: "int \<Rightarrow> bool" where
  "supportedRate rate \<longleftrightarrow> rate \<in> set SupportedSampleRates"

definition Chars :: "Request \<Rightarrow> int" where
  "Chars r = rune_len (rq_Text r)"

definition Validate :: "Request \<Rightarrow> synth_error + Request" where
  "Validate r =
    (if rune_len (rq_Text r) < MinTextChars then Inl (wrapping ErrInvalidRequest plain)
     else if MaxTextChars < rune_len (rq_Text r) then Inl (wrapping ErrTextTooLong plain)
     else if rq_VoiceID r = [] then Inl (wrapping ErrInvalidRequest plain)
     else let r1 = (if rq_Format r = [] then r\<lparr>rq_Format := FormatWAV\<rparr> else r)
       in if rq_Format r1 = FormatWAV then
            (let r2 = (if rq_SampleRate r1 = 0 then r1\<lparr>rq_SampleRate := 48000\<rparr> else r1)
             in if \<not> supportedRate (rq_SampleRate r2) then Inl (wrapping ErrInvalidRequest plain) else Inr r2)
          else if rq_Format r1 = FormatMP3 \<or> rq_Format r1 = FormatOggOpus then Inl (wrapping ErrFormatNotReady plain)
          else Inl (wrapping ErrInvalidRequest plain))"

section \<open>Ports (\<^verbatim>\<open>service.go\<close>, \<^verbatim>\<open>stream.go\<close>)\<close>

record Allowance =
  al_Allowed :: bool
  al_Used :: int

record Usage =
  us_TenantID :: uuid
  us_KeyID :: uuid
  us_RequestID :: string
  us_VoiceID :: string
  us_CacheKey :: Key
  us_Mode :: string
  us_Chars :: int
  us_DurationMS :: int
  us_TTFAMS :: int
  us_Cached :: bool
  us_Status :: string

text \<open>Doubles narrowed to \<^verbatim>\<open>float32\<close>, in its normal range.\<close>

definition f32 :: "float64 \<Rightarrow> float64" where
  "f32 v = v\<lparr>magnitude := (if magnitude v = 0 then 0
     else let s = 2 powi (23 - floor_log2 (magnitude v)) in of_int (round_even (magnitude v * s)) / s)\<rparr>"

record SynthesisParams =
  sp_CfgScale :: float64
  sp_AudioTemperature :: float64
  sp_AudioTopk :: int
  sp_AudioTopp :: float64
  sp_AudioRepetitionPenalty :: float64
  sp_EoaExtraFrames :: int

definition toProtoParams :: "Params \<Rightarrow> SynthesisParams" where
  "toProtoParams p = \<lparr>sp_CfgScale = f32 (CFGScale p), sp_AudioTemperature = f32 (AudioTemperature p), sp_AudioTopk = AudioTopK p,
     sp_AudioTopp = f32 (AudioTopP p), sp_AudioRepetitionPenalty = f32 (AudioRepetitionPenalty p), sp_EoaExtraFrames = EOAExtraFrames p\<rparr>"

record WorkerRequest =
  wr_RequestId :: string
  wr_Text :: string
  wr_VoiceId :: string
  wr_Normalize :: bool
  wr_Params :: SynthesisParams
  wr_OutputSampleRate :: int

text \<open>
  What successive \<^verbatim>\<open>Recv\<close> calls on a worker stream return: a frame with sequence number, audio and
  last flag, the end, or a failure. A list that runs out is a stream cut by the deadline.
\<close>

datatype frame = Frame "32 word" "byte list" bool | EndOfStream | Broken synth_error

text \<open>What successive reads of a cached object return.\<close>

datatype read_state = More | Eof | ReadFailed

record 'w ports =
  pQuotaCheck :: "uuid \<Rightarrow> int \<Rightarrow> int \<Rightarrow> ('w, synth_error, Allowance) op"
  pQuotaRecord :: "uuid \<Rightarrow> int \<Rightarrow> ('w, synth_error, unit) op"
  pLookup :: "Key \<Rightarrow> ('w, cache_error, Entry \<times> byte list) op"
  pReadAll :: "byte list \<Rightarrow> ('w, cache_error, byte list) op"
  pReads :: "byte list \<Rightarrow> 'w \<Rightarrow> (byte list \<times> read_state) list \<times> 'w"
  pStore :: "Key \<Rightarrow> Entry \<Rightarrow> byte list \<Rightarrow> ('w, cache_error, unit) op"
  pReserve :: "Class \<Rightarrow> ('w, synth_error, Reservation) op"
  pFree :: "Reservation \<Rightarrow> 'w \<Rightarrow> 'w"
  pResolve :: "uuid \<Rightarrow> string \<Rightarrow> ('w, voice_error, Voice) op"
  pCharsPerMonth :: "string \<Rightarrow> ('w, synth_error, int) op"
  pMeter :: "Usage \<Rightarrow> 'w \<Rightarrow> 'w"
  pWorker :: "Client \<Rightarrow> WorkerRequest \<Rightarrow> ('w, synth_error, frame list) op"
  pNow :: "'w \<Rightarrow> int \<times> 'w"
  pSleep :: "('w, synth_error, unit) op"
  pCancelled :: "'w \<Rightarrow> bool"
  pHeader :: "int \<Rightarrow> ('w, synth_error, unit) op"
  pChunk :: "byte list \<Rightarrow> ('w, synth_error, unit) op"
  pAcquire :: "uuid \<Rightarrow> int \<Rightarrow> ('w, synth_error, uuid Lease option) op"
  pRenew :: "uuid Lease \<Rightarrow> ('w, synth_error, unit) op"
  pReleaseLease :: "uuid Lease \<Rightarrow> 'w \<Rightarrow> 'w"
  pSha256 :: "string \<Rightarrow> Key"

text \<open>What one request did, in order.\<close>

datatype event = Slot Reservation | SlotFreed Reservation | Charged uuid int | Metered Usage | Stored Key "byte list"
  | LeaseTaken "uuid Lease" | LeaseReleased "uuid Lease" | HeaderSent int | Sent "byte list" | Received "frame list"

record 'w service =
  ss_world :: 'w
  ss_quotaBreak :: breaker
  ss_log :: "event list"

definition port :: "('w, 'e, 'a) op \<Rightarrow> ('w service, 'e, 'a) op" where
  "port m s = (let (r, w) = m (ss_world s) in (r, s\<lparr>ss_world := w\<rparr>))"

definition act :: "('w \<Rightarrow> 'w) \<Rightarrow> ('w service, 'e, unit) op" where
  "act f s = (Inr (), s\<lparr>ss_world := f (ss_world s)\<rparr>)"

definition ask :: "('w \<Rightarrow> 'a \<times> 'w) \<Rightarrow> ('w service, 'e, 'a) op" where
  "ask f s = (let (a, w) = f (ss_world s) in (Inr a, s\<lparr>ss_world := w\<rparr>))"

definition emit :: "event \<Rightarrow> ('w service, 'e, unit) op" where
  "emit ev s = (Inr (), s\<lparr>ss_log := ss_log s @ [ev]\<rparr>)"

definition seqE :: "('s, 'e, unit) op \<Rightarrow> ('s, 'e, 'a) op \<Rightarrow> ('s, 'e, 'a) op" where
  "seqE m n = bindE m (\<lambda>_. n)"

section \<open>Shared steps of the service (\<^verbatim>\<open>service.go\<close>)\<close>

definition workerAttempts :: nat where "workerAttempts = 3"

definition clampMS :: "int \<Rightarrow> int" where
  "clampMS ms = (if MaxInt32 < ms then MaxInt32 else if ms < 0 then 0 else wrap32 ms)"

definition since_ms :: "'w ports \<Rightarrow> int \<Rightarrow> ('w service, 'e, int) op" where
  "since_ms P started = bindE (ask (pNow P)) (\<lambda>now. returnE (go_quot (now - started) (10 ^ 6)))"

definition worker_request :: "Request \<Rightarrow> Voice \<Rightarrow> WorkerRequest" where
  "worker_request req voice = \<lparr>wr_RequestId = rq_RequestID req, wr_Text = rq_Text req, wr_VoiceId = v_ID voice,
     wr_Normalize = rq_Normalize req, wr_Params = toProtoParams (rq_Params req), wr_OutputSampleRate = rq_SampleRate req\<rparr>"

definition cache_input :: "Request \<Rightarrow> Voice \<Rightarrow> Input" where
  "cache_input req voice = \<lparr>ModelVersion = v_ModelVersion voice, VoiceID = v_ID voice, Normalize = rq_Normalize req,
     in_Params = rq_Params req, in_Text = rq_Text req\<rparr>"

definition classifyWorkerError :: "synth_error \<Rightarrow> synth_error" where
  "classifyWorkerError e =
    (if status_Code e = ResourceExhausted then wrapping ErrOverloaded plain else wrapping ErrWorkerFailed e)"

definition wrap_audio :: "byte list \<Rightarrow> int \<Rightarrow> synth_error + byte list" where
  "wrap_audio pcm sampleRate =
    (case PCMSize (int (length pcm)) of Inl _ \<Rightarrow> Inl plain
     | Inr sz \<Rightarrow> (case wav_header sampleRate sz of Inl _ \<Rightarrow> Inl plain | Inr h \<Rightarrow> Inr (h @ pcm)))"

definition resolveVoice :: "'w ports \<Rightarrow> Request \<Rightarrow> ('w service, synth_error, Voice) op" where
  "resolveVoice P req =
    wrapE (\<lambda>e. if e = ErrUnknown then wrapping ErrUnknownVoice plain else plain) (port (pResolve P (rq_TenantID req) (rq_VoiceID req)))"

definition tolerate :: "'w ports \<Rightarrow> ('w service, 'e, bool) op" where
  "tolerate P = bindE (ask (pNow P)) (\<lambda>now s.
     let (ok, b) = Tolerate now (ss_quotaBreak s) in (Inr ok, s\<lparr>ss_quotaBreak := b\<rparr>))"

definition quota_decided :: "Allowance \<Rightarrow> ('w service, synth_error, unit) op" where
  "quota_decided decision s =
    (let s' = s\<lparr>ss_quotaBreak := Succeed (ss_quotaBreak s)\<rparr>
     in if al_Allowed decision then (Inr (), s') else (Inl (wrapping ErrQuotaExceeded plain), s'))"

definition checkQuota :: "'w ports \<Rightarrow> Request \<Rightarrow> string \<Rightarrow> ('w service, synth_error, unit) op" where
  "checkQuota P req planID =
    bindE (port (pCharsPerMonth P planID)) (\<lambda>allowance.
      catchE (port (pQuotaCheck P (rq_TenantID req) allowance (Chars req)))
        (\<lambda>e. bindE (tolerate P) (\<lambda>ok. if ok then returnE () else failE e))
        quota_decided)"

definition charge :: "'w ports \<Rightarrow> uuid \<Rightarrow> int \<Rightarrow> ('w service, 'e, unit) op" where
  "charge P t chars = seqE (emit (Charged t chars)) (catchE (port (pQuotaRecord P t chars)) (\<lambda>_. returnE ()) (\<lambda>_. returnE ()))"

definition meter_usage :: "'w ports \<Rightarrow> Usage \<Rightarrow> ('w service, 'e, unit) op" where
  "meter_usage P u = seqE (emit (Metered u)) (act (pMeter P u))"

definition billWithTTFA :: "'w ports \<Rightarrow> Request \<Rightarrow> Key \<Rightarrow> Voice \<Rightarrow> int \<Rightarrow> int \<Rightarrow> bool \<Rightarrow> string \<Rightarrow> ('w service, 'e, unit) op" where
  "billWithTTFA P req key voice durationMS ttfaMS cached status =
    seqE (if status = ''ok'' then charge P (rq_TenantID req) (Chars req) else returnE ())
     (meter_usage P \<lparr>us_TenantID = rq_TenantID req, us_KeyID = rq_KeyID req, us_RequestID = rq_RequestID req,
       us_VoiceID = v_ID voice, us_CacheKey = key, us_Mode = ''sync'', us_Chars = Chars req, us_DurationMS = durationMS,
       us_TTFAMS = ttfaMS, us_Cached = cached, us_Status = status\<rparr>)"

definition bill :: "'w ports \<Rightarrow> Request \<Rightarrow> Key \<Rightarrow> Voice \<Rightarrow> int \<Rightarrow> bool \<Rightarrow> string \<Rightarrow> ('w service, 'e, unit) op" where
  "bill P req key voice durationMS cached status = billWithTTFA P req key voice durationMS 0 cached status"

definition reserve :: "'w ports \<Rightarrow> Class \<Rightarrow> ('w service, synth_error, Reservation) op" where
  "reserve P class = bindE (port (pReserve P class)) (\<lambda>r. seqE (emit (Slot r)) (returnE r))"

definition free_slot :: "'w ports \<Rightarrow> Reservation \<Rightarrow> ('w service, 'e, unit) op" where
  "free_slot P r = seqE (emit (SlotFreed r)) (act (pFree P r))"

text \<open>The loop of \<^verbatim>\<open>withWorker\<close> with \<open>n\<close> attempts left; \<open>finallyE\<close> releases the slot whatever the callback returned.\<close>

definition finallyE :: "('s, 'e, 'a) op \<Rightarrow> ('s, 'e, unit) op \<Rightarrow> ('s, 'e, 'a) op" where
  "finallyE m f s = (let (r, s1) = m s in (r, snd (f s1)))"

fun with_worker_loop :: "'w ports \<Rightarrow> Class \<Rightarrow> (Client \<Rightarrow> ('w service, synth_error, 'a) op) \<Rightarrow> nat \<Rightarrow> synth_error
    \<Rightarrow> ('w service, synth_error, 'a) op" where
  "with_worker_loop P class fn 0 lastErr = failE (wrapping ErrOverloaded lastErr)"
| "with_worker_loop P class fn (Suc n) lastErr =
    bindE (reserve P class) (\<lambda>r.
      catchE (finallyE (fn (r_Client r)) (free_slot P r))
        (\<lambda>e. if status_Code e \<noteq> ResourceExhausted then failE e
             else seqE (port (pSleep P)) (with_worker_loop P class fn n e))
        returnE)"

definition withWorker :: "'w ports \<Rightarrow> Class \<Rightarrow> (Client \<Rightarrow> ('w service, synth_error, 'a) op) \<Rightarrow> ('w service, synth_error, 'a) op" where
  "withWorker P class fn = with_worker_loop P class fn workerAttempts plain"

definition call_worker :: "'w ports \<Rightarrow> Request \<Rightarrow> Voice \<Rightarrow> Client \<Rightarrow> ('w service, synth_error, frame list) op" where
  "call_worker P req voice client =
    bindE (port (pWorker P client (worker_request req voice))) (\<lambda>frames. seqE (emit (Received frames)) (returnE frames))"

section \<open>Complete synthesis (\<^verbatim>\<open>service.go\<close>)\<close>

text \<open>The receive loop: \<open>prev\<close> is the sequence number seen last, \<open>pcm\<close> the audio so far.\<close>

fun recv_loop :: "'w ports \<Rightarrow> int \<Rightarrow> frame list \<Rightarrow> 32 word option \<Rightarrow> byte list \<Rightarrow> int \<Rightarrow> ('w service, synth_error, byte list \<times> int) op" where
  "recv_loop P started [] prev pcm ttfaMS = failE plain"
| "recv_loop P started (EndOfStream # rest) prev pcm ttfaMS = returnE (pcm, ttfaMS)"
| "recv_loop P started (Broken e # rest) prev pcm ttfaMS = failE e"
| "recv_loop P started (Frame sq p fin # rest) prev pcm ttfaMS =
    (if prev \<noteq> None \<and> sq \<noteq> the prev + 1 then failE (wrapping ErrWorkerFailed plain)
     else bindE (if p \<noteq> [] \<and> ttfaMS = 0 then bindE (since_ms P started) (\<lambda>ms. returnE (clampMS ms)) else returnE ttfaMS) (\<lambda>ttfa.
       if fin then returnE (pcm @ p, ttfa) else recv_loop P started rest (Some sq) (pcm @ p) ttfa))"

definition worker_call :: "'w ports \<Rightarrow> Request \<Rightarrow> Voice \<Rightarrow> Client \<Rightarrow> ('w service, synth_error, byte list \<times> int) op" where
  "worker_call P req voice client =
    bindE (ask (pNow P)) (\<lambda>started.
    bindE (call_worker P req voice client) (\<lambda>frames. recv_loop P started frames None [] 0))"

definition store_audio :: "'w ports \<Rightarrow> Key \<Rightarrow> int \<Rightarrow> byte list \<Rightarrow> ('w service, 'e, unit) op" where
  "store_audio P key durationMS pcm = seqE (emit (Stored key pcm))
     (catchE (port (pStore P key \<lparr>S3Key = [], Format = ''pcm16'', entry_DurationMS = durationMS, Bytes = int (length pcm)\<rparr> pcm))
       (\<lambda>_. returnE ()) (\<lambda>_. returnE ()))"

definition sync_result :: "Request \<Rightarrow> Voice \<Rightarrow> bool \<Rightarrow> int \<Rightarrow> byte list \<Rightarrow> Result" where
  "sync_result req voice hit durationMS wav = \<lparr>rs_Audio = wav, rs_DurationMS = durationMS, rs_SampleRate = rq_SampleRate req,
     rs_Format = rq_Format req, rs_CacheHit = hit, rs_CharsBilled = Chars req, rs_VoiceID = v_ID voice, rs_ModelVersion = v_ModelVersion voice\<rparr>"

definition fromWorker :: "'w ports \<Rightarrow> Request \<Rightarrow> Key \<Rightarrow> Voice \<Rightarrow> ('w service, synth_error, Result) op" where
  "fromWorker P req key voice =
    catchE (withWorker P ClassSync (worker_call P req voice))
      (\<lambda>e. seqE (bill P req key voice 0 False ''error'') (failE (classifyWorkerError e)))
      (\<lambda>(pcm, ttfaMS).
        let durationMS = DurationMS (int (length pcm)) (rq_SampleRate req)
        in seqE (store_audio P key durationMS pcm)
           (seqE (billWithTTFA P req key voice durationMS ttfaMS False ''ok'')
             (case wrap_audio pcm (rq_SampleRate req) of Inl e \<Rightarrow> failE e
              | Inr wav \<Rightarrow> returnE (sync_result req voice False durationMS wav))))"

definition fromCache :: "'w ports \<Rightarrow> Request \<Rightarrow> Key \<Rightarrow> Voice \<Rightarrow> ('w service, synth_error, Result option) op" where
  "fromCache P req key voice =
    catchE (port (pLookup P key)) (\<lambda>_. returnE None) (\<lambda>(entry, body).
      catchE (port (pReadAll P body)) (\<lambda>_. returnE None) (\<lambda>pcm.
        case wrap_audio pcm (rq_SampleRate req) of Inl _ \<Rightarrow> returnE None
        | Inr wav \<Rightarrow> seqE (bill P req key voice (entry_DurationMS entry) True ''ok'')
            (returnE (Some (sync_result req voice True (entry_DurationMS entry) wav)))))"

definition Synthesize :: "'w ports \<Rightarrow> Request \<Rightarrow> string \<Rightarrow> ('w service, synth_error, Result) op" where
  "Synthesize P req0 planID =
    (case Validate req0 of Inl e \<Rightarrow> failE e
     | Inr req \<Rightarrow>
       bindE (resolveVoice P req) (\<lambda>voice.
       seqE (checkQuota P req planID)
       (let key = Derive (pSha256 P) (cache_input req voice)
        in bindE (fromCache P req key voice) (\<lambda>hit.
           case hit of Some result \<Rightarrow> returnE result | None \<Rightarrow> fromWorker P req key voice))))"

section \<open>Streaming (\<^verbatim>\<open>stream.go\<close>)\<close>

definition leaseRenewEvery :: int where "leaseRenewEvery = 20 * 10 ^ 9"

definition charsPerAudioSecond :: rat where "charsPerAudioSecond = 29 / 2"

record StreamResult =
  st_DurationMS :: int
  st_TTFAMS :: int
  st_CacheHit :: bool
  st_CharsBilled :: int
  st_Cancelled :: bool

definition empty_result :: StreamResult where
  "empty_result = \<lparr>st_DurationMS = 0, st_TTFAMS = 0, st_CacheHit = False, st_CharsBilled = 0, st_Cancelled = False\<rparr>"

definition cancelledResult :: "int \<Rightarrow> Request \<Rightarrow> int \<Rightarrow> StreamResult" where
  "cancelledResult pcmBytes req ttfaMS =
    (let durationMS = DurationMS pcmBytes (rq_SampleRate req);
         delivered = \<lfloor>f64 (f64 (of_int durationMS / 1000) * charsPerAudioSecond)\<rfloor>;
         billed = (if Chars req < delivered then Chars req else delivered)
     in \<lparr>st_DurationMS = durationMS, st_TTFAMS = ttfaMS, st_CacheHit = False, st_CharsBilled = billed, st_Cancelled = True\<rparr>)"

definition meterStream :: "'w ports \<Rightarrow> Request \<Rightarrow> Key \<Rightarrow> Voice \<Rightarrow> StreamResult \<Rightarrow> string \<Rightarrow> ('w service, 'e, unit) op" where
  "meterStream P req key voice result status =
    seqE (if status = ''ok'' \<or> status = ''client_cancelled'' then charge P (rq_TenantID req) (st_CharsBilled result) else returnE ())
     (meter_usage P \<lparr>us_TenantID = rq_TenantID req, us_KeyID = rq_KeyID req, us_RequestID = rq_RequestID req,
       us_VoiceID = v_ID voice, us_CacheKey = key, us_Mode = ''stream'', us_Chars = st_CharsBilled result,
       us_DurationMS = st_DurationMS result, us_TTFAMS = st_TTFAMS result, us_Cached = st_CacheHit result, us_Status = status\<rparr>)"

definition send_header :: "'w ports \<Rightarrow> int \<Rightarrow> ('w service, synth_error, unit) op" where
  "send_header P rate = seqE (port (pHeader P rate)) (emit (HeaderSent rate))"

definition send_chunk :: "'w ports \<Rightarrow> byte list \<Rightarrow> ('w service, synth_error, unit) op" where
  "send_chunk P pcm = seqE (port (pChunk P pcm)) (emit (Sent pcm))"

text \<open>The replay loop: whether the client went away.\<close>

fun replay :: "'w ports \<Rightarrow> (byte list \<times> read_state) list \<Rightarrow> ('w service, synth_error, bool) op" where
  "replay P [] = returnE False"
| "replay P ((b, st) # rest) =
    (let continue = (if st = More then replay P rest else returnE False)
     in if b = [] then continue
        else catchE (send_chunk P b) (\<lambda>_. returnE True) (\<lambda>_. continue))"

definition streamFromCache :: "'w ports \<Rightarrow> Request \<Rightarrow> Key \<Rightarrow> ('w service, synth_error, StreamResult option) op" where
  "streamFromCache P req key =
    catchE (port (pLookup P key)) (\<lambda>_. returnE None) (\<lambda>(entry, body).
      catchE (send_header P (rq_SampleRate req)) (\<lambda>_. returnE None) (\<lambda>_.
        bindE (ask (pNow P)) (\<lambda>started.
        bindE (ask (pReads P body)) (\<lambda>reads.
        bindE (replay P reads) (\<lambda>gone.
          if gone then returnE (Some (empty_result\<lparr>st_Cancelled := True, st_CharsBilled := Chars req\<rparr>))
          else bindE (since_ms P started) (\<lambda>ms.
            returnE (Some \<lparr>st_DurationMS = entry_DurationMS entry, st_TTFAMS = wrap32 ms, st_CacheHit = True,
              st_CharsBilled = Chars req, st_Cancelled = False\<rparr>)))))))"

text \<open>
  \<^verbatim>\<open>openStream\<close> hands on the reservation it holds, the frames with the first one received, and when the
  call was made.
\<close>

definition first_frame :: "frame list \<Rightarrow> synth_error + unit" where
  "first_frame frames = (case frames of Frame _ _ _ # _ \<Rightarrow> Inr () | Broken e # _ \<Rightarrow> Inl e | _ \<Rightarrow> Inl plain)"

definition receive_first :: "frame list \<Rightarrow> ('w service, synth_error, frame list) op" where
  "receive_first frames = (case first_frame frames of Inl e \<Rightarrow> failE e | Inr _ \<Rightarrow> returnE frames)"

fun open_stream_loop :: "'w ports \<Rightarrow> Request \<Rightarrow> Voice \<Rightarrow> nat \<Rightarrow> synth_error
    \<Rightarrow> ('w service, synth_error, Reservation \<times> frame list \<times> int) op" where
  "open_stream_loop P req voice 0 lastErr = failE (wrapping ErrOverloaded lastErr)"
| "open_stream_loop P req voice (Suc n) lastErr =
    bindE (reserve P ClassStream) (\<lambda>r.
    bindE (ask (pNow P)) (\<lambda>started.
    catchE (bindE (call_worker P req voice (r_Client r)) receive_first)
      (\<lambda>e. seqE (free_slot P r)
         (if status_Code e \<noteq> ResourceExhausted then failE (classifyWorkerError e)
          else seqE (port (pSleep P)) (open_stream_loop P req voice n e)))
      (\<lambda>frames. returnE (r, frames, started))))"

definition openStream :: "'w ports \<Rightarrow> Request \<Rightarrow> Voice \<Rightarrow> ('w service, synth_error, Reservation \<times> frame list \<times> int) op" where
  "openStream P req voice = open_stream_loop P req voice workerAttempts plain"

text \<open>A failed receive: the client hung up, which bills what was delivered, or the worker failed.\<close>

definition recv_failed :: "'w ports \<Rightarrow> Request \<Rightarrow> Key \<Rightarrow> Voice \<Rightarrow> byte list \<Rightarrow> int \<Rightarrow> synth_error \<Rightarrow> ('w service, synth_error, StreamResult) op" where
  "recv_failed P req key voice teed ttfaMS e =
    bindE (ask (\<lambda>w. (pCancelled P w, w))) (\<lambda>gone.
      if gone then let result = cancelledResult (int (length teed)) req ttfaMS
        in seqE (meterStream P req key voice result ''client_cancelled'') (returnE result)
      else seqE (meterStream P req key voice empty_result ''error'') (failE (classifyWorkerError e)))"

text \<open>What the loop carries: the audio sent and teed, the time to first audio, and whether the header went out.\<close>

record tee =
  te_teed :: "byte list"
  te_ttfaMS :: int
  te_headerWritten :: bool

text \<open>The audio of one frame goes to the sink: either the loop goes on, or the client is gone.\<close>

definition send_frame :: "'w ports \<Rightarrow> Request \<Rightarrow> Key \<Rightarrow> Voice \<Rightarrow> int \<Rightarrow> byte list \<Rightarrow> tee \<Rightarrow> ('w service, synth_error, StreamResult + tee) op" where
  "send_frame P req key voice started p t =
    (if p = [] then returnE (Inr t)
     else seqE (if te_headerWritten t then returnE () else send_header P (rq_SampleRate req))
       (bindE (if te_ttfaMS t = 0 then bindE (since_ms P started) (\<lambda>ms. returnE (clampMS ms)) else returnE (te_ttfaMS t)) (\<lambda>ttfa.
         catchE (send_chunk P p)
           (\<lambda>_. let result = cancelledResult (int (length (te_teed t))) req ttfa
                in seqE (meterStream P req key voice result ''client_cancelled'') (returnE (Inl result)))
           (\<lambda>_. returnE (Inr \<lparr>te_teed = te_teed t @ p, te_ttfaMS = ttfa, te_headerWritten = True\<rparr>)))))"

definition renew_lease :: "'w ports \<Rightarrow> uuid Lease \<Rightarrow> int \<Rightarrow> ('w service, synth_error, int) op" where
  "renew_lease P lease lastRenew =
    bindE (ask (pNow P)) (\<lambda>now.
      if leaseRenewEvery < now - lastRenew
      then catchE (port (pRenew P lease)) (\<lambda>_. ask (pNow P)) (\<lambda>_. ask (pNow P))
      else returnE lastRenew)"

text \<open>The frame loop: a result when the request ended inside it, or what was teed when the stream ended.\<close>

fun stream_loop :: "'w ports \<Rightarrow> Request \<Rightarrow> Key \<Rightarrow> Voice \<Rightarrow> uuid Lease \<Rightarrow> int \<Rightarrow> frame list \<Rightarrow> 32 word option \<Rightarrow> int \<Rightarrow> tee
    \<Rightarrow> ('w service, synth_error, StreamResult + tee) op" where
  "stream_loop P req key voice lease started [] prev lastRenew t =
    bindE (recv_failed P req key voice (te_teed t) (te_ttfaMS t) plain) (\<lambda>result. returnE (Inl result))"
| "stream_loop P req key voice lease started (EndOfStream # rest) prev lastRenew t = returnE (Inr t)"
| "stream_loop P req key voice lease started (Broken e # rest) prev lastRenew t =
    bindE (recv_failed P req key voice (te_teed t) (te_ttfaMS t) e) (\<lambda>result. returnE (Inl result))"
| "stream_loop P req key voice lease started (Frame sq p fin # rest) prev lastRenew t =
    (if prev \<noteq> None \<and> sq \<noteq> the prev + 1
     then seqE (meterStream P req key voice empty_result ''error'') (failE (wrapping ErrWorkerFailed plain))
     else bindE (send_frame P req key voice started p t) (\<lambda>out.
       case out of Inl result \<Rightarrow> returnE (Inl result)
       | Inr t' \<Rightarrow> bindE (renew_lease P lease lastRenew) (\<lambda>lastRenew'.
           if fin then returnE (Inr t') else stream_loop P req key voice lease started rest (Some sq) lastRenew' t')))"

definition complete_stream :: "'w ports \<Rightarrow> Request \<Rightarrow> Key \<Rightarrow> Voice \<Rightarrow> tee \<Rightarrow> ('w service, synth_error, StreamResult) op" where
  "complete_stream P req key voice t =
    (let durationMS = DurationMS (int (length (te_teed t))) (rq_SampleRate req);
         result = \<lparr>st_DurationMS = durationMS, st_TTFAMS = te_ttfaMS t, st_CacheHit = False, st_CharsBilled = Chars req, st_Cancelled = False\<rparr>
     in seqE (store_audio P key durationMS (te_teed t)) (seqE (meterStream P req key voice result ''ok'') (returnE result)))"

definition streamFromWorker :: "'w ports \<Rightarrow> Request \<Rightarrow> Key \<Rightarrow> Voice \<Rightarrow> uuid Lease \<Rightarrow> ('w service, synth_error, StreamResult) op" where
  "streamFromWorker P req key voice lease =
    bindE (openStream P req voice) (\<lambda>(r, frames, started).
      finallyE
        (bindE (ask (pNow P)) (\<lambda>lastRenew.
         bindE (stream_loop P req key voice lease started frames None lastRenew \<lparr>te_teed = [], te_ttfaMS = 0, te_headerWritten = False\<rparr>) (\<lambda>out.
           case out of Inl result \<Rightarrow> returnE result | Inr t \<Rightarrow> complete_stream P req key voice t)))
        (free_slot P r))"

definition release_lease :: "'w ports \<Rightarrow> uuid Lease \<Rightarrow> ('w service, 'e, unit) op" where
  "release_lease P lease = seqE (emit (LeaseReleased lease)) (act (pReleaseLease P lease))"

definition Stream :: "'w ports \<Rightarrow> Request \<Rightarrow> string \<Rightarrow> int \<Rightarrow> ('w service, synth_error, StreamResult) op" where
  "Stream P req0 planID streamLimit =
    (case Validate req0 of Inl e \<Rightarrow> failE e
     | Inr req \<Rightarrow>
       bindE (resolveVoice P req) (\<lambda>voice.
       seqE (checkQuota P req planID)
       (bindE (port (pAcquire P (rq_TenantID req) streamLimit)) (\<lambda>granted.
         case granted of None \<Rightarrow> failE (wrapping ErrConcurrencyLimited plain)
         | Some lease \<Rightarrow> seqE (emit (LeaseTaken lease))
             (finallyE
               (let key = Derive (pSha256 P) (cache_input req voice)
                in bindE (streamFromCache P req key) (\<lambda>hit.
                   case hit of
                     Some result \<Rightarrow> seqE (meterStream P req key voice result (if st_Cancelled result then ''client_cancelled'' else ''ok'')) (returnE result)
                   | None \<Rightarrow> streamFromWorker P req key voice lease))
               (release_lease P lease))))))"

section \<open>What a request did\<close>

fun charges :: "event list \<Rightarrow> (uuid \<times> int) list" where
  "charges [] = []"
| "charges (Charged t n # evs) = (t, n) # charges evs"
| "charges (ev # evs) = charges evs"

fun metered :: "event list \<Rightarrow> Usage list" where
  "metered [] = []"
| "metered (Metered u # evs) = u # metered evs"
| "metered (ev # evs) = metered evs"

fun stored :: "event list \<Rightarrow> (Key \<times> byte list) list" where
  "stored [] = []"
| "stored (Stored k b # evs) = (k, b) # stored evs"
| "stored (ev # evs) = stored evs"

fun sent :: "event list \<Rightarrow> byte list" where
  "sent [] = []"
| "sent (Sent b # evs) = b @ sent evs"
| "sent (ev # evs) = sent evs"

fun received :: "event list \<Rightarrow> frame list list" where
  "received [] = []"
| "received (Received fs # evs) = fs # received evs"
| "received (ev # evs) = received evs"

fun is_slot :: "event \<Rightarrow> bool" where
  "is_slot (Slot r) = True"
| "is_slot (SlotFreed r) = True"
| "is_slot ev = False"

fun is_lease :: "event \<Rightarrow> bool" where
  "is_lease (LeaseTaken l) = True"
| "is_lease (LeaseReleased l) = True"
| "is_lease ev = False"

text \<open>Every slot taken is freed before the next one is taken, and none is held at the end.\<close>

fun slots_returned :: "event list \<Rightarrow> bool" where
  "slots_returned [] = True"
| "slots_returned (Slot r # SlotFreed r' # evs) = (r = r' \<and> slots_returned evs)"
| "slots_returned evs = False"

lemma observations_append [simp]:
  "charges (xs @ ys) = charges xs @ charges ys" "metered (xs @ ys) = metered xs @ metered ys"
  "stored (xs @ ys) = stored xs @ stored ys" "sent (xs @ ys) = sent xs @ sent ys"
  "received (xs @ ys) = received xs @ received ys"
  by (induction xs rule: charges.induct) simp_all

lemma slots_returned_append: "slots_returned xs \<Longrightarrow> slots_returned ys \<Longrightarrow> slots_returned (xs @ ys)"
  by (induction xs rule: slots_returned.induct) auto

text \<open>
  \<open>does m Q\<close>: whatever the ports do, \<open>m\<close> appends to the log a list of events that, with its result,
  satisfies \<open>Q\<close>. The rules below walk the service.
\<close>

definition does :: "('w service, 'e, 'a) op \<Rightarrow> ('e + 'a \<Rightarrow> event list \<Rightarrow> bool) \<Rightarrow> bool" where
  "does m Q \<longleftrightarrow> (\<forall>s. \<exists>evs. ss_log (snd (m s)) = ss_log s @ evs \<and> Q (fst (m s)) evs)"

named_theorems does_intros \<open>rules for what the steps of the service do\<close>

lemma doesD: "does m Q \<Longrightarrow> m s = (r, s') \<Longrightarrow> \<exists>evs. ss_log s' = ss_log s @ evs \<and> Q r evs"
  unfolding does_def by (metis fst_conv snd_conv)

lemma doesI: "(\<And>s r s'. m s = (r, s') \<Longrightarrow> \<exists>evs. ss_log s' = ss_log s @ evs \<and> Q r evs) \<Longrightarrow> does m Q"
  unfolding does_def by (metis prod.collapse)

lemma does_weaken: "does m Q \<Longrightarrow> (\<And>r evs. Q r evs \<Longrightarrow> Q' r evs) \<Longrightarrow> does m Q'"
  unfolding does_def by blast

lemma does_returnE [does_intros]: "Q (Inr a) [] \<Longrightarrow> does (returnE a) Q"
  by (simp add: does_def returnE_def)

lemma does_failE [does_intros]: "Q (Inl e) [] \<Longrightarrow> does (failE e) Q"
  by (simp add: does_def failE_def)

lemma does_port [does_intros]: "(\<And>r. Q r []) \<Longrightarrow> does (port m) Q"
  by (simp add: does_def port_def split: prod.split)

lemma does_ask [does_intros]: "(\<And>a. Q (Inr a) []) \<Longrightarrow> does (ask f) Q"
  by (simp add: does_def ask_def split: prod.split)

lemma does_act [does_intros]: "Q (Inr ()) [] \<Longrightarrow> does (act f) Q"
  by (simp add: does_def act_def)

lemma does_emit [does_intros]: "Q (Inr ()) [ev] \<Longrightarrow> does (emit ev) Q"
  by (simp add: does_def emit_def)

lemma does_bindE [does_intros]:
  assumes "does m (\<lambda>r xs. case r of Inl e \<Rightarrow> Q (Inl e) xs | Inr a \<Rightarrow> does (k a) (\<lambda>r ys. Q r (xs @ ys)))"
  shows "does (bindE m k) Q"
proof (rule doesI)
  fix s r s'
  assume run: "bindE m k s = (r, s')"
  obtain r1 s1 where m: "m s = (r1, s1)" by fastforce
  from doesD [OF assms m] obtain xs where xs: "ss_log s1 = ss_log s @ xs"
    and q: "case r1 of Inl e \<Rightarrow> Q (Inl e) xs | Inr a \<Rightarrow> does (k a) (\<lambda>r ys. Q r (xs @ ys))" by blast
  show "\<exists>evs. ss_log s' = ss_log s @ evs \<and> Q r evs"
  proof (cases r1)
    case (Inl e)
    then show ?thesis using run m xs q by (auto simp: bindE_def)
  next
    case (Inr a)
    then have "k a s1 = (r, s')" using run m by (simp add: bindE_def)
    then show ?thesis using doesD [of "k a"] q Inr xs by fastforce
  qed
qed

lemma does_seqE [does_intros]:
  "does m (\<lambda>r xs. case r of Inl e \<Rightarrow> Q (Inl e) xs | Inr a \<Rightarrow> does n (\<lambda>r ys. Q r (xs @ ys))) \<Longrightarrow> does (seqE m n) Q"
  unfolding seqE_def by (rule does_bindE)

lemma does_catchE [does_intros]:
  assumes "does m (\<lambda>r xs. case r of Inl e \<Rightarrow> does (h e) (\<lambda>r ys. Q r (xs @ ys)) | Inr a \<Rightarrow> does (k a) (\<lambda>r ys. Q r (xs @ ys)))"
  shows "does (catchE m h k) Q"
proof (rule doesI)
  fix s r s'
  assume run: "catchE m h k s = (r, s')"
  obtain r1 s1 where m: "m s = (r1, s1)" by fastforce
  from doesD [OF assms m] obtain xs where xs: "ss_log s1 = ss_log s @ xs"
    and q: "case r1 of Inl e \<Rightarrow> does (h e) (\<lambda>r ys. Q r (xs @ ys)) | Inr a \<Rightarrow> does (k a) (\<lambda>r ys. Q r (xs @ ys))" by blast
  show "\<exists>evs. ss_log s' = ss_log s @ evs \<and> Q r evs"
  proof (cases r1)
    case (Inl e)
    then have "h e s1 = (r, s')" using run m by (simp add: catchE_def)
    then show ?thesis using doesD [of "h e"] q Inl xs by fastforce
  next
    case (Inr a)
    then have "k a s1 = (r, s')" using run m by (simp add: catchE_def)
    then show ?thesis using doesD [of "k a"] q Inr xs by fastforce
  qed
qed

lemma does_finallyE [does_intros]:
  assumes "does m (\<lambda>r xs. does f (\<lambda>_ ys. Q r (xs @ ys)))"
  shows "does (finallyE m f) Q"
proof (rule doesI)
  fix s r s'
  assume run: "finallyE m f s = (r, s')"
  obtain r1 s1 where m: "m s = (r1, s1)" by fastforce
  obtain r2 s2 where f: "f s1 = (r2, s2)" by fastforce
  from doesD [OF assms m] obtain xs where "ss_log s1 = ss_log s @ xs" "does f (\<lambda>_ ys. Q r1 (xs @ ys))" by blast
  moreover have "r = r1" "s' = s2" using run m f by (auto simp: finallyE_def)
  ultimately show "\<exists>evs. ss_log s' = ss_log s @ evs \<and> Q r evs" using doesD [of f, OF _ f] by fastforce
qed

lemma does_wrapE [does_intros]:
  assumes "does m (\<lambda>r xs. Q (case r of Inl e \<Rightarrow> Inl (f e) | Inr a \<Rightarrow> Inr a) xs)"
  shows "does (wrapE f m) Q"
proof (rule doesI)
  fix s r s'
  assume run: "wrapE f m s = (r, s')"
  obtain r1 s1 where m: "m s = (r1, s1)" by fastforce
  then have "r = (case r1 of Inl e \<Rightarrow> Inl (f e) | Inr a \<Rightarrow> Inr a)" "s' = s1"
    using run by (auto simp: wrapE_def split: sum.splits)
  then show "\<exists>evs. ss_log s' = ss_log s @ evs \<and> Q r evs" using doesD [OF assms m] by simp
qed

section \<open>What the steps do\<close>

lemma does_since_ms [does_intros]: "(\<And>a. Q (Inr a) []) \<Longrightarrow> does (since_ms P t) Q"
  unfolding since_ms_def by (intro does_intros) (simp add: does_returnE)

lemma does_resolveVoice [does_intros]: "(\<And>r. Q r []) \<Longrightarrow> does (resolveVoice P req) Q"
  unfolding resolveVoice_def by (intro does_intros) (simp split: sum.split)

lemma does_if [does_intros]: "(b \<Longrightarrow> does m Q) \<Longrightarrow> (\<not> b \<Longrightarrow> does n Q) \<Longrightarrow> does (if b then m else n) Q"
  by simp

lemma does_tolerate [does_intros]: "(\<And>a. Q (Inr a) []) \<Longrightarrow> does (tolerate P) Q"
  unfolding tolerate_def by (intro does_intros) (simp add: does_def split: prod.split)

lemma does_quota_decided [does_intros]: "(\<And>r. Q r []) \<Longrightarrow> does (quota_decided d) Q"
  by (simp add: does_def quota_decided_def Let_def)

lemma does_checkQuota [does_intros]: "(\<And>r. Q r []) \<Longrightarrow> does (checkQuota P req planID) Q"
  unfolding checkQuota_def by (intro does_intros) (auto intro!: does_intros split: sum.split)

lemma does_charge [does_intros]: "Q (Inr ()) [Charged t n] \<Longrightarrow> does (charge P t n) Q"
  unfolding charge_def by (intro does_intros) (auto intro!: does_intros split: sum.split)

lemma does_meter_usage [does_intros]: "Q (Inr ()) [Metered u] \<Longrightarrow> does (meter_usage P u) Q"
  unfolding meter_usage_def by (intro does_intros) (auto intro!: does_intros)

lemma does_store_audio [does_intros]: "Q (Inr ()) [Stored k b] \<Longrightarrow> does (store_audio P k d b) Q"
  unfolding store_audio_def by (intro does_intros) (auto intro!: does_intros split: sum.split)

lemma does_free_slot [does_intros]: "Q (Inr ()) [SlotFreed r] \<Longrightarrow> does (free_slot P r) Q"
  unfolding free_slot_def by (intro does_intros) (auto intro!: does_intros)

lemma does_reserve [does_intros]: "(\<And>e. Q (Inl e) []) \<Longrightarrow> (\<And>r. Q (Inr r) [Slot r]) \<Longrightarrow> does (reserve P c) Q"
  unfolding reserve_def by (intro does_intros) (auto intro!: does_intros split: sum.split)

text \<open>The audio of a worker stream, if its frames are numbered one after the other up to its end.\<close>

fun in_order :: "frame list \<Rightarrow> 32 word option \<Rightarrow> byte list option" where
  "in_order [] prev = None"
| "in_order (EndOfStream # rest) prev = Some []"
| "in_order (Broken e # rest) prev = None"
| "in_order (Frame sq p fin # rest) prev =
    (if prev \<noteq> None \<and> sq \<noteq> the prev + 1 then None
     else if fin then Some p else map_option (\<lambda>a. p @ a) (in_order rest (Some sq)))"

definition collected :: "frame list \<Rightarrow> 32 word option \<Rightarrow> byte list \<Rightarrow> synth_error + byte list \<times> int \<Rightarrow> bool" where
  "collected frames prev pcm r \<longleftrightarrow> (case r of Inr (pcm', _) \<Rightarrow> map_option (\<lambda>a. pcm @ a) (in_order frames prev) = Some pcm' | Inl _ \<Rightarrow> True)"

lemma collected_next:
  "\<not> (prev \<noteq> None \<and> sq \<noteq> the prev + 1) \<Longrightarrow> \<not> fin \<Longrightarrow> collected rest (Some sq) (pcm @ p) r \<Longrightarrow> collected (Frame sq p fin # rest) prev pcm r"
  by (auto simp: collected_def split: sum.splits)

lemma does_recv_loop:
  "does (recv_loop P started frames prev pcm ttfa) (\<lambda>r evs. evs = [] \<and> collected frames prev pcm r)"
proof (induction P started frames prev pcm ttfa rule: recv_loop.induct)
  case (4 P started sq p fin rest prev pcm ttfa)
  show ?case
  proof (cases "prev \<noteq> None \<and> sq \<noteq> the prev + 1")
    case True
    then show ?thesis by (auto intro!: does_intros simp: collected_def)
  next
    case False
    define fs where "fs = Frame sq p fin # rest"
    have more: "does (recv_loop P started rest (Some sq) (pcm @ p) t) (\<lambda>r evs. evs = [] \<and> collected fs prev pcm r)"
      if "\<not> fin" for t
      using "4.IH" [OF False that] unfolding fs_def by (rule does_weaken) (simp add: collected_next [OF False that])
    have last: "collected fs prev pcm (Inr (pcm @ p, t))" if fin for t
      using False that by (auto simp: collected_def fs_def)
    show ?thesis unfolding recv_loop.simps if_not_P [OF False] unfolding fs_def [symmetric]
      by (intro does_intros; simp add: more last does_returnE)
  qed
qed (auto intro!: does_intros simp: collected_def)

lemma does_call_worker [does_intros]: "(\<And>e. Q (Inl e) []) \<Longrightarrow> (\<And>fs. Q (Inr fs) [Received fs]) \<Longrightarrow> does (call_worker P req voice c) Q"
  unfolding call_worker_def by (intro does_intros) (auto intro!: does_intros split: sum.split)

text \<open>Events that are neither bills nor audio nor leases.\<close>

definition quiet :: "event list \<Rightarrow> bool" where
  "quiet evs \<longleftrightarrow> charges evs = [] \<and> metered evs = [] \<and> stored evs = [] \<and> sent evs = [] \<and> filter is_lease evs = []"

definition got_audio :: "byte list \<Rightarrow> frame list list \<Rightarrow> bool" where
  "got_audio pcm fss \<longleftrightarrow> fss \<noteq> [] \<and> in_order (last fss) None = Some pcm"

lemma quiet_simps [simp]: "quiet []" "quiet (xs @ ys) \<longleftrightarrow> quiet xs \<and> quiet ys" "quiet [Received fs]" "quiet (Slot r # xs) = quiet xs"
  "quiet (SlotFreed r # xs) = quiet xs" "quiet (Received fs # xs) = quiet xs"
  by (auto simp: quiet_def)

lemma got_audio_append: "got_audio pcm ys \<Longrightarrow> got_audio pcm (xs @ ys)"
  by (simp add: got_audio_def)

lemma does_worker_call:
  "does (worker_call P req voice c) (\<lambda>r xs. quiet xs \<and> filter is_slot xs = [] \<and> (\<forall>a. r = Inr a \<longrightarrow> got_audio (fst a) (received xs)))"
proof -
  have loop: "does (recv_loop P started frames None [] 0) (\<lambda>r ys. quiet (Received frames # ys) \<and> filter is_slot (Received frames # ys) = []
     \<and> (\<forall>a. r = Inr a \<longrightarrow> got_audio (fst a) (received (Received frames # ys))))" for started frames
    by (rule does_weaken, rule does_recv_loop) (auto simp: got_audio_def collected_def)
  show ?thesis unfolding worker_call_def
    by (intro does_intros) (auto intro!: does_intros loop [simplified])
qed

lemma does_bill [does_intros]:
  assumes "Q (Inr ()) ((if status = ''ok'' then [Charged (rq_TenantID req) (Chars req)] else []) @
    [Metered \<lparr>us_TenantID = rq_TenantID req, us_KeyID = rq_KeyID req, us_RequestID = rq_RequestID req, us_VoiceID = v_ID voice,
       us_CacheKey = key, us_Mode = ''sync'', us_Chars = Chars req, us_DurationMS = d, us_TTFAMS = t, us_Cached = c, us_Status = status\<rparr>])"
  shows "does (billWithTTFA P req key voice d t c status) Q"
  unfolding billWithTTFA_def using assms by (intro does_intros) (auto intro!: does_intros)

lemma does_meterStream [does_intros]:
  assumes "Q (Inr ()) ((if status = ''ok'' \<or> status = ''client_cancelled'' then [Charged (rq_TenantID req) (st_CharsBilled result)] else []) @
    [Metered \<lparr>us_TenantID = rq_TenantID req, us_KeyID = rq_KeyID req, us_RequestID = rq_RequestID req, us_VoiceID = v_ID voice,
       us_CacheKey = key, us_Mode = ''stream'', us_Chars = st_CharsBilled result, us_DurationMS = st_DurationMS result,
       us_TTFAMS = st_TTFAMS result, us_Cached = st_CacheHit result, us_Status = status\<rparr>])"
  shows "does (meterStream P req key voice result status) Q"
  unfolding meterStream_def using assms by (intro does_intros) (auto intro!: does_intros)

text \<open>The attempts of \<^verbatim>\<open>withWorker\<close>: slots only, each returned, at most one per attempt.\<close>

definition only_slots :: "nat \<Rightarrow> event list \<Rightarrow> bool" where
  "only_slots n evs \<longleftrightarrow> slots_returned (filter is_slot evs) \<and> length (filter is_slot evs) \<le> 2 * n \<and> quiet evs"

lemma only_slots_nil [simp]: "only_slots n []"
  by (simp add: only_slots_def)

lemma only_slots_Cons: "only_slots n evs \<Longrightarrow> quiet xs \<Longrightarrow> filter is_slot xs = [] \<Longrightarrow> only_slots (Suc n) (Slot r # xs @ SlotFreed r # evs)"
  by (simp add: only_slots_def)

lemma only_slots_one: "quiet xs \<Longrightarrow> filter is_slot xs = [] \<Longrightarrow> only_slots (Suc n) (Slot r # xs @ [SlotFreed r])"
  using only_slots_Cons [of n "[]"] by simp

lemma does_with_worker_loop:
  assumes fn: "\<And>c. does (fn c) (\<lambda>r xs. quiet xs \<and> filter is_slot xs = [] \<and> (\<forall>a. r = Inr a \<longrightarrow> G a (received xs)))"
    and G: "\<And>a xs ys. G a ys \<Longrightarrow> G a (xs @ ys)"
  shows "does (with_worker_loop P class fn n e) (\<lambda>r evs. only_slots n evs \<and> (\<forall>a. r = Inr a \<longrightarrow> G a (received evs)))"
proof (induction n arbitrary: e)
  case 0
  then show ?case by (simp add: does_failE)
next
  case (Suc n)
  let ?Q = "\<lambda>n r evs. only_slots n evs \<and> (\<forall>a. r = Inr a \<longrightarrow> G a (received evs))"
  have retry: "does (with_worker_loop P class fn n e') (\<lambda>out ys. ?Q (Suc n) out (Slot r # xs @ SlotFreed r # ys))"
    if "quiet xs" "filter is_slot xs = []" for r e' xs
    using Suc.IH by (rule does_weaken) (auto simp: only_slots_Cons that G)
  have attempt: "does (catchE (finallyE (fn (r_Client r)) (free_slot P r))
      (\<lambda>e. if status_Code e \<noteq> ResourceExhausted then failE e else seqE (port (pSleep P)) (with_worker_loop P class fn n e)) returnE)
      (\<lambda>out ys. ?Q (Suc n) out (Slot r # ys))" for r
    by (rule does_catchE, rule does_finallyE, rule does_weaken, rule fn)
      (auto intro!: does_intros retry [simplified] split: sum.split simp: only_slots_one)
  show ?case by (auto intro!: does_intros attempt [simplified])
qed

section \<open>Complete synthesis\<close>

lemma Validate_ok:
  assumes "Validate r = Inr r'"
  shows "Chars r' = Chars r" "rq_TenantID r' = rq_TenantID r" "rq_SampleRate r' \<in> set SupportedSampleRates" "rq_Format r' = FormatWAV"
  using assms by (auto simp: Validate_def Chars_def supportedRate_def Let_def split: if_splits)

text \<open>A WAV file of the given audio: a header that declares its length, and the audio.\<close>

definition is_wav :: "int \<Rightarrow> byte list \<Rightarrow> byte list \<Rightarrow> bool" where
  "is_wav rate pcm wav \<longleftrightarrow> (\<exists>h. wav_header rate (word_of_int (int (length pcm))) = Inr h \<and> wav = h @ pcm)"

lemma wrap_audio_ok: "wrap_audio pcm rate = Inr wav \<Longrightarrow> is_wav rate pcm wav"
  by (auto simp: wrap_audio_def PCMSize_def is_wav_def split: if_splits sum.splits)

lemma wrap_audio_error:
  assumes "wrap_audio pcm rate = Inl e" "rate \<in> set SupportedSampleRates"
  shows "0xFFFFFFFF - 44 < int (length pcm)"
proof (rule ccontr)
  let ?n = "int (length pcm)"
  assume small: "\<not> 0xFFFFFFFF - 44 < ?n"
  then have "PCMSize ?n = Inr (word_of_int ?n)" by (simp add: PCMSize_def HeaderSize_def)
  moreover have "uint (word_of_int ?n :: 32 word) = ?n mod 2 ^ 32" by (simp add: unsigned_of_nat take_bit_eq_mod zmod_int)
  moreover have "?n mod 2 ^ 32 = ?n" using small by (intro mod_pos_pos_trivial) auto
  moreover have "0 < rate" using assms(2) by (auto simp: SupportedSampleRates_def)
  ultimately have "\<exists>h. wav_header rate (word_of_int ?n) = Inr h" using small by (subst wav_header_ok_iff) (simp add: HeaderSize_def)
  then show False using assms(1) \<open>PCMSize ?n = Inr (word_of_int ?n)\<close> by (auto simp: wrap_audio_def)
qed

text \<open>The contract of one complete synthesis on its result and its events.\<close>

definition sync_contract :: "Request \<Rightarrow> Key \<Rightarrow> synth_error + Result \<Rightarrow> event list \<Rightarrow> bool" where
  "sync_contract req key r evs \<longleftrightarrow> slots_returned (filter is_slot evs) \<and> length (filter is_slot evs) \<le> 2 * workerAttempts
    \<and> (case r of
         Inr res \<Rightarrow> charges evs = [(rq_TenantID req, Chars req)] \<and> rs_CharsBilled res = Chars req
           \<and> rs_SampleRate res = rq_SampleRate req \<and> rs_Format res = rq_Format req
           \<and> (\<exists>u. metered evs = [u] \<and> us_TenantID u = rq_TenantID req \<and> us_Chars u = Chars req \<and> us_Status u = ''ok'' \<and> us_Cached u = rs_CacheHit res)
           \<and> (\<exists>pcm. is_wav (rs_SampleRate res) pcm (rs_Audio res) \<and>
                (if rs_CacheHit res then stored evs = [] else stored evs = [(key, pcm)] \<and> got_audio pcm (received evs)))
       | Inl e \<Rightarrow> (charges evs = [] \<and> stored evs = [] \<and> (metered evs = [] \<or> (\<exists>u. metered evs = [u] \<and> us_Status u = ''error'')))
           \<or> (\<exists>pcm. stored evs = [(key, pcm)] \<and> 0xFFFFFFFF - 44 < int (length pcm)))"

lemma does_fromWorker:
  assumes "rq_SampleRate req \<in> set SupportedSampleRates"
  shows "does (fromWorker P req key voice) (sync_contract req key)"
proof -
  have attempts: "does (withWorker P ClassSync (worker_call P req voice))
      (\<lambda>r evs. only_slots workerAttempts evs \<and> (\<forall>a. r = Inr a \<longrightarrow> got_audio (fst a) (received evs)))"
    unfolding withWorker_def by (rule does_with_worker_loop, rule does_worker_call, rule got_audio_append)
  show ?thesis unfolding fromWorker_def bill_def
    by (rule does_catchE, rule does_weaken, rule attempts)
      (auto intro!: does_intros split: sum.split prod.split
      simp: Let_def sync_contract_def only_slots_def quiet_def sync_result_def
      dest!: wrap_audio_ok wrap_audio_error [OF _ assms])
qed

lemma does_fromCache:
  "does (fromCache P req key voice) (\<lambda>r evs. case r of Inr (Some res) \<Rightarrow> sync_contract req key (Inr res) evs | _ \<Rightarrow> evs = [])"
  unfolding fromCache_def bill_def
  by (intro does_intros) (auto intro!: does_intros split: sum.split prod.split simp: sync_contract_def sync_result_def dest!: wrap_audio_ok, blast)

section \<open>Streams\<close>

text \<open>A charge and its usage record.\<close>

definition billed :: "Request \<Rightarrow> StreamResult \<Rightarrow> event list \<Rightarrow> bool" where
  "billed req res evs \<longleftrightarrow> charges evs = [(rq_TenantID req, st_CharsBilled res)]
     \<and> (\<exists>u. metered evs = [u] \<and> us_TenantID u = rq_TenantID req \<and> us_Chars u = st_CharsBilled res \<and> us_DurationMS u = st_DurationMS res
          \<and> us_Cached u = st_CacheHit res \<and> us_Status u = (if st_Cancelled res then ''client_cancelled'' else ''ok''))"

definition unbilled :: "event list \<Rightarrow> bool" where
  "unbilled evs \<longleftrightarrow> charges evs = [] \<and> stored evs = [] \<and> (metered evs = [] \<or> (\<exists>u. metered evs = [u] \<and> us_Status u = ''error'' \<and> us_Chars u = 0))"

definition held_only :: "event list \<Rightarrow> bool" where
  "held_only evs \<longleftrightarrow> filter is_slot evs = [] \<and> filter is_lease evs = []"

text \<open>One frame sent to the client, and the frame loop.\<close>

definition sent_frame :: "Request \<Rightarrow> byte list \<Rightarrow> byte list \<Rightarrow> synth_error + StreamResult + tee \<Rightarrow> event list \<Rightarrow> bool" where
  "sent_frame req p teed r evs \<longleftrightarrow> held_only evs \<and> stored evs = [] \<and> received evs = [] \<and>
    (case r of Inl e \<Rightarrow> unbilled evs
     | Inr (Inl res) \<Rightarrow> billed req res evs \<and> (\<exists>ttfa. res = cancelledResult (int (length (teed @ sent evs))) req ttfa)
     | Inr (Inr t) \<Rightarrow> charges evs = [] \<and> metered evs = [] \<and> te_teed t = teed @ sent evs \<and> sent evs = p)"

definition loop_contract :: "Request \<Rightarrow> frame list \<Rightarrow> 32 word option \<Rightarrow> byte list \<Rightarrow> synth_error + StreamResult + tee \<Rightarrow> event list \<Rightarrow> bool" where
  "loop_contract req frames prev teed r evs \<longleftrightarrow> held_only evs \<and> stored evs = [] \<and> received evs = [] \<and>
    (case r of Inl e \<Rightarrow> unbilled evs
     | Inr (Inl res) \<Rightarrow> billed req res evs \<and> (\<exists>ttfa. res = cancelledResult (int (length (teed @ sent evs))) req ttfa)
     | Inr (Inr t) \<Rightarrow> charges evs = [] \<and> metered evs = [] \<and> te_teed t = teed @ sent evs \<and> in_order frames prev = Some (sent evs))"

lemmas contract_defs = sent_frame_def loop_contract_def billed_def unbilled_def held_only_def

lemma cancelledResult_simps [simp]: "st_Cancelled (cancelledResult n req ttfa)" "\<not> st_CacheHit (cancelledResult n req ttfa)"
  "st_CharsBilled (cancelledResult n req ttfa) \<le> Chars req"
  by (simp_all add: cancelledResult_def Let_def)

lemma does_send_header [does_intros]: "(\<And>e. Q (Inl e) []) \<Longrightarrow> Q (Inr ()) [HeaderSent rate] \<Longrightarrow> does (send_header P rate) Q"
  unfolding send_header_def by (intro does_intros) (auto intro!: does_intros split: sum.split)

lemma does_send_chunk [does_intros]: "(\<And>e. Q (Inl e) []) \<Longrightarrow> Q (Inr ()) [Sent b] \<Longrightarrow> does (send_chunk P b) Q"
  unfolding send_chunk_def by (intro does_intros) (auto intro!: does_intros split: sum.split)

lemma does_renew_lease [does_intros]: "(\<And>a. Q (Inr a) []) \<Longrightarrow> does (renew_lease P l t) Q"
  unfolding renew_lease_def by (intro does_intros) (auto intro!: does_intros split: sum.split)

lemma does_recv_failed:
  "does (bindE (recv_failed P req key voice teed ttfa e) (\<lambda>result. returnE (Inl result))) (loop_contract req frames prev teed)"
  unfolding recv_failed_def
  by (intro does_intros) (auto intro!: does_intros simp: Let_def contract_defs empty_result_def split: sum.split, blast+)

lemma does_send_frame: "does (send_frame P req key voice started p t) (sent_frame req p (te_teed t))"
  unfolding send_frame_def
  by (intro does_intros) (auto intro!: does_intros simp: Let_def contract_defs split: sum.split, blast+)

lemma loop_step:
  assumes "\<not> (prev \<noteq> None \<and> sq \<noteq> the prev + 1)" "sent_frame req p teed (Inr (Inr t)) xs"
  shows "\<not> fin \<Longrightarrow> loop_contract req rest (Some sq) (te_teed t) r ys \<Longrightarrow> loop_contract req (Frame sq p fin # rest) prev teed r (xs @ ys)"
    and "fin \<Longrightarrow> loop_contract req (Frame sq p fin # rest) prev teed (Inr (Inr t)) xs"
  using assms by (auto simp: contract_defs split: sum.split)

lemma loop_stop:
  "sent_frame req p teed (Inr (Inl res)) xs \<Longrightarrow> loop_contract req frames prev teed (Inr (Inl res)) xs"
  "sent_frame req p teed (Inl e) xs \<Longrightarrow> loop_contract req frames prev teed (Inl e) xs"
  by (auto simp: contract_defs)

lemma does_stream_loop:
  "does (stream_loop P req key voice lease started frames prev lastRenew t) (loop_contract req frames prev (te_teed t))"
proof (induction P req key voice lease started frames prev lastRenew t rule: stream_loop.induct)
  case (1 P req key voice lease started prev lastRenew t)
  then show ?case by (simp add: does_recv_failed)
next
  case (2 P req key voice lease started rest prev lastRenew t)
  then show ?case by (auto intro!: does_intros simp: loop_contract_def held_only_def)
next
  case (3 P req key voice lease started e rest prev lastRenew t)
  then show ?case by (simp add: does_recv_failed)
next
  case (4 P req key voice lease started sq p fin rest prev lastRenew t)
  show ?case
  proof (cases "prev \<noteq> None \<and> sq \<noteq> the prev + 1")
    case True
    then show ?thesis
      by (auto intro!: does_intros simp: contract_defs empty_result_def)
  next
    case False
    define fs where "fs = Frame sq p fin # rest"
    note frame = loop_step [OF False, where fin = fin and rest = rest and p = p, folded fs_def]
    have more: "does (stream_loop P req key voice lease started rest (Some sq) l t')
        (\<lambda>r ys. loop_contract req fs prev (te_teed t) r (xs @ ys))" if "sent_frame req p (te_teed t) (Inr (Inr t')) xs" "\<not> fin" for t' l xs
      using "4.IH" [OF False that(2)] by (rule does_weaken) (rule frame(1) [OF that])
    show ?thesis unfolding stream_loop.simps if_not_P [OF False] unfolding fs_def [symmetric]
      by (rule does_bindE, rule does_weaken, rule does_send_frame)
        (auto intro!: does_intros more frame(2) split: sum.split simp: loop_stop)
  qed
qed

text \<open>Opening a stream: on success the last slot taken is still held.\<close>

definition opened :: "nat \<Rightarrow> synth_error + Reservation \<times> frame list \<times> int \<Rightarrow> event list \<Rightarrow> bool" where
  "opened n out evs \<longleftrightarrow> (case out of Inl _ \<Rightarrow> only_slots n evs
     | Inr (r, frames, _) \<Rightarrow> (\<exists>xs. evs = xs @ [Slot r, Received frames] \<and> length (filter is_slot xs) + 2 \<le> 2 * n \<and> only_slots n xs))"

lemma opened_now: "opened (Suc n) (Inl e) []" "opened (Suc n) (Inl e) [Slot r, SlotFreed r]"
  "opened (Suc n) (Inl e) [Slot r, Received fs, SlotFreed r]" "opened (Suc n) (Inr (r, frames, t)) [Slot r, Received frames]"
  by (simp_all add: opened_def only_slots_def)

lemma opened_retry:
  assumes "opened n out ys" "quiet zs" "filter is_slot zs = []"
  shows "opened (Suc n) out (Slot r # zs @ SlotFreed r # ys)"
proof (cases out)
  case (Inl e)
  then show ?thesis using assms only_slots_Cons [of n ys zs r] by (simp add: opened_def)
next
  case (Inr b)
  then obtain res fr st where b: "out = Inr (res, fr, st)" by (cases b) simp
  with assms(1) obtain xs where "ys = xs @ [Slot res, Received fr]" "length (filter is_slot xs) + 2 \<le> 2 * n" "only_slots n xs"
    by (auto simp: opened_def)
  then show ?thesis using only_slots_Cons [of n xs zs r] assms(2,3)
    by (auto simp: opened_def b intro!: exI [of _ "Slot r # zs @ SlotFreed r # xs"])
qed

lemma does_receive_first [does_intros]: "(\<And>e. Q (Inl e) []) \<Longrightarrow> Q (Inr frames) [] \<Longrightarrow> does (receive_first frames) Q"
  by (simp add: receive_first_def does_intros split: sum.split)

lemma does_open_stream_loop: "does (open_stream_loop P req voice n e) (opened n)"
proof (induction n arbitrary: e)
  case 0
  then show ?case by (simp add: does_failE opened_def)
next
  case (Suc n)
  have retry: "does (open_stream_loop P req voice n e') (\<lambda>out ys. opened (Suc n) out (Slot r # zs @ SlotFreed r # ys))"
    if "quiet zs" "filter is_slot zs = []" for r e' zs
    using Suc.IH by (rule does_weaken) (rule opened_retry [OF _ that])
  show ?case
    by (auto intro!: does_intros retry [of "[]", simplified] retry [of "[Received _]", simplified] opened_now split: sum.split)
qed

text \<open>What a stream delivers, bills and caches.\<close>

definition delivery :: "Request \<Rightarrow> Key \<Rightarrow> synth_error + StreamResult \<Rightarrow> event list \<Rightarrow> bool" where
  "delivery req key r evs \<longleftrightarrow>
    (case r of Inl e \<Rightarrow> unbilled evs
     | Inr res \<Rightarrow> billed req res evs \<and> st_CharsBilled res \<le> Chars req \<and> (\<not> st_Cancelled res \<longrightarrow> st_CharsBilled res = Chars req)
         \<and> (if st_Cancelled res \<or> st_CacheHit res then stored evs = [] else stored evs = [(key, sent evs)] \<and> got_audio (sent evs) (received evs))
         \<and> (st_Cancelled res \<longrightarrow> st_CharsBilled res = Chars req \<or> (\<exists>ttfa. res = cancelledResult (int (length (sent evs))) req ttfa)))"

definition stream_contract :: "Request \<Rightarrow> Key \<Rightarrow> synth_error + StreamResult \<Rightarrow> event list \<Rightarrow> bool" where
  "stream_contract req key r evs \<longleftrightarrow> slots_returned (filter is_slot evs) \<and> length (filter is_slot evs) \<le> 2 * workerAttempts
     \<and> filter is_lease evs = [] \<and> delivery req key r evs"

lemma delivery_quiet:
  assumes "delivery req key r ys" "quiet xs" "quiet zs" "received zs = []"
  shows "delivery req key r (xs @ ys @ zs)"
  using assms by (auto simp: delivery_def billed_def unbilled_def quiet_def got_audio_append split: sum.splits)

lemma stream_contract_slots:
  assumes "held_only ys" "delivery req key r (Received frames # ys)" "only_slots workerAttempts xs" "length (filter is_slot xs) + 2 \<le> 2 * workerAttempts"
  shows "stream_contract req key r (xs @ Slot res # Received frames # ys @ [SlotFreed res])"
proof -
  have "slots_returned (filter is_slot xs @ [Slot res, SlotFreed res])"
    using assms(3) slots_returned_append [of "filter is_slot xs" "[Slot res, SlotFreed res]"] by (simp add: only_slots_def)
  moreover have "delivery req key r ((xs @ [Slot res]) @ (Received frames # ys) @ [SlotFreed res])"
    using assms(2,3) by (intro delivery_quiet) (auto simp: only_slots_def)
  ultimately show ?thesis using assms by (auto simp: stream_contract_def held_only_def only_slots_def quiet_def)
qed

lemma does_complete_stream:
  assumes "loop_contract req frames None [] (Inr (Inr t)) xs"
  shows "does (complete_stream P req key voice t) (\<lambda>r ys. held_only (xs @ ys) \<and> delivery req key r (Received frames # xs @ ys))"
  using assms unfolding complete_stream_def
  by (auto intro!: does_intros simp: Let_def delivery_def contract_defs got_audio_def split: sum.split)

lemma loop_delivery:
  "loop_contract req frames None [] (Inr (Inl res)) xs \<Longrightarrow> held_only xs \<and> delivery req key (Inr res) (Received frames # xs)"
  "loop_contract req frames None [] (Inl e) xs \<Longrightarrow> held_only xs \<and> delivery req key (Inl e) (Received frames # xs)"
  by (auto simp: contract_defs delivery_def)

lemma does_streamFromWorker: "does (streamFromWorker P req key voice lease) (stream_contract req key)"
proof -
  let ?body = "\<lambda>frames started. bindE (ask (pNow P)) (\<lambda>lastRenew.
     bindE (stream_loop P req key voice lease started frames None lastRenew \<lparr>te_teed = [], te_ttfaMS = 0, te_headerWritten = False\<rparr>) (\<lambda>out.
       case out of Inl result \<Rightarrow> returnE result | Inr t \<Rightarrow> complete_stream P req key voice t))"
  have loop: "does (stream_loop P req key voice lease started frames None l \<lparr>te_teed = [], te_ttfaMS = 0, te_headerWritten = False\<rparr>)
      (loop_contract req frames None [])" for started frames l
    using does_stream_loop [of P req key voice lease started frames None l "\<lparr>te_teed = [], te_ttfaMS = 0, te_headerWritten = False\<rparr>"] by simp
  have body: "does (?body frames started) (\<lambda>r ys. held_only ys \<and> delivery req key r (Received frames # ys))" for frames started
    by (intro does_intros, simp, rule does_bindE, rule does_weaken, rule loop)
      (auto intro!: does_intros does_complete_stream split: sum.split simp: loop_delivery)
  have run: "does (finallyE (?body frames started) (free_slot P res)) (\<lambda>r ys. stream_contract req key r (xs @ Slot res # Received frames # ys))"
    if "only_slots workerAttempts xs" "length (filter is_slot xs) + 2 \<le> 2 * workerAttempts" for xs res frames started
    by (rule does_finallyE, rule does_weaken, rule body) (auto intro!: does_intros stream_contract_slots that)
  have failed: "stream_contract req key (Inl e) evs" if "only_slots workerAttempts evs" for e evs
    using that by (simp add: stream_contract_def delivery_def unbilled_def only_slots_def quiet_def)
  show ?thesis unfolding streamFromWorker_def openStream_def
    by (rule does_bindE, rule does_weaken, rule does_open_stream_loop)
      (auto simp: opened_def failed run split: sum.split)
qed

lemma does_replay:
  "does (replay P reads) (\<lambda>r evs. (\<exists>gone. r = Inr gone) \<and> held_only evs \<and> charges evs = [] \<and> metered evs = [] \<and> stored evs = [])"
proof (induction P reads rule: replay.induct)
  case (2 P b st rest)
  then show ?case by (auto intro!: does_intros elim!: does_weaken simp: Let_def held_only_def split: sum.split)
qed (auto intro!: does_intros simp: held_only_def)

text \<open>A replay from the cache before it is billed.\<close>

definition replayed :: "Request \<Rightarrow> synth_error + StreamResult option \<Rightarrow> event list \<Rightarrow> bool" where
  "replayed req r evs \<longleftrightarrow> held_only evs \<and> charges evs = [] \<and> metered evs = [] \<and> stored evs = []
     \<and> (case r of Inr (Some res) \<Rightarrow> st_CharsBilled res = Chars req \<and> (st_Cancelled res \<or> st_CacheHit res) | _ \<Rightarrow> evs = [])"

lemma does_streamFromCache: "does (streamFromCache P req key) (replayed req)"
proof -
  have play: "does (bindE (replay P reads) (\<lambda>gone.
          if gone then returnE (Some (empty_result\<lparr>st_Cancelled := True, st_CharsBilled := Chars req\<rparr>))
          else bindE (since_ms P started) (\<lambda>ms.
            returnE (Some \<lparr>st_DurationMS = entry_DurationMS entry, st_TTFAMS = wrap32 ms, st_CacheHit = True,
              st_CharsBilled = Chars req, st_Cancelled = False\<rparr>)))) (\<lambda>r ys. replayed req r (HeaderSent rate # ys))" for reads started entry rate
    by (rule does_bindE, rule does_weaken, rule does_replay) (auto intro!: does_intros simp: replayed_def held_only_def split: sum.split)
  show ?thesis unfolding streamFromCache_def
    by (auto intro!: does_intros play split: sum.split simp: replayed_def [of _ "Inr None"] replayed_def [of _ "Inl _"] held_only_def)
qed

text \<open>The whole of a complete synthesis and of a stream, with the key of the audio.\<close>

definition audio_key :: "'w ports \<Rightarrow> Request \<Rightarrow> Key \<Rightarrow> bool" where
  "audio_key P req key \<longleftrightarrow> (\<exists>voice. key = Derive (pSha256 P) (cache_input req voice))"

lemma refused_contract: "sync_contract req key (Inl e) []"
  by (simp add: sync_contract_def)

lemma does_Synthesize:
  assumes "Validate req0 = Inr req"
  shows "does (Synthesize P req0 planID) (\<lambda>r evs. \<exists>key. audio_key P req key \<and> sync_contract req key r evs)"
proof -
  note rate = Validate_ok(3) [OF assms]
  have some_key: "audio_key P req (Derive (pSha256 P) (cache_input req voice))" for voice by (auto simp: audio_key_def)
  have run: "does (bindE (fromCache P req key voice) (\<lambda>hit. case hit of Some result \<Rightarrow> returnE result | None \<Rightarrow> fromWorker P req key voice))
      (sync_contract req key)" for key voice
    by (rule does_bindE, rule does_weaken, rule does_fromCache)
      (auto intro!: does_intros does_fromWorker [OF rate] simp: refused_contract split: sum.splits option.splits)
  have run': "does (let key = Derive (pSha256 P) (cache_input req voice) in bindE (fromCache P req key voice)
      (\<lambda>hit. case hit of Some result \<Rightarrow> returnE result | None \<Rightarrow> fromWorker P req key voice))
      (\<lambda>r evs. \<exists>key. audio_key P req key \<and> sync_contract req key r evs)" for voice
    unfolding Let_def by (rule does_weaken, rule run) (use some_key in blast)
  have refused: "\<exists>key. audio_key P req key \<and> sync_contract req key (Inl e) []" for e using some_key refused_contract by blast
  show ?thesis unfolding Synthesize_def assms sum.case
    by (auto intro!: does_intros run' refused split: sum.split)
qed

definition leased :: "event list \<Rightarrow> bool" where
  "leased evs \<longleftrightarrow> (\<exists>l mid. evs = LeaseTaken l # mid @ [LeaseReleased l] \<and> filter is_lease mid = [])"

lemma does_release_lease [does_intros]: "Q (Inr ()) [LeaseReleased l] \<Longrightarrow> does (release_lease P l) Q"
  unfolding release_lease_def by (intro does_intros) (auto intro!: does_intros)

text \<open>A stream with its lease: refused before it had one, or bracketed by it.\<close>

definition leased_contract :: "'w ports \<Rightarrow> Request \<Rightarrow> synth_error + StreamResult \<Rightarrow> event list \<Rightarrow> bool" where
  "leased_contract P req r evs \<longleftrightarrow> (evs = [] \<and> (\<exists>e. r = Inl e)) \<or>
     (leased evs \<and> slots_returned (filter is_slot evs) \<and> length (filter is_slot evs) \<le> 2 * workerAttempts
      \<and> (\<exists>key. audio_key P req key \<and> delivery req key r evs))"

lemma leased_contract_bracket:
  assumes "stream_contract req key r ys" "audio_key P req key"
  shows "leased_contract P req r (LeaseTaken l # ys @ [LeaseReleased l])"
proof -
  have "delivery req key r ys" using assms(1) by (simp add: stream_contract_def)
  then have "delivery req key r (LeaseTaken l # ys @ [LeaseReleased l])"
    by (cases r) (simp_all add: delivery_def billed_def unbilled_def)
  then show ?thesis using assms by (auto simp: leased_contract_def leased_def stream_contract_def)
qed

lemma replay_contract:
  assumes "replayed req (Inr (Some res)) xs" "status = (if st_Cancelled res then ''client_cancelled'' else ''ok'')"
  shows "does (seqE (meterStream P req key voice res status) (returnE res))
    (\<lambda>r ys. stream_contract req key r (xs @ ys))"
  using assms by (auto intro!: does_intros simp: replayed_def stream_contract_def delivery_def held_only_def billed_def)

lemma does_Stream:
  assumes "Validate req0 = Inr req"
  shows "does (Stream P req0 planID limit) (leased_contract P req)"
proof -
  have some_key: "audio_key P req (Derive (pSha256 P) (cache_input req voice))" for voice by (auto simp: audio_key_def)
  have refused: "leased_contract P req (Inl e) []" for e by (simp add: leased_contract_def)
  have failed: "stream_contract req key (Inl e) xs" if "replayed req (Inl e) xs" for e xs key
    using that by (simp add: replayed_def stream_contract_def delivery_def unbilled_def)
  have inner: "does (bindE (streamFromCache P req key) (\<lambda>hit. case hit of
        Some result \<Rightarrow> seqE (meterStream P req key voice result (if st_Cancelled result then ''client_cancelled'' else ''ok'')) (returnE result)
      | None \<Rightarrow> streamFromWorker P req key voice lease)) (stream_contract req key)" for key voice lease
    by (rule does_bindE, rule does_weaken, rule does_streamFromCache)
      (auto intro!: does_streamFromWorker replay_contract failed split: sum.split option.split simp: replayed_def [of _ "Inr None"])
  have bracketed: "does (finallyE (let key = Derive (pSha256 P) (cache_input req voice) in bindE (streamFromCache P req key) (\<lambda>hit. case hit of
        Some result \<Rightarrow> seqE (meterStream P req key voice result (if st_Cancelled result then ''client_cancelled'' else ''ok'')) (returnE result)
      | None \<Rightarrow> streamFromWorker P req key voice lease)) (release_lease P lease)) (\<lambda>r ys. leased_contract P req r (LeaseTaken lease # ys))" for voice lease
    unfolding Let_def
    by (rule does_finallyE, rule does_weaken, rule inner) (auto intro!: does_intros leased_contract_bracket some_key)
  show ?thesis unfolding Stream_def assms sum.case
    by (auto intro!: does_intros bracketed [simplified] refused split: sum.split option.split)
qed

section \<open>Properties\<close>


text \<open>Ports for the examples below: nothing is cached, the worker answers with two frames.\<close>

definition example_ports :: "unit ports" where
  "example_ports = \<lparr>pQuotaCheck = (\<lambda>_ _ _. returnE \<lparr>al_Allowed = True, al_Used = 0\<rparr>), pQuotaRecord = (\<lambda>_ _. returnE ()),
     pLookup = (\<lambda>_. failE ErrMiss), pReadAll = returnE, pReads = (\<lambda>b w. ([(b, Eof)], w)), pStore = (\<lambda>_ _ _. returnE ()),
     pReserve = (\<lambda>c. returnE \<lparr>r_Client = \<lparr>c_Addr = ''w'', c_ModelVersion = ''m''\<rparr>, r_class = c, r_started = 0\<rparr>), pFree = (\<lambda>_ w. w),
     pResolve = (\<lambda>_ i. returnE (fleet_voice i ''m'')), pCharsPerMonth = (\<lambda>_. returnE 1000), pMeter = (\<lambda>_ w. w),
     pWorker = (\<lambda>_ _. returnE [Frame 5 [1, 2] False, Frame 6 [3, 4] True]), pNow = (\<lambda>w. (0, w)), pSleep = returnE (),
     pCancelled = (\<lambda>_. False), pHeader = (\<lambda>_. returnE ()), pChunk = (\<lambda>_. returnE ()),
     pAcquire = (\<lambda>t _. returnE (Some \<lparr>lease_ID = ''l'', lease_TenantID = t\<rparr>)), pRenew = (\<lambda>_. returnE ()), pReleaseLease = (\<lambda>_ w. w),
     pSha256 = (\<lambda>s. [of_nat (length s)])\<rparr>"

definition example_synthesis :: Request where
  "example_synthesis = \<lparr>rq_TenantID = 7, rq_KeyID = 1, rq_RequestID = ''r'', rq_Text = ''xin'', rq_VoiceID = ''v'', rq_Format = ''wav'', rq_SampleRate = 8000,
     rq_Normalize = True, rq_Params = (let zero = \<lparr>signbit = False, magnitude = 0\<rparr> in \<lparr>CFGScale = zero, AudioTemperature = zero, AudioTopK = 1,
       AudioTopP = zero, AudioRepetitionPenalty = zero, EOAExtraFrames = 0, SampleRate = 8000\<rparr>)\<rparr>"

definition example_service :: "unit service" where
  "example_service = \<lparr>ss_world = (), ss_quotaBreak = New Window, ss_log = []\<rparr>"

lemma example_synthesis_valid: "Validate example_synthesis = Inr example_synthesis"
proof -
  have "rune_len ''xin'' = 3" by code_simp
  then show ?thesis
    by (simp add: Validate_def example_synthesis_def MinTextChars_def MaxTextChars_def FormatWAV_def supportedRate_def SupportedSampleRates_def)
qed

lemmas example_run = example_ports_def example_service_def bindE_def seqE_def catchE_def returnE_def failE_def wrapE_def port_def ask_def act_def
  emit_def finallyE_def resolveVoice_def checkQuota_def quota_decided_def reserve_def free_slot_def call_worker_def store_audio_def charge_def
  meter_usage_def since_ms_def





end

