(* ===== verification/Handlers.thy ===== *)
theory Handlers
  imports Http Synth
begin

text \<open>
  The endpoint handlers of package \<^verbatim>\<open>internal/http\<close>: synthesis, streaming, jobs, keys, usage, voices,
  tenants and health. A handler takes the use cases it calls as arguments, as the code takes its
  ports; the JSON decoders, the parsers of identifiers and dates and the texts of errors are
  arguments too. A response body is the document handed to the encoder.
\<close>

section \<open>Documents\<close>

record jobDTO =
  dj_ID :: string
  dj_Status :: string
  dj_Voice :: string
  dj_Format :: string
  dj_SampleRate :: int
  dj_TotalChars :: int
  dj_SegmentsTotal :: "int option"
  dj_SegmentsDone :: int
  dj_DurationMS :: "int option"
  dj_OutputURL :: string
  dj_Error :: string
  dj_Metadata :: metadata
  dj_CreatedAt :: int
  dj_CompletedAt :: "int option"

record keyRecordDTO =
  dk_ID :: string
  dk_Name :: string
  dk_Prefix :: string
  dk_Scopes :: "string list"
  dk_CreatedAt :: int
  dk_LastUsedAt :: "int option"
  dk_RevokedAt :: "int option"
  dk_Secret :: string

record tenantDTO =
  dt_ID :: string
  dt_Name :: string
  dt_PlanID :: string
  dt_Status :: string

record keyDTO =
  dn_ID :: string
  dn_Prefix :: string
  dn_Scopes :: "string list"
  dn_Secret :: string

record createTenantResponse =
  ct_Tenant :: tenantDTO
  ct_Key :: keyDTO

record voiceDTO =
  dv_ID :: string
  dv_DisplayName :: string
  dv_Gender :: string
  dv_Tags :: "string list"
  dv_ModelVersion :: string
  dv_PreviewURL :: string

datatype document = AudioDoc "byte list" | JobDoc jobDTO | JobsDoc "jobDTO list" | KeyDoc keyRecordDTO | KeysDoc "keyRecordDTO list"
  | TenantDoc createTenantResponse | VoicesDoc "voiceDTO list" | UsageDoc Report | CsvDoc string | ReadyDoc Readiness_Status | HealthDoc

definition writeJSON :: "int \<Rightarrow> document \<Rightarrow> ('w, document) exchange \<Rightarrow> ('w, document) exchange" where
  "writeJSON status body = writing (\<lambda>w. Write_body (Body body) (WriteHeader_status status (Header_Set HeaderContentType ''application/json'' w)))"

section \<open>Complete synthesis (\<^verbatim>\<open>synthesize.go\<close>)\<close>

definition maxSynthesizeBody :: nat where "maxSynthesizeBody = 2 ^ 20"
definition HeaderCache :: string where "HeaderCache = ''X-Cache''"
definition HeaderAudioDuration :: string where "HeaderAudioDuration = ''X-Audio-Duration-Ms''"
definition HeaderCharsBilled :: string where "HeaderCharsBilled = ''X-Chars-Billed''"

record synthesisParams =
  ps_CFGScale :: "float64 option"
  ps_AudioTemperature :: "float64 option"
  ps_AudioTopK :: "int option"
  ps_AudioTopP :: "float64 option"
  ps_AudioRepetitionPenalty :: "float64 option"

record synthesizeRequest =
  sb_Text :: string
  sb_Voice :: string
  sb_Format :: string
  sb_SampleRate :: int
  sb_Normalize :: "bool option"
  sb_Params :: "synthesisParams option"

definition literal :: "rat \<Rightarrow> float64" where "literal q = \<lparr>signbit = False, magnitude = f64 q\<rparr>"

definition defaultVoice :: string where "defaultVoice = ''maichi''"
definition defaultCFGScale :: float64 where "defaultCFGScale = literal 1"
definition defaultAudioTemperature :: float64 where "defaultAudioTemperature = literal (8 / 10)"
definition defaultAudioTopK :: int where "defaultAudioTopK = 25"
definition defaultAudioTopP :: float64 where "defaultAudioTopP = literal (95 / 100)"
definition defaultRepetitionPenalty :: float64 where "defaultRepetitionPenalty = literal (12 / 10)"
definition defaultEOAExtraFrames :: int where "defaultEOAExtraFrames = 1"

definition or_else :: "'a option \<Rightarrow> 'a \<Rightarrow> 'a" where
  "or_else x d = (case x of None \<Rightarrow> d | Some y \<Rightarrow> y)"

definition toCacheParams :: "synthesisParams option \<Rightarrow> int \<Rightarrow> Params" where
  "toCacheParams p sampleRate =
    (let params = \<lparr>CFGScale = defaultCFGScale, AudioTemperature = defaultAudioTemperature, AudioTopK = defaultAudioTopK, AudioTopP = defaultAudioTopP,
           AudioRepetitionPenalty = defaultRepetitionPenalty, EOAExtraFrames = defaultEOAExtraFrames,
           SampleRate = (if sampleRate = 0 then 48000 else sampleRate)\<rparr>
     in case p of None \<Rightarrow> params
        | Some q \<Rightarrow> params\<lparr>CFGScale := or_else (ps_CFGScale q) (CFGScale params),
            AudioTemperature := or_else (ps_AudioTemperature q) (AudioTemperature params), AudioTopK := or_else (ps_AudioTopK q) (AudioTopK params),
            AudioTopP := or_else (ps_AudioTopP q) (AudioTopP params),
            AudioRepetitionPenalty := or_else (ps_AudioRepetitionPenalty q) (AudioRepetitionPenalty params)\<rparr>)"

definition toUseCase :: "synthesizeRequest \<Rightarrow> uuid \<Rightarrow> uuid \<Rightarrow> string \<Rightarrow> Request" where
  "toUseCase b tenantID keyID requestID = \<lparr>rq_TenantID = tenantID, rq_KeyID = keyID, rq_RequestID = requestID, rq_Text = sb_Text b,
     rq_VoiceID = (if sb_Voice b = [] then defaultVoice else sb_Voice b), rq_Format = sb_Format b, rq_SampleRate = sb_SampleRate b,
     rq_Normalize = or_else (sb_Normalize b) True, rq_Params = toCacheParams (sb_Params b) (sb_SampleRate b)\<rparr>"

definition contentType :: "string \<Rightarrow> string" where
  "contentType format = (if format = FormatMP3 then ''audio/mpeg'' else if format = FormatOggOpus then ''audio/ogg'' else ''audio/wav'')"

definition overloadProblem :: "synth_error \<Rightarrow> http_error" where
  "overloadProblem e =
    (let problem = NewError CodeOverloaded ''no worker capacity within the latency budget''
     in case se_overload e of None \<Rightarrow> problem | Some ov \<Rightarrow> problem\<lparr>e_RetryAfter := ov_RetryAfter ov\<rparr>)"

definition mapSynthError :: "(synth_error \<Rightarrow> string) \<Rightarrow> synth_error \<Rightarrow> http_error" where
  "mapSynthError text_of e =
    (if errors_Is e Synth.ErrTextTooLong then NewError CodeTextTooLong (text_of e)
     else if errors_Is e ErrUnknownVoice then NewError CodeUnknownVoice ''unknown voice''
     else if errors_Is e Synth.ErrInvalidRequest \<or> errors_Is e ErrFormatNotReady then NewError CodeInvalidRequest (text_of e)
     else if errors_Is e ErrQuotaExceeded then NewError CodeQuotaExceeded ''monthly character quota exhausted''
     else if errors_Is e ErrOverloaded then overloadProblem e
     else bare_error CodeInternal)"

definition writeAudio :: "Result \<Rightarrow> ('w, document) exchange \<Rightarrow> ('w, document) exchange" where
  "writeAudio result = writing (\<lambda>w. Write_body (Body (AudioDoc (rs_Audio result))) (WriteHeader_status 200
     (Header_Set HeaderCharsBilled (Itoa (rs_CharsBilled result)) (Header_Set HeaderAudioDuration (Itoa (rs_DurationMS result))
       (Header_Set HeaderCache (if rs_CacheHit result then ''HIT'' else ''MISS'')
         (Header_Set ''Content-Length'' (Itoa (int (length (rs_Audio result)))) (Header_Set HeaderContentType (contentType (rs_Format result)) w)))))))"

definition Synthesize_handler :: "(string \<Rightarrow> synthesizeRequest option) \<Rightarrow> (synth_error \<Rightarrow> string) \<Rightarrow> 'w ports \<Rightarrow> ('w service, document) handler" where
  "Synthesize_handler decode text_of P r x =
    (case hr_identity r of
       None \<Rightarrow> missing_key r x
     | Some identity \<Rightarrow>
         (case decode (take maxSynthesizeBody (hr_Body r)) of
            None \<Rightarrow> problem r (NewError CodeInvalidRequest ''body must match SynthesizeRequest'') x
          | Some body \<Rightarrow>
              calling (Synthesize P (toUseCase body (id_TenantID identity) (id_KeyID identity) (hr_requestID r)) (id_PlanID identity))
                (\<lambda>e. problem r (mapSynthError text_of e)) writeAudio x))"

section \<open>Streaming (\<^verbatim>\<open>stream.go\<close>)\<close>

text \<open>
  The connection as the sink sees it: the response, whether its status line went out, and the number
  of writes; \<open>conn n\<close> tells whether write \<open>n\<close> reaches the client. Flushing is left out.
\<close>

record 'v wire =
  wi_world :: 'v
  wi_writer :: "document response"
  wi_started :: bool
  wi_writes :: nat

definition write_wire :: "(nat \<Rightarrow> bool) \<Rightarrow> byte list \<Rightarrow> 'v wire \<Rightarrow> bool \<times> 'v wire" where
  "write_wire conn b s =
    (let s' = s\<lparr>wi_writes := Suc (wi_writes s)\<rparr>
     in if conn (wi_writes s) then (True, s'\<lparr>wi_writer := Write_body (Body (AudioDoc b)) (wi_writer s)\<rparr>) else (False, s'))"

definition httpSink_Header :: "(nat \<Rightarrow> bool) \<Rightarrow> int \<Rightarrow> ('v wire, synth_error, unit) op" where
  "httpSink_Header conn sampleRate s =
    wrapE (\<lambda>_. Synth.plain) (WriteHeader (write_wire conn) sampleRate UnknownSize)
      (s\<lparr>wi_writer := WriteHeader_status 200 (Header_Set HeaderCache ''MISS'' (Header_Set HeaderContentType ''audio/wav'' (wi_writer s))),
         wi_started := True\<rparr>)"

definition httpSink_Chunk :: "(nat \<Rightarrow> bool) \<Rightarrow> byte list \<Rightarrow> ('v wire, synth_error, unit) op" where
  "httpSink_Chunk conn pcm s = (case write_wire conn pcm s of (True, s') \<Rightarrow> (Inr (), s') | (False, s') \<Rightarrow> (Inl Synth.plain, s'))"

definition on_world :: "('v, 'e, 'a) op \<Rightarrow> ('v wire, 'e, 'a) op" where
  "on_world m s = (let (r, v) = m (wi_world s) in (r, s\<lparr>wi_world := v\<rparr>))"

definition in_world :: "('v \<Rightarrow> 'v) \<Rightarrow> 'v wire \<Rightarrow> 'v wire" where
  "in_world f s = s\<lparr>wi_world := f (wi_world s)\<rparr>"

definition of_world :: "('v \<Rightarrow> 'a \<times> 'v) \<Rightarrow> 'v wire \<Rightarrow> 'a \<times> 'v wire" where
  "of_world f s = (let (a, v) = f (wi_world s) in (a, s\<lparr>wi_world := v\<rparr>))"

text \<open>The ports of the service with the response as their sink.\<close>

definition sink_ports :: "(nat \<Rightarrow> bool) \<Rightarrow> 'v ports \<Rightarrow> 'v wire ports" where
  "sink_ports conn P = \<lparr>pQuotaCheck = (\<lambda>t l n. on_world (pQuotaCheck P t l n)), pQuotaRecord = (\<lambda>t n. on_world (pQuotaRecord P t n)),
     pLookup = (\<lambda>k. on_world (pLookup P k)), pReadAll = (\<lambda>b. on_world (pReadAll P b)), pReads = (\<lambda>b. of_world (pReads P b)),
     pStore = (\<lambda>k en b. on_world (pStore P k en b)), pReserve = (\<lambda>c. on_world (pReserve P c)), pFree = (\<lambda>r. in_world (pFree P r)),
     pResolve = (\<lambda>t i. on_world (pResolve P t i)), pCharsPerMonth = (\<lambda>i. on_world (pCharsPerMonth P i)), pMeter = (\<lambda>u. in_world (pMeter P u)),
     pWorker = (\<lambda>c q. on_world (pWorker P c q)), pNow = of_world (pNow P), pSleep = on_world (pSleep P), pCancelled = (\<lambda>s. pCancelled P (wi_world s)),
     pHeader = httpSink_Header conn, pChunk = httpSink_Chunk conn, pAcquire = (\<lambda>t n. on_world (pAcquire P t n)),
     pRenew = (\<lambda>l. on_world (pRenew P l)), pReleaseLease = (\<lambda>l. in_world (pReleaseLease P l)), pSha256 = pSha256 P\<rparr>"

definition mapStreamError :: "(synth_error \<Rightarrow> string) \<Rightarrow> synth_error \<Rightarrow> http_error" where
  "mapStreamError text_of e =
    (if errors_Is e ErrConcurrencyLimited then NewError CodeConcurrencyLimited ''too many concurrent streams for this plan'' else mapSynthError text_of e)"

definition StreamCacheHeader :: "StreamResult \<Rightarrow> string" where
  "StreamCacheHeader result = (if st_CacheHit result then ''HIT'' else ''MISS'')"

text \<open>Taking over the connection for a stream and giving it back.\<close>

definition open_wire :: "('v service, document) exchange \<Rightarrow> 'v wire service" where
  "open_wire x = \<lparr>ss_world = \<lparr>wi_world = ss_world (x_world x), wi_writer = x_writer x, wi_started = False, wi_writes = 0\<rparr>,
     ss_quotaBreak = ss_quotaBreak (x_world x), ss_log = ss_log (x_world x)\<rparr>"

definition close_wire :: "'v wire service \<Rightarrow> ('v service, document) exchange" where
  "close_wire s = \<lparr>x_writer = wi_writer (ss_world s),
     x_world = \<lparr>ss_world = wi_world (ss_world s), ss_quotaBreak = ss_quotaBreak s, ss_log = ss_log s\<rparr>\<rparr>"

definition run_stream :: "(synth_error \<Rightarrow> string) \<Rightarrow> (nat \<Rightarrow> bool) \<Rightarrow> 'v ports \<Rightarrow> Request \<Rightarrow> string \<Rightarrow> int \<Rightarrow> ('v service, document) handler" where
  "run_stream text_of conn P req planID streamLimit r x =
    (let (res, s) = Stream (sink_ports conn P) req planID streamLimit (open_wire x)
     in case res of
          Inl e \<Rightarrow> if wi_started (ss_world s) then close_wire s else problem r (mapStreamError text_of e) (close_wire s)
        | Inr _ \<Rightarrow> close_wire s)"

definition SynthesizeStream :: "(string \<Rightarrow> synthesizeRequest option) \<Rightarrow> (synth_error \<Rightarrow> string) \<Rightarrow> (nat \<Rightarrow> bool) \<Rightarrow> (string \<Rightarrow> ('v, db_error, int) op)
    \<Rightarrow> 'v ports \<Rightarrow> ('v service, document) handler" where
  "SynthesizeStream decode text_of conn limits P r x =
    (case hr_identity r of
       None \<Rightarrow> missing_key r x
     | Some identity \<Rightarrow>
         (case decode (take maxSynthesizeBody (hr_Body r)) of
            None \<Rightarrow> problem r (NewError CodeInvalidRequest ''body must match SynthesizeRequest'') x
          | Some body \<Rightarrow>
              calling (port (limits (id_PlanID identity))) (\<lambda>_. problem r (bare_error CodeInternal))
                (\<lambda>streamLimit. run_stream text_of conn P (toUseCase body (id_TenantID identity) (id_KeyID identity) (hr_requestID r))
                   (id_PlanID identity) streamLimit r) x))"

section \<open>Jobs (\<^verbatim>\<open>jobs.go\<close>)\<close>

definition HeaderIdempotencyKey :: string where "HeaderIdempotencyKey = ''Idempotency-Key''"

definition maxJobBody :: nat where "maxJobBody = 2 ^ 20"

record jobCreateRequest =
  jb_Text :: string
  jb_Voice :: string
  jb_Format :: string
  jb_SampleRate :: int
  jb_Normalize :: "bool option"
  jb_Params :: "synthesisParams option"
  jb_WebhookURL :: string
  jb_Metadata :: metadata

fun mapJobError :: "(job_error \<Rightarrow> string) \<Rightarrow> job_error \<Rightarrow> http_error" where
  "mapJobError text_of ErrNotFound = NewError CodeJobNotFound ''no such job''"
| "mapJobError text_of ErrIdempotencyConflict = NewError CodeIdempotencyConflict ''this Idempotency-Key was used with a different body''"
| "mapJobError text_of Jobs.ErrTextTooLong = NewError CodeTextTooLong (text_of Jobs.ErrTextTooLong)"
| "mapJobError text_of ErrPlanLimit = NewError CodeTextTooLong (text_of ErrPlanLimit)"
| "mapJobError text_of ErrWebhookRejected = \<lparr>e_Code = CodeInvalidRequest, e_Status = 422, e_Title = ''Webhook URL rejected'',
     e_Detail = text_of ErrWebhookRejected, e_RetryAfter = 0\<rparr>"
| "mapJobError text_of Jobs.ErrInvalidRequest = NewError CodeInvalidRequest (text_of Jobs.ErrInvalidRequest)"
| "mapJobError text_of _ = bare_error CodeInternal"

definition toJobDTO :: "(uuid \<Rightarrow> string) \<Rightarrow> (string \<Rightarrow> int \<Rightarrow> job_error + string) \<Rightarrow> Job \<Rightarrow> jobDTO" where
  "toJobDTO us sign job = \<lparr>dj_ID = us (j_ID job), dj_Status = status_text (j_Status job), dj_Voice = j_VoiceID job, dj_Format = j_Format job,
     dj_SampleRate = j_SampleRate job, dj_TotalChars = j_TotalChars job, dj_SegmentsTotal = j_SegmentsTotal job, dj_SegmentsDone = j_SegmentsDone job,
     dj_DurationMS = j_DurationMS job, dj_OutputURL = (case OutputURL sign job of Inr url \<Rightarrow> url | Inl _ \<Rightarrow> []), dj_Error = j_Error job,
     dj_Metadata = PublicMetadata (j_Metadata job), dj_CreatedAt = j_CreatedAt job, dj_CompletedAt = j_CompletedAt job\<rparr>"

definition job_request :: "http_request \<Rightarrow> Identity \<Rightarrow> jobCreateRequest \<Rightarrow> job_Request" where
  "job_request r identity body = \<lparr>q_TenantID = id_TenantID identity, q_KeyID = id_KeyID identity,
     q_IdempotencyKey = hr_Header r HeaderIdempotencyKey, q_Text = jb_Text body,
     q_VoiceID = (if jb_Voice body = [] then defaultVoice else jb_Voice body), q_Format = jb_Format body, q_SampleRate = jb_SampleRate body,
     q_Normalize = or_else (jb_Normalize body) True, q_Params = toCacheParams (jb_Params body) (jb_SampleRate body),
     q_WebhookURL = jb_WebhookURL body, q_Metadata = jb_Metadata body\<rparr>"

definition CreateJob_handler :: "(uuid \<Rightarrow> string) \<Rightarrow> (string \<Rightarrow> int \<Rightarrow> job_error + string) \<Rightarrow> (string \<Rightarrow> jobCreateRequest option) \<Rightarrow> (job_error \<Rightarrow> string)
    \<Rightarrow> (job_Request \<Rightarrow> int \<Rightarrow> ('w, job_error, Created) op) \<Rightarrow> (string \<Rightarrow> ('w, db_error, int) op) \<Rightarrow> ('w, document) handler" where
  "CreateJob_handler us sign decode text_of create limits r x =
    (case hr_identity r of
       None \<Rightarrow> missing_key r x
     | Some identity \<Rightarrow>
         (case decode (take maxJobBody (hr_Body r)) of
            None \<Rightarrow> problem r (NewError CodeInvalidRequest ''body must match JobCreateRequest'') x
          | Some body \<Rightarrow>
              calling (limits (id_PlanID identity)) (\<lambda>_. problem r (bare_error CodeInternal))
                (\<lambda>maxJobChars. calling (create (job_request r identity body) maxJobChars) (\<lambda>e. problem r (mapJobError text_of e))
                   (\<lambda>created. writeJSON 202 (JobDoc (toJobDTO us sign (cr_Job created))))) x))"

definition with_job :: "(string \<Rightarrow> uuid option) \<Rightarrow> (Identity \<Rightarrow> uuid \<Rightarrow> ('w, 'd) exchange \<Rightarrow> ('w, 'd) exchange) \<Rightarrow> ('w, 'd) handler" where
  "with_job parse_uuid k r x =
    (case hr_identity r of
       None \<Rightarrow> missing_key r x
     | Some identity \<Rightarrow> (case parse_uuid (hr_Param r ''jobId'') of
         None \<Rightarrow> problem r (NewError CodeJobNotFound ''no such job'') x
       | Some jobID \<Rightarrow> k identity jobID x))"

definition job_reply :: "(uuid \<Rightarrow> string) \<Rightarrow> (string \<Rightarrow> int \<Rightarrow> job_error + string) \<Rightarrow> (job_error \<Rightarrow> string) \<Rightarrow> ('w, job_error, Job) op
    \<Rightarrow> ('w, document) handler" where
  "job_reply us sign text_of m r = calling m (\<lambda>e. problem r (mapJobError text_of e)) (\<lambda>job. writeJSON 200 (JobDoc (toJobDTO us sign job)))"

definition GetJob_handler :: "(uuid \<Rightarrow> string) \<Rightarrow> (string \<Rightarrow> int \<Rightarrow> job_error + string) \<Rightarrow> (string \<Rightarrow> uuid option) \<Rightarrow> (job_error \<Rightarrow> string)
    \<Rightarrow> (uuid \<Rightarrow> uuid \<Rightarrow> ('w, job_error, Job) op) \<Rightarrow> ('w, document) handler" where
  "GetJob_handler us sign parse_uuid text_of get r =
    with_job parse_uuid (\<lambda>identity jobID. job_reply us sign text_of (get (id_TenantID identity) jobID) r) r"

definition CancelJob_handler :: "(uuid \<Rightarrow> string) \<Rightarrow> (string \<Rightarrow> int \<Rightarrow> job_error + string) \<Rightarrow> (string \<Rightarrow> uuid option) \<Rightarrow> (job_error \<Rightarrow> string)
    \<Rightarrow> (uuid \<Rightarrow> uuid \<Rightarrow> ('w, job_error, Job) op) \<Rightarrow> ('w, document) handler" where
  "CancelJob_handler us sign parse_uuid text_of cancel r =
    with_job parse_uuid (\<lambda>identity jobID. job_reply us sign text_of (cancel (id_TenantID identity) jobID) r) r"

text \<open>The query parameters of a listing; \<open>parse_time\<close> is \<^verbatim>\<open>time.Parse(time.RFC3339, _)\<close>.\<close>

definition list_before :: "(string \<Rightarrow> int option) \<Rightarrow> string \<Rightarrow> http_error + int option" where
  "list_before parse_time raw = (if raw = [] then Inr None else case parse_time raw of
     None \<Rightarrow> Inl (NewError CodeInvalidRequest ''before must be an RFC 3339 timestamp'') | Some t \<Rightarrow> Inr (Some t))"

definition list_limit :: "string \<Rightarrow> http_error + int" where
  "list_limit raw = (if raw = [] then Inr 0 else case ParseInt 32 raw of
     None \<Rightarrow> Inl (NewError CodeInvalidRequest ''limit must be a positive integer'')
   | Some n \<Rightarrow> if n < 1 then Inl (NewError CodeInvalidRequest ''limit must be a positive integer'') else Inr n)"

definition ListJobs_handler :: "(uuid \<Rightarrow> string) \<Rightarrow> (string \<Rightarrow> int \<Rightarrow> job_error + string) \<Rightarrow> (string \<Rightarrow> int option) \<Rightarrow> (job_error \<Rightarrow> string)
    \<Rightarrow> (uuid \<Rightarrow> int option \<Rightarrow> int \<Rightarrow> ('w, job_error, Job list) op) \<Rightarrow> ('w, document) handler" where
  "ListJobs_handler us sign parse_time text_of list_jobs r x =
    (case hr_identity r of
       None \<Rightarrow> missing_key r x
     | Some identity \<Rightarrow>
         (case list_before parse_time (hr_Query r ''before'') of
            Inl e \<Rightarrow> problem r e x
          | Inr before \<Rightarrow>
              (case list_limit (hr_Query r ''limit'') of
                 Inl e \<Rightarrow> problem r e x
               | Inr limit \<Rightarrow> calling (list_jobs (id_TenantID identity) before limit) (\<lambda>e. problem r (mapJobError text_of e))
                   (\<lambda>found. writeJSON 200 (JobsDoc (map (toJobDTO us sign) found))) x)))"

section \<open>Keys (\<^verbatim>\<open>keys.go\<close>)\<close>

definition maxKeyBody :: nat where "maxKeyBody = 8 * 2 ^ 10"

record createKeyRequest =
  kb_Name :: string
  kb_Scopes :: "string list"

fun mapKeyError :: "(auth_error \<Rightarrow> string) \<Rightarrow> auth_error \<Rightarrow> http_error" where
  "mapKeyError text_of ErrKeyNotFound = NewError CodeJobNotFound ''no such key''"
| "mapKeyError text_of ErrInvalidKeyRequest = NewError CodeInvalidRequest (text_of ErrInvalidKeyRequest)"
| "mapKeyError text_of _ = bare_error CodeInternal"

definition toKeyDTO :: "(uuid \<Rightarrow> string) \<Rightarrow> ApiKey \<Rightarrow> keyRecordDTO" where
  "toKeyDTO us k = \<lparr>dk_ID = us (k_id k), dk_Name = k_name k, dk_Prefix = k_prefix k, dk_Scopes = k_scopes k, dk_CreatedAt = k_created_at k,
     dk_LastUsedAt = k_last_used_at k, dk_RevokedAt = k_revoked_at k, dk_Secret = []\<rparr>"

definition CreateKey :: "(uuid \<Rightarrow> string) \<Rightarrow> (string \<Rightarrow> createKeyRequest option) \<Rightarrow> (auth_error \<Rightarrow> string)
    \<Rightarrow> (Identity \<Rightarrow> string \<Rightarrow> string list \<Rightarrow> ('w, auth_error, ApiKey \<times> string) op) \<Rightarrow> ('w, document) handler" where
  "CreateKey us decode text_of create r x =
    (case hr_identity r of
       None \<Rightarrow> missing_key r x
     | Some identity \<Rightarrow>
         (case decode (take maxKeyBody (hr_Body r)) of
            None \<Rightarrow> problem r (NewError CodeInvalidRequest ''body must be {name, scopes}'') x
          | Some body \<Rightarrow> calling (create identity (kb_Name body) (kb_Scopes body)) (\<lambda>e. problem r (mapKeyError text_of e))
              (\<lambda>(record, secret). writeJSON 201 (KeyDoc ((toKeyDTO us record)\<lparr>dk_Secret := secret\<rparr>))) x))"

definition ListKeys :: "(uuid \<Rightarrow> string) \<Rightarrow> (auth_error \<Rightarrow> string) \<Rightarrow> (uuid \<Rightarrow> bool \<Rightarrow> ('w, auth_error, ApiKey list) op) \<Rightarrow> ('w, document) handler" where
  "ListKeys us text_of list_keys r x =
    (case hr_identity r of
       None \<Rightarrow> missing_key r x
     | Some identity \<Rightarrow> calling (list_keys (id_TenantID identity) (hr_Query r ''include_revoked'' = ''true'')) (\<lambda>e. problem r (mapKeyError text_of e))
         (\<lambda>records. writeJSON 200 (KeysDoc (map (toKeyDTO us) records))) x)"

definition RevokeKey :: "(string \<Rightarrow> uuid option) \<Rightarrow> (auth_error \<Rightarrow> string) \<Rightarrow> (Identity \<Rightarrow> uuid \<Rightarrow> ('w, auth_error, unit) op) \<Rightarrow> ('w, document) handler" where
  "RevokeKey parse_uuid text_of revoke r x =
    (case hr_identity r of
       None \<Rightarrow> missing_key r x
     | Some identity \<Rightarrow>
         (case parse_uuid (hr_Param r ''keyId'') of
            None \<Rightarrow> problem r (NewError CodeJobNotFound ''no such key'') x
          | Some keyID \<Rightarrow> calling (revoke identity keyID) (\<lambda>e. problem r (mapKeyError text_of e)) (\<lambda>_. writing (WriteHeader_status 204)) x))"

section \<open>Tenants (\<^verbatim>\<open>admin_handlers.go\<close>)\<close>

definition maxAdminBody :: nat where "maxAdminBody = 16 * 2 ^ 10"

definition adminActor :: string where "adminActor = ''admin''"

record createTenantRequest =
  tb_Name :: string
  tb_PlanID :: string

fun mapTenantError :: "(tenant_error \<Rightarrow> string) \<Rightarrow> tenant_error \<Rightarrow> http_error" where
  "mapTenantError text_of ErrInvalidInput = NewError CodeInvalidRequest (text_of ErrInvalidInput)"
| "mapTenantError text_of (ErrUnknownPlan p) = NewError CodeInvalidRequest ''unknown plan_id''"
| "mapTenantError text_of _ = bare_error CodeInternal"

fun tenant_status_text :: "tenant_status \<Rightarrow> string" where
  "tenant_status_text Active_tenant = ''active''"
| "tenant_status_text Suspended = ''suspended''"
| "tenant_status_text Deleted = ''deleted''"

definition createTenant_handler :: "(uuid \<Rightarrow> string) \<Rightarrow> (string \<Rightarrow> createTenantRequest option) \<Rightarrow> (tenant_error \<Rightarrow> string)
    \<Rightarrow> (string \<Rightarrow> string \<Rightarrow> string \<Rightarrow> ('w, tenant_error, TenantRow \<times> ApiKey \<times> string) op) \<Rightarrow> ('w, document) handler" where
  "createTenant_handler us decode text_of create r x =
    (case decode (take maxAdminBody (hr_Body r)) of
       None \<Rightarrow> problem r (NewError CodeInvalidRequest ''body must be a JSON object'') x
     | Some req \<Rightarrow> calling (create (tb_Name req) (tb_PlanID req) adminActor) (\<lambda>e. problem r (mapTenantError text_of e))
         (\<lambda>(tenant, key, secret). writeJSON 201 (TenantDoc
            \<lparr>ct_Tenant = \<lparr>dt_ID = us (t_id tenant), dt_Name = t_name tenant, dt_PlanID = t_plan_id tenant, dt_Status = tenant_status_text (t_status tenant)\<rparr>,
             ct_Key = \<lparr>dn_ID = us (k_id key), dn_Prefix = k_prefix key, dn_Scopes = k_scopes key, dn_Secret = secret\<rparr>\<rparr>)) x)"

text \<open>The operator surface: its one route behind the guard.\<close>

definition AdminRoutes :: "(('w, document) handler \<Rightarrow> ('w, document) handler) \<Rightarrow> ('w, document) handler \<Rightarrow> (string \<times> string \<times> ('w, document) handler) list" where
  "AdminRoutes guard createTenant = [(''POST'', ''/v1/tenants'', guard createTenant)]"

section \<open>Usage (\<^verbatim>\<open>usage.go\<close>)\<close>

definition defaultUsageWindow :: int where "defaultUsageWindow = 30 * 24 * 3600 * 10 ^ 9"

text \<open>\<open>parse_date\<close> is \<^verbatim>\<open>time.Parse(time.DateOnly, _)\<close>, \<open>now\<close> the clock.\<close>

definition usage_date :: "(string \<Rightarrow> int option) \<Rightarrow> string \<Rightarrow> string \<Rightarrow> int \<Rightarrow> http_error + int" where
  "usage_date parse_date name raw fallback = (if raw = [] then Inr fallback else case parse_date raw of
     None \<Rightarrow> Inl (NewError CodeInvalidRequest (name @ '' must be YYYY-MM-DD'')) | Some t \<Rightarrow> Inr t)"

definition usage_problem :: "usage_error \<Rightarrow> http_error" where
  "usage_problem e = (case e of ErrInvalidRange reason \<Rightarrow> NewError CodeInvalidRequest reason | UsageFailed \<Rightarrow> bare_error CodeInternal)"

definition write_usage :: "http_request \<Rightarrow> Report \<Rightarrow> ('w, document) exchange \<Rightarrow> ('w, document) exchange" where
  "write_usage r report =
    (if hr_Query r ''format'' = ''csv''
     then writing (\<lambda>w. Write_body (Body (CsvDoc (WriteCSV report))) (WriteHeader_status 200
       (Header_Set ''Content-Disposition'' ''attachment; filename=\"usage.csv\"'' (Header_Set HeaderContentType ''text/csv; charset=utf-8'' w))))
     else writeJSON 200 (UsageDoc report))"

definition GetUsage :: "(string \<Rightarrow> int option) \<Rightarrow> int \<Rightarrow> (uuid \<Rightarrow> int \<Rightarrow> int \<Rightarrow> int \<Rightarrow> ('w, usage_error, Report) op) \<Rightarrow> (string \<Rightarrow> ('w, db_error, int) op)
    \<Rightarrow> ('w, document) handler" where
  "GetUsage parse_date now build limits r x =
    (case hr_identity r of
       None \<Rightarrow> missing_key r x
     | Some identity \<Rightarrow>
         (case usage_date parse_date ''from'' (hr_Query r ''from'') (now - defaultUsageWindow) of
            Inl e \<Rightarrow> problem r e x
          | Inr from \<Rightarrow>
              (case usage_date parse_date ''to'' (hr_Query r ''to'') now of
                 Inl e \<Rightarrow> problem r e x
               | Inr till \<Rightarrow>
                   calling (limits (id_PlanID identity)) (\<lambda>_. problem r (bare_error CodeInternal))
                     (\<lambda>planLimit. calling (build (id_TenantID identity) from till planLimit) (\<lambda>e. problem r (usage_problem e)) (write_usage r)) x)))"

section \<open>Voices (\<^verbatim>\<open>voices.go\<close>) and health (\<^verbatim>\<open>health.go\<close>)\<close>

definition voice_dto :: "Voice \<Rightarrow> voiceDTO" where
  "voice_dto v = \<lparr>dv_ID = v_ID v, dv_DisplayName = v_DisplayName v, dv_Gender = v_Gender v, dv_Tags = v_Tags v,
     dv_ModelVersion = v_ModelVersion v, dv_PreviewURL = v_PreviewURL v\<rparr>"

definition ListVoices :: "(uuid option \<Rightarrow> ('w, voice_error, Voice list) op) \<Rightarrow> ('w, document) handler" where
  "ListVoices list_voices r =
    calling (list_voices (map_option id_TenantID (hr_identity r))) (\<lambda>_. problem r (bare_error CodeInternal))
      (\<lambda>found. writeJSON 200 (VoicesDoc (map voice_dto found)))"

definition Healthz :: "('w, document) handler" where
  "Healthz r = writeJSON 200 HealthDoc"

definition Readyz :: "('w \<Rightarrow> (string \<times> bool) list) \<Rightarrow> ('w, document) handler" where
  "Readyz finished r x = (let status = Evaluate (finished (x_world x)) in writeJSON (readyz_code status) (ReadyDoc status) x)"

section \<open>Lemmas\<close>

lemma mapSynthError_status: "e_Status (mapSynthError text_of e) = 0 \<or> e_Status (mapSynthError text_of e) = fst (statusFor (e_Code (mapSynthError text_of e)))"
  by (simp add: mapSynthError_def overloadProblem_def NewError_def bare_error_def Let_def split: option.split)

lemma mapSynthError_code: "e_Code (mapSynthError text_of e) \<in> {CodeTextTooLong, CodeUnknownVoice, CodeInvalidRequest, CodeQuotaExceeded, CodeOverloaded, CodeInternal}"
  by (simp add: mapSynthError_def overloadProblem_def NewError_def bare_error_def Let_def split: option.split)

lemma mapStreamError_status: "e_Status (mapStreamError text_of e) = 0 \<or> e_Status (mapStreamError text_of e) = fst (statusFor (e_Code (mapStreamError text_of e)))"
  using mapSynthError_status [of text_of e] by (simp add: mapStreamError_def NewError_def)

lemma mapStreamError_code: "e_Code (mapStreamError text_of e)
    \<in> {CodeConcurrencyLimited, CodeTextTooLong, CodeUnknownVoice, CodeInvalidRequest, CodeQuotaExceeded, CodeOverloaded, CodeInternal}"
  using mapSynthError_code [of text_of e] by (auto simp: mapStreamError_def NewError_def)

text \<open>The whole contract a use case gets from a body: omitted fields are the defaults.\<close>

lemma toUseCase_simps [simp]:
  "rq_TenantID (toUseCase b t k i) = t" "Chars (toUseCase b t k i) = rune_len (sb_Text b)" "rq_SampleRate (toUseCase b t k i) = sb_SampleRate b"
  "rq_Text (toUseCase b t k i) = sb_Text b"
  by (simp_all add: toUseCase_def Chars_def)

lemma Validate_result:
  assumes "Validate r = Inr r'"
  shows "rq_TenantID r' = rq_TenantID r" "Chars r' = Chars r" "rq_Format r' = ''wav''" "rq_SampleRate r' = (if rq_SampleRate r = 0 then 48000 else rq_SampleRate r)"
  using assms by (auto simp: Validate_def Let_def Chars_def FormatWAV_def FormatMP3_def FormatOggOpus_def split: if_splits)

lemma Validate_too_long: "3000 < rune_len (rq_Text r) \<Longrightarrow> \<exists>e. Validate r = Inl e \<and> errors_Is e Synth.ErrTextTooLong"
  by (simp add: Validate_def MinTextChars_def MaxTextChars_def errors_Is_def wrapping_def)

lemma writeAudio_world [simp]: "x_world (writeAudio res x) = x_world x"
  by (simp add: writeAudio_def)

lemma writeAudio_answers:
  assumes "unsent x"
  shows "\<exists>h. rw_sent (x_writer (writeAudio res x)) = Some (200, h) \<and> rw_body (x_writer (writeAudio res x)) = [Body (AudioDoc (rs_Audio res))]
    \<and> h HeaderContentType = Some (contentType (rs_Format res)) \<and> h ''Content-Length'' = Some (Itoa (int (length (rs_Audio res))))
    \<and> h HeaderCache = Some (if rs_CacheHit res then ''HIT'' else ''MISS'') \<and> h HeaderAudioDuration = Some (Itoa (rs_DurationMS res))
    \<and> h HeaderCharsBilled = Some (Itoa (rs_CharsBilled res))"
  using assms
  by (auto simp: writeAudio_def writing_def response_simps unsent_def HeaderContentType_def HeaderCache_def HeaderAudioDuration_def HeaderCharsBilled_def)

section \<open>What a stream writes\<close>

text \<open>
  The order of the writes of a stream: one header at the rate of the request, then audio. \<open>wire_run\<close>
  follows the events with whether the header went out.
\<close>

fun wire_run :: "int \<Rightarrow> bool \<Rightarrow> event list \<Rightarrow> bool option" where
  "wire_run rate st [] = Some st"
| "wire_run rate st (HeaderSent r # evs) = (if st \<or> r \<noteq> rate then None else wire_run rate True evs)"
| "wire_run rate st (Sent b # evs) = (if st then wire_run rate True evs else None)"
| "wire_run rate st (ev # evs) = wire_run rate st evs"

lemma wire_run_append: "wire_run rate st (xs @ ys) = Option.bind (wire_run rate st xs) (\<lambda>st'. wire_run rate st' ys)"
  by (induction rate st xs rule: wire_run.induct) auto

definition silent :: "event list \<Rightarrow> bool" where
  "silent evs \<longleftrightarrow> (\<forall>rate st. wire_run rate st evs = Some st)"

lemma silent_simps [simp]: "silent []" "silent xs \<Longrightarrow> wire_run rate st (xs @ ys) = wire_run rate st ys" "silent xs \<Longrightarrow> wire_run rate st xs = Some st"
  by (simp_all add: silent_def wire_run_append)

definition in_turn :: "int \<Rightarrow> bool \<Rightarrow> event list \<Rightarrow> bool" where
  "in_turn rate st evs \<longleftrightarrow> (case wire_run rate st evs of None \<Rightarrow> False | Some _ \<Rightarrow> True)"

lemma in_turn_append: "in_turn rate st (xs @ ys) \<longleftrightarrow> (case wire_run rate st xs of None \<Rightarrow> False | Some st' \<Rightarrow> in_turn rate st' ys)"
  by (simp add: in_turn_def wire_run_append split: option.split)

lemma in_turn_simps [simp]: "silent evs \<Longrightarrow> in_turn rate st evs" "silent ys \<Longrightarrow> in_turn rate st (xs @ ys) = in_turn rate st xs"
  "silent xs \<Longrightarrow> in_turn rate st (xs @ ys) = in_turn rate st ys" "in_turn rate st []" "wire_run rate st evs = Some st' \<Longrightarrow> in_turn rate st evs"
  "in_turn rate st (HeaderSent r # evs) = (\<not> st \<and> r = rate \<and> in_turn rate True evs)" "in_turn rate st (Sent b # evs) = (st \<and> in_turn rate True evs)"
  "in_turn rate st (LeaseTaken l # evs) = in_turn rate st evs" "in_turn rate st (LeaseReleased l # evs) = in_turn rate st evs"
  "in_turn rate st (Slot res # evs) = in_turn rate st evs" "in_turn rate st (SlotFreed res # evs) = in_turn rate st evs"
  "in_turn rate st (Charged n m # evs) = in_turn rate st evs" "in_turn rate st (Metered u # evs) = in_turn rate st evs"
  "in_turn rate st (Stored k b # evs) = in_turn rate st evs" "in_turn rate st (Received fs # evs) = in_turn rate st evs"
  by (simp_all add: in_turn_def wire_run_append split: option.split)

lemma silent_events [simp]: "silent [LeaseReleased l]" "silent [SlotFreed r]" "silent [Metered u]" "silent [Charged n m, Metered u]"
  by (simp_all add: silent_def)

lemma does_open_stream_silent: "does (open_stream_loop P req voice n e) (\<lambda>r evs. silent evs)"
proof (induction n arbitrary: e)
  case (Suc n)
  then show ?case by (auto intro!: does_intros elim!: does_weaken split: sum.split simp: silent_def)
qed (simp add: does_intros)

lemma does_send_frame_wire:
  "does (send_frame P req key voice started p t) (\<lambda>r evs. \<exists>st. wire_run (rq_SampleRate req) (te_headerWritten t) evs = Some st
     \<and> (\<forall>t'. r = Inr (Inr t') \<longrightarrow> st = te_headerWritten t'))"
  unfolding send_frame_def
  by (intro does_intros) (auto intro!: does_intros simp: Let_def split: sum.split, blast+)

lemma does_recv_failed_silent: "does (bindE (recv_failed P req key voice teed ttfa e) (\<lambda>result. returnE (Inl result))) (\<lambda>r evs. silent evs)"
  unfolding recv_failed_def
  by (intro does_intros) (auto intro!: does_intros simp: Let_def empty_result_def silent_def split: sum.split)

lemma does_stream_loop_wire:
  "does (stream_loop P req key voice lease started frames prev lastRenew t) (\<lambda>r evs. in_turn (rq_SampleRate req) (te_headerWritten t) evs)"
proof (induction P req key voice lease started frames prev lastRenew t rule: stream_loop.induct)
  case (1 P req key voice lease started prev lastRenew t)
  then show ?case by (auto intro: does_weaken [OF does_recv_failed_silent])
next
  case (3 P req key voice lease started e rest prev lastRenew t)
  then show ?case by (auto intro: does_weaken [OF does_recv_failed_silent])
next
  case (4 P req key voice lease started sq p fin rest prev lastRenew t)
  show ?case
  proof (cases "prev \<noteq> None \<and> sq \<noteq> the prev + 1")
    case False
    have more: "does (stream_loop P req key voice lease started rest (Some sq) l t')
        (\<lambda>r ys. in_turn (rq_SampleRate req) (te_headerWritten t) (xs @ ys))"
      if "wire_run (rq_SampleRate req) (te_headerWritten t) xs = Some (te_headerWritten t')" "\<not> fin" for t' l xs
      using "4.IH" [OF False that(2)] by (rule does_weaken) (simp add: in_turn_append that)
    show ?thesis unfolding stream_loop.simps if_not_P [OF False]
      by (rule does_bindE, rule does_weaken, rule does_send_frame_wire)
        (auto intro!: does_intros more split: sum.split)
  qed (auto intro!: does_intros)
qed (auto intro!: does_intros)

lemma does_complete_silent: "does (complete_stream P req key voice t) (\<lambda>r evs. silent evs)"
  unfolding complete_stream_def by (auto intro!: does_intros simp: Let_def silent_def split: sum.split)

lemma does_streamFromWorker_wire: "does (streamFromWorker P req key voice lease) (\<lambda>r evs. in_turn (rq_SampleRate req) False evs)"
proof -
  have loop: "does (stream_loop P req key voice lease started frames None l \<lparr>te_teed = [], te_ttfaMS = 0, te_headerWritten = False\<rparr>)
      (\<lambda>r evs. in_turn (rq_SampleRate req) False evs)" for started frames l
    using does_stream_loop_wire [of P req key voice lease started frames None l "\<lparr>te_teed = [], te_ttfaMS = 0, te_headerWritten = False\<rparr>"] by simp
  have body: "does (bindE (ask (pNow P)) (\<lambda>lastRenew.
     bindE (stream_loop P req key voice lease started frames None lastRenew \<lparr>te_teed = [], te_ttfaMS = 0, te_headerWritten = False\<rparr>) (\<lambda>out.
       case out of Inl result \<Rightarrow> returnE result | Inr t \<Rightarrow> complete_stream P req key voice t)))
      (\<lambda>r evs. in_turn (rq_SampleRate req) False evs)" for started frames
    by (intro does_intros, simp, rule does_bindE, rule does_weaken, rule loop) (auto intro!: does_intros does_weaken [OF does_complete_silent] split: sum.split)
  note run = does_finallyE [OF does_weaken [OF body]]
  show ?thesis unfolding streamFromWorker_def openStream_def
    by (rule does_bindE, rule does_weaken, rule does_open_stream_silent)
      (auto intro!: run does_free_slot split: sum.split)
qed

lemma does_replay_wire: "does (replay P reads) (\<lambda>r evs. wire_run rate True evs = Some True)"
proof (induction P reads rule: replay.induct)
  case (2 P b st rest)
  then show ?case by (auto intro!: does_intros elim!: does_weaken simp: Let_def split: sum.split)
qed (auto intro!: does_intros)

lemma does_streamFromCache_wire:
  "does (streamFromCache P req key) (\<lambda>r evs. in_turn (rq_SampleRate req) False evs \<and> (r = Inr None \<longrightarrow> evs = []))"
  unfolding streamFromCache_def
  by (intro does_intros) (auto intro!: does_intros does_bindE [OF does_weaken [OF does_replay_wire [where rate = "rq_SampleRate req"]]]
      split: sum.split)

lemma does_Stream_wire:
  assumes "Validate req0 = Inr req"
  shows "does (Stream P req0 planID limit) (\<lambda>r evs. in_turn (rq_SampleRate req) False evs)"
proof -
  have meter: "does (seqE (meterStream P req key voice result status) (returnE result)) (\<lambda>r ys. in_turn rate st (xs @ ys))"
    if "in_turn rate st xs" for key voice result status rate st xs
    using that by (auto intro!: does_intros split: sum.split)
  have inner: "does (bindE (streamFromCache P req key) (\<lambda>hit. case hit of
        Some result \<Rightarrow> seqE (meterStream P req key voice result (if st_Cancelled result then ''client_cancelled'' else ''ok'')) (returnE result)
      | None \<Rightarrow> streamFromWorker P req key voice lease)) (\<lambda>r evs. in_turn (rq_SampleRate req) False evs)" for key voice lease
    by (rule does_bindE, rule does_weaken, rule does_streamFromCache_wire)
      (auto intro!: meter does_streamFromWorker_wire split: sum.split option.split)
  show ?thesis unfolding Stream_def assms sum.case Let_def
    by (auto intro!: does_intros does_finallyE does_weaken [OF inner] simp: release_lease_def split: sum.split option.split)
qed

section \<open>What reaches the client\<close>

text \<open>The audio bytes of a response, and those the events of a stream announce.\<close>

fun audio_bytes :: "document payload list \<Rightarrow> byte list" where
  "audio_bytes [] = []"
| "audio_bytes (Body (AudioDoc b) # ps) = b @ audio_bytes ps"
| "audio_bytes (p # ps) = audio_bytes ps"

lemma audio_bytes_append [simp]: "audio_bytes (xs @ ys) = audio_bytes xs @ audio_bytes ys"
  by (induction xs rule: audio_bytes.induct) auto

definition open_header :: "int \<Rightarrow> byte list" where
  "open_header rate = (case wav_header rate UnknownSize of Inl _ \<Rightarrow> [] | Inr h \<Rightarrow> h)"

fun announced :: "event list \<Rightarrow> byte list" where
  "announced [] = []"
| "announced (HeaderSent r # evs) = open_header r @ announced evs"
| "announced (Sent b # evs) = b @ announced evs"
| "announced (ev # evs) = announced evs"

lemma announced_append [simp]: "announced (xs @ ys) = announced xs @ announced ys"
  by (induction xs rule: announced.induct) auto

fun is_header :: "event \<Rightarrow> bool" where
  "is_header (HeaderSent r) = True"
| "is_header ev = False"

lemma in_turn_announced: "in_turn rate True evs \<Longrightarrow> announced evs = sent evs"
  by (induction evs rule: announced.induct) auto

lemma in_turn_delivers:
  "in_turn rate False evs \<Longrightarrow> announced evs = (if list_ex is_header evs then open_header rate @ sent evs else []) \<and> (list_ex is_header evs \<or> sent evs = [])"
  by (induction evs rule: announced.induct) (auto simp: in_turn_announced)

text \<open>No audio before a header; \<open>st\<close> tells whether one was attempted before.\<close>

fun header_first :: "bool \<Rightarrow> event list \<Rightarrow> bool" where
  "header_first st [] = True"
| "header_first st (HeaderSent r # evs) = True"
| "header_first st (Sent b # evs) = (st \<and> header_first st evs)"
| "header_first st (ev # evs) = header_first st evs"

lemma header_first_True [simp]: "header_first True evs"
  by (induction "True" evs rule: header_first.induct) auto

lemma header_first_append: "header_first st (xs @ ys) \<longleftrightarrow> header_first st xs \<and> header_first (st \<or> list_ex is_header xs) ys"
  by (induction st xs rule: header_first.induct) auto

lemma in_turn_header_first: "in_turn rate False evs \<Longrightarrow> header_first False evs"
  by (induction "False" evs rule: header_first.induct) auto

definition head_ok :: "'v wire \<Rightarrow> bool" where
  "head_ok s \<longleftrightarrow> (if wi_started s
     then (\<exists>h. rw_sent (wi_writer s) = Some (200, h) \<and> h HeaderContentType = Some ''audio/wav'') \<and> (\<forall>p \<in> set (rw_body (wi_writer s)). \<exists>b. p = Body (AudioDoc b))
     else rw_sent (wi_writer s) = None \<and> rw_body (wi_writer s) = [])"

text \<open>Every step adds to the response what it adds to the log.\<close>

definition wire_rel :: "'v wire service \<Rightarrow> 'v wire service \<Rightarrow> bool" where
  "wire_rel s s' \<longleftrightarrow> (\<exists>evs. ss_log s' = ss_log s @ evs
     \<and> audio_bytes (rw_body (wi_writer (ss_world s'))) = audio_bytes (rw_body (wi_writer (ss_world s))) @ announced evs
     \<and> (wi_started (ss_world s) \<or> list_ex is_header evs \<longrightarrow> wi_started (ss_world s'))
     \<and> (header_first (wi_started (ss_world s)) evs \<and> head_ok (ss_world s) \<longrightarrow> head_ok (ss_world s')))"

lemma wire_relI:
  assumes "ss_log s' = ss_log s @ evs" "audio_bytes (rw_body (wi_writer (ss_world s'))) = audio_bytes (rw_body (wi_writer (ss_world s))) @ announced evs"
    and "wi_started (ss_world s) \<or> list_ex is_header evs \<longrightarrow> wi_started (ss_world s')"
    and "header_first (wi_started (ss_world s)) evs \<Longrightarrow> head_ok (ss_world s) \<Longrightarrow> head_ok (ss_world s')"
  shows "wire_rel s s'"
  using assms unfolding wire_rel_def by blast

lemma wire_rel_trans:
  assumes "wire_rel s t" and "wire_rel t u"
  shows "wire_rel s u"
proof -
  obtain xs where xs: "ss_log t = ss_log s @ xs" "audio_bytes (rw_body (wi_writer (ss_world t))) = audio_bytes (rw_body (wi_writer (ss_world s))) @ announced xs"
    "wi_started (ss_world s) \<or> list_ex is_header xs \<longrightarrow> wi_started (ss_world t)"
    "header_first (wi_started (ss_world s)) xs \<and> head_ok (ss_world s) \<longrightarrow> head_ok (ss_world t)" using assms(1) unfolding wire_rel_def by blast
  obtain ys where ys: "ss_log u = ss_log t @ ys" "audio_bytes (rw_body (wi_writer (ss_world u))) = audio_bytes (rw_body (wi_writer (ss_world t))) @ announced ys"
    "wi_started (ss_world t) \<or> list_ex is_header ys \<longrightarrow> wi_started (ss_world u)"
    "header_first (wi_started (ss_world t)) ys \<and> head_ok (ss_world t) \<longrightarrow> head_ok (ss_world u)" using assms(2) unfolding wire_rel_def by blast
  have "header_first (wi_started (ss_world t)) ys" if "header_first (wi_started (ss_world s) \<or> list_ex is_header xs) ys"
    using that xs(3) by (cases "wi_started (ss_world t)") auto
  then show ?thesis using xs ys by (intro wire_relI [of _ _ "xs @ ys"]) (auto simp: header_first_append)
qed

interpretation wire: state_order wire_rel
  by unfold_locales (auto intro: wire_rel_trans wire_relI [of _ _ "[]"])

definition silent_event :: "event \<Rightarrow> bool" where
  "silent_event ev \<longleftrightarrow> silent [ev]"

lemma silent_event_simps [simp]: "silent_event (Slot r)" "silent_event (SlotFreed r)" "silent_event (Charged n m)" "silent_event (Metered u)"
  "silent_event (Stored k b)" "silent_event (LeaseTaken l)" "silent_event (LeaseReleased l)" "silent_event (Received fs)"
  by (simp_all add: silent_event_def silent_def)

lemma silent_announced: "silent_event ev \<Longrightarrow> announced [ev] = [] \<and> \<not> is_header ev \<and> header_first st [ev]"
  by (cases ev) (auto simp: silent_event_def silent_def split: if_splits)

named_theorems wire_intros \<open>steps that keep the response in step with the log\<close>

lemma keeps_emit [wire_intros]: "silent_event ev \<Longrightarrow> keeps wire_rel (emit ev)"
  using silent_announced [of ev] by (auto simp: keeps_def emit_def intro!: wire_relI [of _ _ "[ev]"])

lemma keeps_port_world [wire_intros]: "keeps wire_rel (port (on_world m))"
  by (auto simp: keeps_def port_def on_world_def head_ok_def split: prod.split intro!: wire_relI [of _ _ "[]"])

lemma keeps_ask_world [wire_intros]: "keeps wire_rel (ask (of_world f))"
  by (auto simp: keeps_def ask_def of_world_def head_ok_def split: prod.split intro!: wire_relI [of _ _ "[]"])

lemma keeps_ask_read [wire_intros]: "keeps wire_rel (ask (\<lambda>w. (f w, w)))"
  by (auto simp: keeps_def ask_def intro!: wire_relI [of _ _ "[]"])

lemma keeps_act_world [wire_intros]: "keeps wire_rel (act (in_world f))"
  by (auto simp: keeps_def act_def in_world_def head_ok_def intro!: wire_relI [of _ _ "[]"])

lemma keeps_seqE [wire_intros]: "keeps wire_rel m \<Longrightarrow> keeps wire_rel n \<Longrightarrow> keeps wire_rel (seqE m n)"
  by (simp add: seqE_def wire.keeps_bindE)

lemma keeps_finallyE [wire_intros]:
  assumes "keeps wire_rel m" and "keeps wire_rel f"
  shows "keeps wire_rel (finallyE m f)"
  using assms by (auto simp: keeps_def finallyE_def split: prod.split) (metis snd_conv wire_rel_trans)

text \<open>A chunk and the header: the write and its event together.\<close>

lemma keeps_send_chunk [wire_intros]: "keeps wire_rel (send_chunk (sink_ports conn P) b)"
  unfolding keeps_def
proof
  fix s :: "'a wire service"
  let ?w = "ss_world s"
  show "wire_rel s (snd (send_chunk (sink_ports conn P) b s))"
  proof (cases "conn (wi_writes ?w)")
    case True
    then have "snd (send_chunk (sink_ports conn P) b s) = s\<lparr>ss_world := ?w\<lparr>wi_writes := Suc (wi_writes ?w), wi_writer := Write_body (Body (AudioDoc b)) (wi_writer ?w)\<rparr>,
        ss_log := ss_log s @ [Sent b]\<rparr>"
      by (simp add: send_chunk_def sink_ports_def seqE_def port_def httpSink_Chunk_def write_wire_def bindE_def emit_def Let_def)
    then show ?thesis by (auto intro!: wire_relI [of _ _ "[Sent b]"] simp: response_simps head_ok_def)
  next
    case False
    then have "snd (send_chunk (sink_ports conn P) b s) = s\<lparr>ss_world := ?w\<lparr>wi_writes := Suc (wi_writes ?w)\<rparr>\<rparr>"
      by (simp add: send_chunk_def sink_ports_def seqE_def port_def httpSink_Chunk_def write_wire_def bindE_def emit_def Let_def)
    then show ?thesis by (auto intro!: wire_relI [of _ _ "[]"] simp: head_ok_def)
  qed
qed

lemma keeps_send_header [wire_intros]: "keeps wire_rel (send_header (sink_ports conn P) rate)"
  unfolding keeps_def
proof
  fix s :: "'a wire service"
  let ?w = "ss_world s"
  let ?w1 = "?w\<lparr>wi_writer := WriteHeader_status 200 (Header_Set HeaderCache ''MISS'' (Header_Set HeaderContentType ''audio/wav'' (wi_writer ?w))), wi_started := True\<rparr>"
  have step: "head_ok ?w1" if "head_ok ?w"
    using that by (auto simp: head_ok_def response_simps HeaderCache_def HeaderContentType_def split: if_splits)
  note run = send_header_def sink_ports_def seqE_def port_def httpSink_Header_def WriteHeader_def write_wire_def bindE_def wrapE_def emit_def Let_def
  show "wire_rel s (snd (send_header (sink_ports conn P) rate s))"
  proof (cases "wav_header rate UnknownSize")
    case (Inl e)
    then have "snd (send_header (sink_ports conn P) rate s) = s\<lparr>ss_world := ?w1\<rparr>" by (simp add: run)
    then show ?thesis using step by (auto intro!: wire_relI [of _ _ "[]"] simp: response_simps)
  next
    case (Inr h)
    show ?thesis
    proof (cases "conn (wi_writes ?w)")
      case True
      then have "snd (send_header (sink_ports conn P) rate s) = s\<lparr>ss_world := ?w1\<lparr>wi_writes := Suc (wi_writes ?w),
          wi_writer := Write_body (Body (AudioDoc h)) (wi_writer ?w1)\<rparr>, ss_log := ss_log s @ [HeaderSent rate]\<rparr>" by (simp add: run Inr)
      then show ?thesis using step by (auto intro!: wire_relI [of _ _ "[HeaderSent rate]"] simp: response_simps open_header_def Inr head_ok_def)
    next
      case False
      then have "snd (send_header (sink_ports conn P) rate s) = s\<lparr>ss_world := ?w1\<lparr>wi_writes := Suc (wi_writes ?w)\<rparr>\<rparr>" by (simp add: run Inr)
      then show ?thesis using step by (auto intro!: wire_relI [of _ _ "[]"] simp: response_simps head_ok_def)
    qed
  qed
qed

lemma sink_simps:
  "pQuotaCheck (sink_ports conn P) = (\<lambda>t l n. on_world (pQuotaCheck P t l n))" "pQuotaRecord (sink_ports conn P) = (\<lambda>t n. on_world (pQuotaRecord P t n))"
  "pLookup (sink_ports conn P) = (\<lambda>k. on_world (pLookup P k))" "pReads (sink_ports conn P) = (\<lambda>b. of_world (pReads P b))"
  "pStore (sink_ports conn P) = (\<lambda>k en b. on_world (pStore P k en b))" "pReserve (sink_ports conn P) = (\<lambda>c. on_world (pReserve P c))"
  "pFree (sink_ports conn P) = (\<lambda>r. in_world (pFree P r))" "pResolve (sink_ports conn P) = (\<lambda>t i. on_world (pResolve P t i))"
  "pCharsPerMonth (sink_ports conn P) = (\<lambda>i. on_world (pCharsPerMonth P i))" "pMeter (sink_ports conn P) = (\<lambda>u. in_world (pMeter P u))"
  "pWorker (sink_ports conn P) = (\<lambda>c q. on_world (pWorker P c q))" "pNow (sink_ports conn P) = of_world (pNow P)" "pSleep (sink_ports conn P) = on_world (pSleep P)"
  "pAcquire (sink_ports conn P) = (\<lambda>t n. on_world (pAcquire P t n))" "pRenew (sink_ports conn P) = (\<lambda>l. on_world (pRenew P l))"
  "pReleaseLease (sink_ports conn P) = (\<lambda>l. in_world (pReleaseLease P l))" "pHeader (sink_ports conn P) = httpSink_Header conn"
  "pChunk (sink_ports conn P) = httpSink_Chunk conn"
  by (simp_all add: sink_ports_def)

lemmas wire_steps = wire.keeps_returnE wire.keeps_failE wire.keeps_bindE wire.keeps_catchE wire.keeps_wrapE wire.keeps_if wire.keeps_option
  wire.keeps_sum wire.keeps_prod

lemma keeps_service_steps [wire_intros]:
  "keeps wire_rel (since_ms (sink_ports conn P) t)" "keeps wire_rel (resolveVoice (sink_ports conn P) req)" "keeps wire_rel (charge (sink_ports conn P) tn n)"
  "keeps wire_rel (meter_usage (sink_ports conn P) u)" "keeps wire_rel (store_audio (sink_ports conn P) k d b)"
  "keeps wire_rel (reserve (sink_ports conn P) c)" "keeps wire_rel (free_slot (sink_ports conn P) r)"
  "keeps wire_rel (call_worker (sink_ports conn P) req voice cl)" "keeps wire_rel (release_lease (sink_ports conn P) l)"
  unfolding since_ms_def resolveVoice_def charge_def meter_usage_def store_audio_def reserve_def free_slot_def call_worker_def release_lease_def sink_simps
  by (intro wire_intros wire_steps; simp)+

lemma keeps_breaker [wire_intros]: "keeps wire_rel (tolerate (sink_ports conn P))" "keeps wire_rel (quota_decided d)"
proof -
  have "keeps wire_rel (\<lambda>s. let (ok, b) = Tolerate now (ss_quotaBreak s) in (Inr ok, s\<lparr>ss_quotaBreak := b\<rparr>))" for now
    by (auto simp: keeps_def split: prod.split intro!: wire_relI [of _ _ "[]"])
  then show "keeps wire_rel (tolerate (sink_ports conn P))" unfolding tolerate_def sink_simps by (intro wire_intros wire_steps)
  show "keeps wire_rel (quota_decided d)" by (auto simp: keeps_def quota_decided_def Let_def intro!: wire_relI [of _ _ "[]"])
qed

lemma keeps_stream_steps [wire_intros]:
  "keeps wire_rel (checkQuota (sink_ports conn P) req planID)" "keeps wire_rel (meterStream (sink_ports conn P) req key voice result status)"
  "keeps wire_rel (renew_lease (sink_ports conn P) l t)" "keeps wire_rel (receive_first frames)"
  unfolding checkQuota_def meterStream_def renew_lease_def receive_first_def sink_simps by (intro wire_intros wire_steps)+

lemma keeps_frame_steps [wire_intros]:
  "keeps wire_rel (recv_failed (sink_ports conn P) req key voice teed ttfa e)" "keeps wire_rel (send_frame (sink_ports conn P) req key voice started p t)"
  "keeps wire_rel (complete_stream (sink_ports conn P) req key voice t)"
  unfolding recv_failed_def send_frame_def complete_stream_def Let_def by (intro wire_intros wire_steps)+

lemma keeps_stream_loop [wire_intros]: "keeps wire_rel (stream_loop (sink_ports conn P) req key voice lease started frames prev lastRenew t)"
proof (induction "sink_ports conn P" req key voice lease started frames prev lastRenew t rule: stream_loop.induct)
  case (4 req key voice lease started sq p fin rest prev lastRenew t)
  then show ?case unfolding stream_loop.simps by (intro wire_intros wire_steps) auto
qed (simp_all add: wire_intros wire_steps)

lemma keeps_open_stream [wire_intros]: "keeps wire_rel (open_stream_loop (sink_ports conn P) req voice n e)"
  by (induction n arbitrary: e) (simp_all add: sink_simps wire_intros wire_steps)

lemma keeps_replay [wire_intros]: "keeps wire_rel (replay (sink_ports conn P) reads)"
proof (induction reads)
  case (Cons c reads)
  then show ?case by (cases c) (auto simp: Let_def intro!: wire_intros wire_steps)
qed (simp add: wire_intros wire_steps)

lemma keeps_Stream: "keeps wire_rel (Stream (sink_ports conn P) req planID limit)"
proof -
  have cache: "keeps wire_rel (streamFromCache (sink_ports conn P) req key)" for req key
    unfolding streamFromCache_def sink_simps by (intro wire_intros wire_steps)
  have worker: "keeps wire_rel (streamFromWorker (sink_ports conn P) req key voice lease)" for req key voice lease
    unfolding streamFromWorker_def openStream_def by (intro wire_intros wire_steps | simp add: sink_simps)+
  show ?thesis unfolding Stream_def Let_def
    by (intro wire_intros wire_steps cache worker | simp add: sink_simps)+
qed

section \<open>Properties\<close>

text \<open>
  C11: the complete synthesis endpoint announces what it bills (US-08). For an authenticated request with a body that
  decodes, and whatever the ports answer, the client gets exactly one response: either 200 with
  a WAV file at the requested rate, or 48 kHz, its length in \<^verbatim>\<open>Content-Length\<close>, and in \<^verbatim>\<open>X-Chars-Billed\<close> the
  number of characters of the text, which is what its tenant was charged, once, and \<^verbatim>\<open>X-Cache\<close> telling whether the audio
  was newly stored; or one problem document with a code and status of the contract, and then
  nothing was charged or stored, unless the audio did not fit into a WAV file. A text over
  the limit is always answered with \<^verbatim>\<open>text_too_long\<close>.
\<close>

theorem synthesize_endpoint_announces_what_it_bills:
  assumes "unsent x" and "hr_identity r = Some i" and "decode (take maxSynthesizeBody (hr_Body r)) = Some body"
    and "Synthesize_handler decode text_of P r x = x'"
  shows "\<exists>evs. ss_log (x_world x') = ss_log (x_world x) @ evs \<and>
    ((\<exists>h wav pcm. rw_sent (x_writer x') = Some (200, h) \<and> rw_body (x_writer x') = [Body (AudioDoc wav)]
        \<and> is_wav (if sb_SampleRate body = 0 then 48000 else sb_SampleRate body) pcm wav
        \<and> h HeaderContentType = Some ''audio/wav'' \<and> h ''Content-Length'' = Some (Itoa (int (length wav)))
        \<and> h HeaderCharsBilled = Some (Itoa (rune_len (sb_Text body))) \<and> charges evs = [(id_TenantID i, rune_len (sb_Text body))]
        \<and> h HeaderCache = Some (if stored evs = [] then ''HIT'' else ''MISS''))
     \<or> (\<exists>code. answered_problem r code x'
        \<and> code \<in> {CodeTextTooLong, CodeUnknownVoice, CodeInvalidRequest, CodeQuotaExceeded, CodeOverloaded, CodeInternal}
        \<and> (charges evs = [] \<and> stored evs = [] \<or> (\<exists>key pcm. stored evs = [(key, pcm)] \<and> 0xFFFFFFFF - 44 < int (length pcm)))
        \<and> (3000 < rune_len (sb_Text body) \<longrightarrow> code = CodeTextTooLong)))"
proof -
  let ?req = "toUseCase body (id_TenantID i) (id_KeyID i) (hr_requestID r)"
  obtain res s' where run: "Synthesize P ?req (id_PlanID i) (x_world x) = (res, s')" by fastforce
  have u: "unsent (x\<lparr>x_world := s'\<rparr>)" using assms(1) by simp
  have x': "x' = (case res of Inl e \<Rightarrow> problem r (mapSynthError text_of e) (x\<lparr>x_world := s'\<rparr>) | Inr a \<Rightarrow> writeAudio a (x\<lparr>x_world := s'\<rparr>))"
    using assms(2-4) run by (auto simp: Synthesize_handler_def calling_def split: sum.splits)
  have world: "x_world x' = s'" by (simp add: x' split: sum.split)
  have failed: "answered_problem r (e_Code (mapSynthError text_of e)) x'" if "res = Inl e" for e
    using problem_answers [OF u mapSynthError_status [of text_of e], of r] by (simp add: x' that)
  show ?thesis
  proof (cases "Validate ?req")
    case (Inl e)
    then have e: "res = Inl e" "s' = x_world x" using run by (auto simp: Synthesize_def failE_def)
    have "e_Code (mapSynthError text_of e) = CodeTextTooLong" if "3000 < rune_len (sb_Text body)"
      using Validate_too_long [of ?req] that Inl by (auto simp: mapSynthError_def NewError_def)
    then show ?thesis using failed [OF e(1)] mapSynthError_code [of text_of e] by (intro exI [of _ "[]"]) (auto simp: world e(2))
  next
    case (Inr req)
    then obtain evs key where log: "ss_log s' = ss_log (x_world x) @ evs" and con: "sync_contract req key res evs"
      using doesD [OF does_Synthesize [OF Inr] run] by auto
    note req = Validate_result [OF Inr, simplified]
    have short: "\<not> 3000 < rune_len (sb_Text body)" using Validate_too_long [of ?req] Inr by auto
    show ?thesis
    proof (cases res)
      case (Inl e)
      then show ?thesis using con failed [OF Inl] mapSynthError_code [of text_of e] short
        by (intro exI [of _ evs]) (auto simp: world log sync_contract_def)
    next
      case (Inr a)
      then show ?thesis using con writeAudio_answers [OF u, of a]
        by (intro exI [of _ evs] conjI disjI1) (auto simp: log x' sync_contract_def req contentType_def FormatMP3_def FormatOggOpus_def split: if_splits)
    qed
  qed
qed


text \<open>A request for the examples: three characters at 8 kHz.\<close>

definition example_body :: synthesizeRequest where
  "example_body = \<lparr>sb_Text = ''xin'', sb_Voice = ''v'', sb_Format = ''wav'', sb_SampleRate = 8000, sb_Normalize = None, sb_Params = None\<rparr>"

definition example_authenticated :: http_request where
  "example_authenticated = example_call\<lparr>hr_identity := Some example_caller\<rparr>"

definition example_start :: "(unit service, document) exchange" where
  "example_start = \<lparr>x_writer = fresh_response, x_world = example_service\<rparr>"

lemma example_start_facts: "unsent example_start" "hr_identity example_authenticated = Some example_caller" "id_TenantID example_caller = 1"
    "x_world example_start = example_service" "ss_log example_service = []"
  by (simp_all add: example_start_def example_authenticated_def example_caller_def unsent_def fresh_response_def example_service_def)

lemma example_body_facts: "sb_SampleRate example_body = 8000" "sb_Text example_body = ''xin''" "rune_len ''xin'' = 3"
  "Validate (toUseCase example_body t k i) = Inr (toUseCase example_body t k i)"
proof -
  show n: "rune_len ''xin'' = 3" by code_simp
  show "sb_SampleRate example_body = 8000" "sb_Text example_body = ''xin''" by (simp_all add: example_body_def)
  show "Validate (toUseCase example_body t k i) = Inr (toUseCase example_body t k i)"
    using n by (simp add: Validate_def toUseCase_def example_body_def MinTextChars_def MaxTextChars_def FormatWAV_def supportedRate_def SupportedSampleRates_def)
qed

theorem synthesize_endpoint_announces_what_it_bills_witness:
  "\<exists>x' h. Synthesize_handler (\<lambda>_. Some example_body) (\<lambda>_. []) example_ports example_authenticated example_start = x'
     \<and> rw_sent (x_writer x') = Some (200, h) \<and> h HeaderCharsBilled = Some (Itoa 3) \<and> charges (ss_log (x_world x')) = [(1, 3)]"
proof -
  obtain x' where x': "Synthesize_handler (\<lambda>_. Some example_body) (\<lambda>_. []) example_ports example_authenticated example_start = x'" by blast
  obtain h where h: "wav_header 8000 4 = Inr h" using wav_header_ok_iff [of 8000 4] by (auto simp: HeaderSize_def UnknownSize_def)
  have wav: "wrap_audio [1, 2, 3, 4] 8000 = Inr (h @ [1, 2, 3, 4])" by (simp add: wrap_audio_def PCMSize_def HeaderSize_def h)
  have "\<exists>h. rw_sent (x_writer x') = Some (200, h)"
    using wav unfolding x' [symmetric]
    by (simp add: Synthesize_handler_def calling_def example_start_facts Synthesize_def example_body_facts fromCache_def fromWorker_def withWorker_def
        workerAttempts_def numeral_eq_Suc worker_call_def bill_def billWithTTFA_def clampMS_def MaxInt32_def Let_def example_run writeAudio_def writing_def
        response_simps example_start_def fresh_response_def)
  then have "\<not> answered_problem example_authenticated code x'" for code by (cases code) (auto simp: answered_problem_def)
  then show ?thesis
    using synthesize_endpoint_announces_what_it_bills [OF example_start_facts(1,2) refl x'] x'
    by (auto simp: example_start_facts example_body_facts)
qed

definition exhausted_ports :: "unit ports" where
  "exhausted_ports = example_ports\<lparr>pQuotaCheck := \<lambda>_ _ _. returnE \<lparr>al_Allowed = False, al_Used = 10000\<rparr>\<rparr>"


text \<open>A worker that ends its stream without audio: the response stays empty and the text is charged in full.\<close>

lemma silent_worker_is_billed:
  "\<exists>r s'. Stream (example_ports\<lparr>pWorker := \<lambda>_ _. returnE [Frame 5 [] True]\<rparr>) example_synthesis ''free'' 1 example_service = (Inr r, s')
     \<and> \<not> st_Cancelled r \<and> sent (ss_log s') = [] \<and> charges (ss_log s') = [(7, Chars example_synthesis)]"
proof -
  have tenant: "rq_TenantID example_synthesis = 7" by (simp add: example_synthesis_def)
  show ?thesis
    by (simp add: Stream_def example_synthesis_valid streamFromCache_def streamFromWorker_def openStream_def workerAttempts_def numeral_eq_Suc tenant
        receive_first_def first_frame_def send_frame_def renew_lease_def leaseRenewEvery_def complete_stream_def meterStream_def release_lease_def Let_def example_run)
qed

end
