(* ===== verification/Websocket.thy ===== *)
theory Websocket
  imports Handlers
begin

text \<open>
  The WebSocket endpoint (\<^verbatim>\<open>websocket.go\<close>): one socket carries many utterances, and a cancel stops the
  current one and leaves the socket open. The session is three goroutines that share two
  channels, modelled as an interleaving of their steps; the refinement below shows that together
  they behave like a sequential speaker that handles one request after the other.
\<close>

section \<open>Messages\<close>

definition wsMessageCancel :: string where "wsMessageCancel = ''cancel''"
definition wsMessageEnd :: string where "wsMessageEnd = ''end''"
definition wsReadLimit :: nat where "wsReadLimit = 2 ^ 20"
definition wsIdleTimeout :: int where "wsIdleTimeout = 5 * 60 * 10 ^ 9"

record wsEvent =
  ev_Type :: string
  ev_DurationMS :: int
  ev_Cached :: bool
  ev_Cancelled :: bool
  ev_Code :: string
  ev_Detail :: string

text \<open>An inbound message: its kind and its bytes.\<close>

datatype message = Text_message string | Binary_message string

text \<open>What the reader makes of it; \<open>control_type\<close> decodes the bytes as \<^verbatim>\<open>wsControl\<close>.\<close>

datatype kind = NotText | CancelSignal | OtherControl | Utterance_request

definition classify :: "(string \<Rightarrow> string option) \<Rightarrow> message \<Rightarrow> kind" where
  "classify control_type m =
    (case m of Binary_message _ \<Rightarrow> NotText
     | Text_message bytes \<Rightarrow>
         (case control_type bytes of
            None \<Rightarrow> Utterance_request
          | Some ty \<Rightarrow> if ty = [] then Utterance_request else if ty = wsMessageCancel then CancelSignal else OtherControl))"

definition message_bytes :: "message \<Rightarrow> string" where
  "message_bytes m = (case m of Text_message b \<Rightarrow> b | Binary_message b \<Rightarrow> b)"

definition fail_event :: "Code \<Rightarrow> string \<Rightarrow> wsEvent" where
  "fail_event code detail = \<lparr>ev_Type = ''error'', ev_DurationMS = 0, ev_Cached = False, ev_Cancelled = False, ev_Code = code_text code, ev_Detail = detail\<rparr>"

text \<open>What an utterance sends when its stream has returned.\<close>

definition reply_event :: "(synth_error \<Rightarrow> string) \<Rightarrow> synth_error + StreamResult \<Rightarrow> wsEvent" where
  "reply_event text_of res =
    (case res of
       Inl e \<Rightarrow> let mapped = mapStreamError text_of e in fail_event (e_Code mapped) (e_Detail mapped)
     | Inr result \<Rightarrow> \<lparr>ev_Type = wsMessageEnd, ev_DurationMS = st_DurationMS result, ev_Cached = st_CacheHit result,
         ev_Cancelled = st_Cancelled result, ev_Code = [], ev_Detail = []\<rparr>)"

section \<open>The session\<close>

text \<open>
  The goroutine of \<^verbatim>\<open>run\<close>: waiting for a request; draining stale cancels; with an utterance whose body is
  decoded next; speaking, with what its watcher does; and, its stream having returned, waiting for the
  watcher. A watcher waits, or took the cancel signal of a message.
\<close>

datatype watcher = Watching | Fired nat

datatype runner = Waiting | Draining nat | Accepted nat | Speaking nat watcher | Finishing nat watcher "synth_error + StreamResult"

text \<open>
  Messages are numbered in the order they arrive, and requests and signals are known by their
  number. The channel of requests has no buffer: its sender, the reader, is blocked while it
  offers one. The channel of cancels holds one signal.
\<close>

record wsSession =
  ws_read :: nat
  ws_reading :: bool
  ws_offer :: "nat option"
  ws_cancels :: "nat list"
  ws_runner :: runner
  ws_lost :: bool

definition ws_start :: wsSession where
  "ws_start = \<lparr>ws_read = 0, ws_reading = True, ws_offer = None, ws_cancels = [], ws_runner = Waiting, ws_lost = False\<rparr>"

text \<open>
  The endpoint up to its session: \<open>accept\<close> tells whether the upgrade of the connection succeeds, which answers the client
  itself when it does not.
\<close>

definition SynthesizeWS :: "(string \<Rightarrow> ('v, db_error, int) op) \<Rightarrow> (http_request \<Rightarrow> bool) \<Rightarrow> http_request
    \<Rightarrow> ('v service, document) exchange \<Rightarrow> (Identity \<times> int \<times> wsSession) option \<times> ('v service, document) exchange" where
  "SynthesizeWS limits accept r x =
    (case hr_identity r of
       None \<Rightarrow> (None, missing_key r x)
     | Some identity \<Rightarrow>
         calling (port (limits (id_PlanID identity))) (\<lambda>_ x1. (None, problem r (bare_error CodeInternal) x1))
           (\<lambda>streamLimit x1. if accept r then (Some (identity, streamLimit, ws_start), x1) else (None, x1)) x)"

text \<open>The sink of an utterance: the header, collected into one message, and each chunk as a binary message of the connection.\<close>

record 'v ws_wire =
  ww_world :: 'v
  ww_frames :: "byte list list"
  ww_writes :: nat

definition ws_write :: "(nat \<Rightarrow> bool) \<Rightarrow> byte list \<Rightarrow> ('v ws_wire, synth_error, unit) op" where
  "ws_write conn b s =
    (let s' = s\<lparr>ww_writes := Suc (ww_writes s)\<rparr>
     in if conn (ww_writes s) then (Inr (), s'\<lparr>ww_frames := ww_frames s @ [b]\<rparr>) else (Inl Synth.plain, s'))"

definition wavHeaderBuffer_Write :: "byte list \<Rightarrow> byte list \<Rightarrow> bool \<times> byte list" where
  "wavHeaderBuffer_Write p buf = (True, buf @ p)"

definition wsSink_Header :: "(nat \<Rightarrow> bool) \<Rightarrow> int \<Rightarrow> ('v ws_wire, synth_error, unit) op" where
  "wsSink_Header conn sampleRate s =
    (case WriteHeader wavHeaderBuffer_Write sampleRate UnknownSize [] of
       (Inl _, _) \<Rightarrow> (Inl Synth.plain, s)
     | (Inr _, header) \<Rightarrow> ws_write conn header s)"

definition wsSink_Chunk :: "(nat \<Rightarrow> bool) \<Rightarrow> byte list \<Rightarrow> ('v ws_wire, synth_error, unit) op" where
  "wsSink_Chunk conn pcm = ws_write conn pcm"

text \<open>What an observer of the session sees.\<close>

datatype ws_label = Begun nat | Interrupted nat nat | Spoke nat "byte list" | Replied nat wsEvent bool | Rejected nat | ConnectionLost

text \<open>
  One step of one goroutine, with its label if it can be seen. A stream reports a cancelled result only if its
  context was cancelled, by the watcher or with the connection, or a write failed with the connection.
\<close>

definition was_cancelled :: "synth_error + StreamResult \<Rightarrow> bool" where
  "was_cancelled res = (case res of Inl _ \<Rightarrow> False | Inr result \<Rightarrow> st_Cancelled result)"

inductive ws_step :: "(string \<Rightarrow> string option) \<Rightarrow> (string \<Rightarrow> synthesizeRequest option) \<Rightarrow> (synth_error \<Rightarrow> string) \<Rightarrow> (nat \<Rightarrow> message)
    \<Rightarrow> wsSession \<Rightarrow> ws_label option \<Rightarrow> wsSession \<Rightarrow> bool" for control_type decode text_of msgs where
  read_not_text: "ws_reading s \<Longrightarrow> ws_offer s = None \<Longrightarrow> classify control_type (msgs (ws_read s)) = NotText
    \<Longrightarrow> ws_step control_type decode text_of msgs s (Some (Rejected (ws_read s))) (s\<lparr>ws_read := Suc (ws_read s)\<rparr>)"
| read_cancel: "ws_reading s \<Longrightarrow> ws_offer s = None \<Longrightarrow> classify control_type (msgs (ws_read s)) = CancelSignal
    \<Longrightarrow> ws_step control_type decode text_of msgs s None
      (s\<lparr>ws_read := Suc (ws_read s), ws_cancels := (if ws_cancels s = [] then [ws_read s] else ws_cancels s)\<rparr>)"
| read_control: "ws_reading s \<Longrightarrow> ws_offer s = None \<Longrightarrow> classify control_type (msgs (ws_read s)) = OtherControl
    \<Longrightarrow> ws_step control_type decode text_of msgs s None (s\<lparr>ws_read := Suc (ws_read s)\<rparr>)"
| read_request: "ws_reading s \<Longrightarrow> ws_offer s = None \<Longrightarrow> classify control_type (msgs (ws_read s)) = Utterance_request
    \<Longrightarrow> ws_step control_type decode text_of msgs s None (s\<lparr>ws_read := Suc (ws_read s), ws_offer := Some (ws_read s)\<rparr>)"
| read_fails: "ws_reading s \<Longrightarrow> ws_offer s = None \<Longrightarrow> ws_step control_type decode text_of msgs s None (s\<lparr>ws_reading := False\<rparr>)"
| offer_dropped: "ws_reading s \<Longrightarrow> ws_offer s = Some n \<Longrightarrow> ws_lost s
    \<Longrightarrow> ws_step control_type decode text_of msgs s None (s\<lparr>ws_reading := False, ws_offer := None\<rparr>)"
| lose: "ws_step control_type decode text_of msgs s (Some ConnectionLost) (s\<lparr>ws_lost := True\<rparr>)"
| hand_over: "ws_offer s = Some n \<Longrightarrow> ws_runner s = Waiting
    \<Longrightarrow> ws_step control_type decode text_of msgs s (Some (Begun n)) (s\<lparr>ws_offer := None, ws_runner := Draining n\<rparr>)"
| drain_one: "ws_runner s = Draining n \<Longrightarrow> ws_cancels s = c # cs
    \<Longrightarrow> ws_step control_type decode text_of msgs s None (s\<lparr>ws_cancels := cs\<rparr>)"
| drained: "ws_runner s = Draining n \<Longrightarrow> ws_cancels s = []
    \<Longrightarrow> ws_step control_type decode text_of msgs s None (s\<lparr>ws_runner := Accepted n\<rparr>)"
| bad_body: "ws_runner s = Accepted n \<Longrightarrow> decode (message_bytes (msgs n)) = None
    \<Longrightarrow> ws_step control_type decode text_of msgs s (Some (Replied n (fail_event CodeInvalidRequest ''body must match SynthesizeRequest'') False))
      (s\<lparr>ws_runner := Waiting\<rparr>)"
| speak: "ws_runner s = Accepted n \<Longrightarrow> decode (message_bytes (msgs n)) = Some body
    \<Longrightarrow> ws_step control_type decode text_of msgs s None (s\<lparr>ws_runner := Speaking n Watching\<rparr>)"
| fire: "ws_runner s = Speaking n Watching \<Longrightarrow> ws_cancels s = c # cs
    \<Longrightarrow> ws_step control_type decode text_of msgs s (Some (Interrupted n c)) (s\<lparr>ws_cancels := cs, ws_runner := Speaking n (Fired c)\<rparr>)"
| audio: "ws_runner s = Speaking n w \<Longrightarrow> ws_step control_type decode text_of msgs s (Some (Spoke n b)) s"
| returns: "ws_runner s = Speaking n w \<Longrightarrow> was_cancelled res \<Longrightarrow> w \<noteq> Watching \<or> ws_lost s
    \<Longrightarrow> ws_step control_type decode text_of msgs s None (s\<lparr>ws_runner := Finishing n w res\<rparr>)"
| returns_whole: "ws_runner s = Speaking n w \<Longrightarrow> \<not> was_cancelled res
    \<Longrightarrow> ws_step control_type decode text_of msgs s None (s\<lparr>ws_runner := Finishing n w res\<rparr>)"
| fire_late: "ws_runner s = Finishing n Watching res \<Longrightarrow> ws_cancels s = c # cs
    \<Longrightarrow> ws_step control_type decode text_of msgs s None (s\<lparr>ws_cancels := cs\<rparr>)"
| reply: "ws_runner s = Finishing n w res
    \<Longrightarrow> ws_step control_type decode text_of msgs s (Some (Replied n (reply_event text_of res) (was_cancelled res))) (s\<lparr>ws_runner := Waiting\<rparr>)"

section \<open>Traces and simulation\<close>

inductive trace_of :: "('s \<Rightarrow> 'l option \<Rightarrow> 's \<Rightarrow> bool) \<Rightarrow> 's \<Rightarrow> 'l list \<Rightarrow> 's \<Rightarrow> bool" for step where
  trace_nil: "trace_of step s [] s"
| trace_internal: "trace_of step s tr t \<Longrightarrow> step t None u \<Longrightarrow> trace_of step s tr u"
| trace_visible: "trace_of step s tr t \<Longrightarrow> step t (Some l) u \<Longrightarrow> trace_of step s (tr @ [l]) u"

text \<open>A specification that follows the labels, and the runs of it.\<close>

fun accepts :: "('a \<Rightarrow> 'l \<Rightarrow> 'a option) \<Rightarrow> 'a \<Rightarrow> 'l list \<Rightarrow> 'a option" where
  "accepts spec a [] = Some a"
| "accepts spec a (l # ls) = (case spec a l of None \<Rightarrow> None | Some a' \<Rightarrow> accepts spec a' ls)"

lemma accepts_append: "accepts spec a (xs @ ys) = (case accepts spec a xs of None \<Rightarrow> None | Some b \<Rightarrow> accepts spec b ys)"
  by (induction xs arbitrary: a) (auto split: option.split)

locale forward_simulation =
  fixes step :: "'s \<Rightarrow> 'l option \<Rightarrow> 's \<Rightarrow> bool" and spec :: "'a \<Rightarrow> 'l \<Rightarrow> 'a option" and related :: "'s \<Rightarrow> 'a \<Rightarrow> bool"
  assumes internal: "related s a \<Longrightarrow> step s None t \<Longrightarrow> related t a"
    and visible: "related s a \<Longrightarrow> step s (Some l) t \<Longrightarrow> \<exists>b. spec a l = Some b \<and> related t b"
begin

lemma simulates: "trace_of step s tr t \<Longrightarrow> related s a \<Longrightarrow> \<exists>b. accepts spec a tr = Some b \<and> related t b"
proof (induction rule: trace_of.induct)
  case (trace_visible s tr t l u)
  then obtain b where b: "accepts spec a tr = Some b" "related t b" by blast
  then obtain b' where "spec b l = Some b'" "related u b'" using visible trace_visible.hyps(2) by blast
  then show ?case using b(1) by (auto simp: accepts_append)
qed (auto dest: internal)

end

section \<open>The sequential speaker\<close>

text \<open>
  The specification: the requests are taken in the order they were sent, none left out, one at a time; an utterance is interrupted at most
  once, by a cancel message that was sent after its request and interrupted nothing before; audio belongs to the current
  utterance; and a reply ends it, reported as cancelled only if it was interrupted or the connection is gone.
\<close>

record speaker =
  sk_next :: nat
  sk_current :: "(nat \<times> bool) option"
  sk_spent :: nat
  sk_gone :: bool

definition speaker_start :: speaker where
  "speaker_start = \<lparr>sk_next = 0, sk_current = None, sk_spent = 0, sk_gone = False\<rparr>"

fun speaker_step :: "(nat \<Rightarrow> kind) \<Rightarrow> speaker \<Rightarrow> ws_label \<Rightarrow> speaker option" where
  "speaker_step kind_of a (Begun n) =
    (if sk_current a = None \<and> sk_next a \<le> n \<and> kind_of n = Utterance_request \<and> (\<forall>m \<in> {sk_next a..<n}. kind_of m \<noteq> Utterance_request)
     then Some (a\<lparr>sk_next := Suc n, sk_current := Some (n, False)\<rparr>) else None)"
| "speaker_step kind_of a (Interrupted n c) =
    (if sk_current a = Some (n, False) \<and> n < c \<and> sk_spent a \<le> c \<and> kind_of c = CancelSignal
     then Some (a\<lparr>sk_current := Some (n, True), sk_spent := Suc c\<rparr>) else None)"
| "speaker_step kind_of a (Spoke n b) = (if map_option fst (sk_current a) = Some n then Some a else None)"
| "speaker_step kind_of a (Replied n ev cancelled) =
    (case sk_current a of
       Some (m, interrupted) \<Rightarrow> if m = n \<and> (cancelled \<longrightarrow> interrupted \<or> sk_gone a) then Some (a\<lparr>sk_current := None\<rparr>) else None
     | None \<Rightarrow> None)"
| "speaker_step kind_of a (Rejected n) = (if kind_of n = NotText then Some a else None)"
| "speaker_step kind_of a ConnectionLost = Some (a\<lparr>sk_gone := True\<rparr>)"

section \<open>Lemmas\<close>

text \<open>
  How a session stands to the speaker: pending signals are unspent, and those an utterance could take were read after its
  request; a request the reader offers is the next one.
\<close>

fun runner_related :: "wsSession \<Rightarrow> speaker \<Rightarrow> runner \<Rightarrow> bool" where
  "runner_related s a Waiting = (sk_current a = None)"
| "runner_related s a (Draining n) = (sk_current a = Some (n, False) \<and> n < ws_read s)"
| "runner_related s a (Accepted n) = (sk_current a = Some (n, False) \<and> n < ws_read s \<and> (\<forall>c \<in> set (ws_cancels s). n < c))"
| "runner_related s a (Speaking n w) = (sk_current a = Some (n, w \<noteq> Watching) \<and> n < ws_read s \<and> (\<forall>c \<in> set (ws_cancels s). n < c))"
| "runner_related s a (Finishing n w res) = (sk_current a = Some (n, w \<noteq> Watching) \<and> (was_cancelled res \<longrightarrow> w \<noteq> Watching \<or> ws_lost s))"

definition offers_next :: "(nat \<Rightarrow> kind) \<Rightarrow> wsSession \<Rightarrow> speaker \<Rightarrow> bool" where
  "offers_next kind_of s a = (case ws_offer s of
     None \<Rightarrow> ws_reading s \<longrightarrow> (\<forall>m \<in> {sk_next a..<ws_read s}. kind_of m \<noteq> Utterance_request)
   | Some n \<Rightarrow> ws_reading s \<and> Suc n = ws_read s \<and> sk_next a \<le> n \<and> kind_of n = Utterance_request \<and> (\<forall>m \<in> {sk_next a..<n}. kind_of m \<noteq> Utterance_request))"

definition ws_related :: "(nat \<Rightarrow> kind) \<Rightarrow> wsSession \<Rightarrow> speaker \<Rightarrow> bool" where
  "ws_related kind_of s a \<longleftrightarrow> sk_gone a = ws_lost s \<and> sk_next a \<le> ws_read s \<and> sk_spent a \<le> ws_read s \<and> offers_next kind_of s a
     \<and> length (ws_cancels s) \<le> 1 \<and> (\<forall>c \<in> set (ws_cancels s). c < ws_read s \<and> kind_of c = CancelSignal \<and> sk_spent a \<le> c)
     \<and> runner_related s a (ws_runner s)"

lemma not_utterance_Suc: "\<forall>m \<in> {i..<n}. P m \<Longrightarrow> P n \<Longrightarrow> \<forall>m \<in> {i..<Suc n}. P m" for n :: nat
  by (auto simp: less_Suc_eq)

lemmas ws_defs = ws_related_def offers_next_def

lemma ws_internal:
  assumes "ws_related (classify control_type \<circ> msgs) s a" and "ws_step control_type decode text_of msgs s None t"
  shows "ws_related (classify control_type \<circ> msgs) t a"
  using assms(2,1)
proof (cases rule: ws_step.cases)
  case read_cancel
  then show ?thesis using assms(1) by (cases "ws_runner s") (auto simp: ws_defs less_Suc_eq)
next
  case read_control
  then show ?thesis using assms(1) by (cases "ws_runner s") (auto simp: ws_defs less_Suc_eq)
next
  case read_request
  then show ?thesis using assms(1) by (cases "ws_runner s") (auto simp: ws_defs less_Suc_eq)
next
  case read_fails
  then show ?thesis using assms(1) by (cases "ws_runner s") (auto simp: ws_defs)
next
  case (offer_dropped n)
  then show ?thesis using assms(1) by (cases "ws_runner s") (auto simp: ws_defs)
qed (use assms(1) in \<open>auto simp: ws_defs split: option.splits\<close>)

lemma ws_visible:
  assumes "ws_related (classify control_type \<circ> msgs) s a" and "ws_step control_type decode text_of msgs s (Some l) t"
  shows "\<exists>b. speaker_step (classify control_type \<circ> msgs) a l = Some b \<and> ws_related (classify control_type \<circ> msgs) t b"
  using assms(2,1)
proof (cases rule: ws_step.cases)
  case read_not_text
  then show ?thesis using assms(1) by (cases "ws_runner s") (auto simp: ws_defs less_Suc_eq)
next
  case lose
  then show ?thesis using assms(1) by (cases "ws_runner s") (auto simp: ws_defs split: option.splits)
next
  case (hand_over n)
  then show ?thesis using assms(1) by (auto simp: ws_defs)
next
  case (fire n c cs)
  then show ?thesis using assms(1) by (auto simp: ws_defs split: option.splits)
next
  case (audio n w b)
  then show ?thesis using assms(1) by (auto simp: ws_defs)
qed (use assms(1) in \<open>auto simp: ws_defs split: option.splits\<close>)

interpretation ws: forward_simulation "ws_step control_type decode text_of msgs" "speaker_step (classify control_type \<circ> msgs)"
    "ws_related (classify control_type \<circ> msgs)"
  for control_type decode text_of msgs
  by unfold_locales (rule ws_internal, assumption+, rule ws_visible)

lemma ws_start_related: "ws_related kind_of ws_start speaker_start"
  by (simp add: ws_defs ws_start_def speaker_start_def)

text \<open>
  While a further request waits to be taken, the reader reads nothing, so no new signal can
  reach the current utterance.
\<close>

lemma offered_request_blocks_signals:
  assumes "ws_step control_type decode text_of msgs s l t" and "ws_offer s = Some m" and "ws_runner s = Speaking n w"
  shows "ws_read t = ws_read s" and "set (ws_cancels t) \<subseteq> set (ws_cancels s)"
  using assms by (auto elim!: ws_step.cases)

text \<open>The header of an utterance is one message of 44 bytes, or nothing was sent.\<close>

lemma ws_header_is_one_frame:
  assumes "wsSink_Header conn rate s = (res, s')"
  shows "case res of Inr _ \<Rightarrow> \<exists>h. length h = 44 \<and> wav_header rate UnknownSize = Inr h \<and> ww_frames s' = ww_frames s @ [h] | Inl _ \<Rightarrow> ww_frames s' = ww_frames s"
  using assms length_wav_header [of rate UnknownSize]
  by (auto simp: wsSink_Header_def WriteHeader_def wavHeaderBuffer_Write_def ws_write_def Let_def split: sum.splits prod.splits if_splits)

text \<open>A session starts only for an authenticated client, and nothing was written to the response before.\<close>

lemma ws_session_starts:
  assumes "SynthesizeWS limits accept r x = (Some (identity, streamLimit, session), x')"
  shows "hr_identity r = Some identity" and "x_writer x' = x_writer x" and "session = ws_start"
  using assms by (auto simp: SynthesizeWS_def calling_def split: option.splits prod.splits sum.splits if_splits)

text \<open>A request, and after it a cancel.\<close>

definition example_messages :: "nat \<Rightarrow> message" where
  "example_messages n = Text_message (if n = 0 then ''{}'' else ''cancel'')"

definition example_control :: "string \<Rightarrow> string option" where
  "example_control b = (if b = ''cancel'' then Some ''cancel'' else None)"

definition example_step :: "wsSession \<Rightarrow> ws_label option \<Rightarrow> wsSession \<Rightarrow> bool" where
  "example_step = ws_step example_control (\<lambda>_. Some example_body) (\<lambda>_. []) example_messages"

lemma example_classes: "classify example_control (example_messages 0) = Utterance_request" "classify example_control (example_messages (Suc 0)) = CancelSignal"
  by (simp_all add: classify_def example_messages_def example_control_def wsMessageCancel_def)

definition example_result :: "bool \<Rightarrow> StreamResult" where
  "example_result cancelled = empty_result\<lparr>st_Cancelled := cancelled\<rparr>"

lemma example_taken: "trace_of example_step ws_start [Begun 0] (ws_start\<lparr>ws_read := 1, ws_runner := Draining 0\<rparr>)"
proof -
  have "example_step ws_start None (ws_start\<lparr>ws_read := 1, ws_offer := Some 0\<rparr>)"
    using ws_step.read_request [of ws_start example_control example_messages] by (simp add: example_step_def ws_start_def example_classes)
  moreover have "example_step (ws_start\<lparr>ws_read := 1, ws_offer := Some 0\<rparr>) (Some (Begun 0)) (ws_start\<lparr>ws_read := 1, ws_runner := Draining 0\<rparr>)"
    using ws_step.hand_over [of "ws_start\<lparr>ws_read := 1, ws_offer := Some 0\<rparr>" 0] by (simp add: example_step_def ws_start_def)
  ultimately show ?thesis using trace_visible [of example_step ws_start "[]"] trace_internal [of example_step ws_start "[]"] trace_nil by fastforce
qed

text \<open>
  A cancel that was sent after its request may be drained as stale: when the reader is faster than the
  runner, the utterance is spoken to its end.
\<close>

lemma fresh_cancel_may_be_drained:
  "trace_of example_step ws_start [Begun 0, Replied 0 (reply_event (\<lambda>_. []) (Inr (example_result False))) False] (ws_start\<lparr>ws_read := 2\<rparr>)"
proof -
  let ?s = "\<lambda>r cs. ws_start\<lparr>ws_read := 2, ws_cancels := cs, ws_runner := r\<rparr>"
  have 1: "example_step (ws_start\<lparr>ws_read := 1, ws_runner := Draining 0\<rparr>) None (?s (Draining 0) [1])"
    using ws_step.read_cancel [of "ws_start\<lparr>ws_read := 1, ws_runner := Draining 0\<rparr>" example_control example_messages]
    by (simp add: example_step_def ws_start_def example_classes numeral_2_eq_2)
  have 2: "example_step (?s (Draining 0) [1]) None (?s (Draining 0) [])"
    using ws_step.drain_one [of "?s (Draining 0) [1]" 0 1 "[]"] by (simp add: example_step_def ws_start_def)
  have 3: "example_step (?s (Draining 0) []) None (?s (Accepted 0) [])"
    using ws_step.drained [of "?s (Draining 0) []" 0] by (simp add: example_step_def ws_start_def)
  have 4: "example_step (?s (Accepted 0) []) None (?s (Speaking 0 Watching) [])"
    using ws_step.speak [of "?s (Accepted 0) []" 0 "\<lambda>_. Some example_body"] by (simp add: example_step_def ws_start_def)
  have 5: "example_step (?s (Speaking 0 Watching) []) None (?s (Finishing 0 Watching (Inr (example_result False))) [])"
    using ws_step.returns_whole [of "?s (Speaking 0 Watching) []" 0 Watching "Inr (example_result False)"]
    by (simp add: example_step_def was_cancelled_def example_result_def ws_start_def)
  have 6: "example_step (?s (Finishing 0 Watching (Inr (example_result False))) [])
      (Some (Replied 0 (reply_event (\<lambda>_. []) (Inr (example_result False))) False)) (?s Waiting [])"
    using ws_step.reply [of "?s (Finishing 0 Watching (Inr (example_result False))) []" 0 Watching "Inr (example_result False)"]
    by (simp add: example_step_def was_cancelled_def example_result_def ws_start_def)
  have "trace_of example_step ws_start [Begun 0] (?s (Finishing 0 Watching (Inr (example_result False))) [])"
    by (rule trace_internal [OF trace_internal [OF trace_internal [OF trace_internal [OF trace_internal [OF example_taken 1] 2] 3] 4] 5])
  from trace_visible [OF this 6] show ?thesis by (simp add: ws_start_def)
qed

section \<open>Properties\<close>

text \<open>
  C9: the concurrent session implements a sequential speaker (US-10). Under every interleaving of
  the reader, the runner and the watchers, whatever the client sends and whatever the streams return, what the session
  does is a run of the specification: requests are begun in the order they were sent, one at a time and none left out; an
  utterance is interrupted only by a cancel sent after its request, never by one meant for an
  earlier utterance, and no cancel interrupts twice; audio and reply belong to the current utterance;
  and a reply reports a cancelled utterance only if it was interrupted or the connection is gone.
\<close>

theorem websocket_session_refines_speaker:
  assumes "trace_of (ws_step control_type decode text_of msgs) ws_start tr s"
  shows "\<exists>a. accepts (speaker_step (classify control_type \<circ> msgs)) speaker_start tr = Some a
    \<and> (ws_runner s = Waiting \<longleftrightarrow> sk_current a = None) \<and> sk_gone a = ws_lost s"
proof -
  obtain a where a: "accepts (speaker_step (classify control_type \<circ> msgs)) speaker_start tr = Some a" "ws_related (classify control_type \<circ> msgs) s a"
    using ws.simulates [OF assms ws_start_related] by blast
  then show ?thesis by (cases "ws_runner s") (auto simp: ws_related_def)
qed

theorem websocket_session_refines_speaker_witness:
  "\<exists>a. accepts (speaker_step (classify example_control \<circ> example_messages)) speaker_start
      [Begun 0, Replied 0 (reply_event (\<lambda>_. []) (Inr (example_result False))) False] = Some a \<and> sk_current a = None"
  using websocket_session_refines_speaker [OF fresh_cancel_may_be_drained [unfolded example_step_def]]
  by (simp add: ws_start_def del: accepts.simps) blast

end
