(* ===== verification/Config.thy ===== *)
theory Config
  imports Http
begin

text \<open>
  The configuration of the process (\<^verbatim>\<open>internal/config/config.go\<close>): the environment is read once at boot, and a value that is wrong
  stops the process with the variable named. \<open>platform\<close> holds the library functions the loader
  calls: \<^verbatim>\<open>url.Parse\<close> with the scheme, host, path and query it found, \<^verbatim>\<open>netip.ParsePrefix\<close>, \<^verbatim>\<open>netip.ParseAddr\<close>,
  \<^verbatim>\<open>strings.ToLower\<close> and the quoting of \<^verbatim>\<open>%q\<close>.
\<close>

section \<open>Data\<close>

definition EnvDev :: string where "EnvDev = ''dev''"
definition EnvProd :: string where "EnvProd = ''prod''"

record s3_Config =
  s3_Endpoint :: string
  s3_PublicEndpoint :: string
  s3_Region :: string
  s3_Bucket :: string
  s3_AccessKey :: string
  s3_SecretKey :: string

record Config =
  cf_Env :: string
  cf_HTTPAddr :: string
  cf_LogLevel :: string
  cf_OTLPEndpoint :: string
  cf_DatabaseURL :: string
  cf_DatabaseMaxConns :: int
  cf_AdminKey :: string
  cf_WebhookSecret :: string
  cf_AdminAllowlist :: "ip_prefix list"
  cf_WorkerAddrs :: "string list"
  cf_RedisURL :: string
  cf_ConsoleOrigins :: "string list"
  cf_RedisPoolSize :: int
  cf_S3 :: s3_Config
  cf_ShutdownTimeout :: int

record config_error =
  ce_Variable :: string
  ce_Reason :: string

record parsed_url =
  pu_Scheme :: string
  pu_Host :: string
  pu_Path :: string
  pu_RawQuery :: string

record platform =
  pf_url :: "string \<Rightarrow> parsed_url option"
  pf_prefix :: "string \<Rightarrow> ip_prefix option"
  pf_addr :: "string \<Rightarrow> ip_addr option"
  pf_lower :: "string \<Rightarrow> string"
  pf_quote :: "string \<Rightarrow> string"

definition defaultHTTPAddr :: string where "defaultHTTPAddr = '':8080''"
definition defaultLogLevel :: string where "defaultLogLevel = ''info''"
definition defaultShutdownTimeout :: int where "defaultShutdownTimeout = 20 * 10 ^ 9"
definition defaultDatabaseMaxConns :: int where "defaultDatabaseMaxConns = 20"
definition defaultRedisPoolSize :: int where "defaultRedisPoolSize = 32"
definition minAdminKeyLen :: nat where "minAdminKeyLen = 32"
definition minWebhookSecretLen :: nat where "minWebhookSecretLen = 32"

definition validLogLevels :: "string list" where
  "validLogLevels = [''trace'', ''debug'', ''info'', ''warn'', ''error'']"

section \<open>Reading values\<close>

definition config_value :: "(string \<Rightarrow> string option) \<Rightarrow> string \<Rightarrow> string \<Rightarrow> string" where
  "config_value lookup name fallback =
    (case lookup name of None \<Rightarrow> fallback | Some raw \<Rightarrow> if TrimSpace raw \<noteq> [] then TrimSpace raw else fallback)"

text \<open>\<^verbatim>\<open>strings.Split(raw, ",")\<close>.\<close>

fun Split_comma :: "string \<Rightarrow> string list" where
  "Split_comma [] = [[]]"
| "Split_comma (c # cs) = (if c = CHR '','' then [] # Split_comma cs else case Split_comma cs of [] \<Rightarrow> [[c]] | p # ps \<Rightarrow> (c # p) # ps)"

definition splitList :: "string \<Rightarrow> string list" where
  "splitList raw = (if raw = [] then [] else filter (\<lambda>entry. entry \<noteq> []) (map TrimSpace (Split_comma raw)))"

fun BitLen :: "ip_addr \<Rightarrow> nat" where
  "BitLen InvalidAddr = 0"
| "BitLen (V4 _) = 32"
| "BitLen (V6 _ _) = 128"

text \<open>\<^verbatim>\<open>netip.PrefixFrom\<close> drops the zone.\<close>

fun PrefixFrom :: "ip_addr \<Rightarrow> nat \<Rightarrow> ip_prefix" where
  "PrefixFrom (V6 a z) n = Prefix (V6 a []) n"
| "PrefixFrom a n = Prefix a n"

definition parse_entry :: "platform \<Rightarrow> string \<Rightarrow> ip_prefix option" where
  "parse_entry pf entry =
    (case pf_prefix pf entry of Some prefix \<Rightarrow> Some prefix | None \<Rightarrow> map_option (\<lambda>addr. PrefixFrom addr (BitLen addr)) (pf_addr pf entry))"

fun parse_parts :: "platform \<Rightarrow> string list \<Rightarrow> string + ip_prefix list" where
  "parse_parts pf [] = Inr []"
| "parse_parts pf (part # parts) =
    (let entry = TrimSpace part
     in if entry = [] then parse_parts pf parts
        else case parse_entry pf entry of
          None \<Rightarrow> Inl (pf_quote pf entry @ '' is not a CIDR or an IP address'')
        | Some prefix \<Rightarrow> (case parse_parts pf parts of Inl e \<Rightarrow> Inl e | Inr prefixes \<Rightarrow> Inr (prefix # prefixes)))"

definition parsePrefixes :: "platform \<Rightarrow> string \<Rightarrow> string + ip_prefix list" where
  "parsePrefixes pf raw = (if raw = [] then Inr [] else parse_parts pf (Split_comma raw))"

definition bare_origin :: "platform \<Rightarrow> string \<Rightarrow> bool" where
  "bare_origin pf origin = (case pf_url pf origin of None \<Rightarrow> False
     | Some u \<Rightarrow> pu_Scheme u \<noteq> [] \<and> pu_Host u \<noteq> [] \<and> pu_Path u = [] \<and> pu_RawQuery u = [])"

section \<open>Loading\<close>

definition initial_config :: "platform \<Rightarrow> (string \<Rightarrow> string option) \<Rightarrow> Config" where
  "initial_config pf lookup =
    \<lparr>cf_Env = config_value lookup ''VITTS_ENV'' EnvDev,
     cf_HTTPAddr = config_value lookup ''VITTS_HTTP_ADDR'' defaultHTTPAddr,
     cf_LogLevel = pf_lower pf (config_value lookup ''VITTS_LOG_LEVEL'' defaultLogLevel),
     cf_OTLPEndpoint = config_value lookup ''OTEL_EXPORTER_OTLP_ENDPOINT'' [],
     cf_DatabaseURL = config_value lookup ''VITTS_DATABASE_URL'' [],
     cf_DatabaseMaxConns = defaultDatabaseMaxConns,
     cf_AdminKey = config_value lookup ''VITTS_ADMIN_KEY'' [],
     cf_WebhookSecret = config_value lookup ''VITTS_WEBHOOK_SIGNING_SECRET'' [],
     cf_AdminAllowlist = [],
     cf_WorkerAddrs = splitList (config_value lookup ''VITTS_WORKER_ADDRS'' []),
     cf_RedisURL = config_value lookup ''VITTS_REDIS_URL'' [],
     cf_ConsoleOrigins = splitList (config_value lookup ''VITTS_CONSOLE_ORIGIN'' []),
     cf_RedisPoolSize = defaultRedisPoolSize,
     cf_S3 = \<lparr>s3_Endpoint = config_value lookup ''VITTS_S3_ENDPOINT'' [], s3_PublicEndpoint = config_value lookup ''VITTS_S3_PUBLIC_ENDPOINT'' [],
       s3_Region = config_value lookup ''VITTS_S3_REGION'' ''us-east-1'', s3_Bucket = config_value lookup ''VITTS_S3_BUCKET'' [],
       s3_AccessKey = config_value lookup ''VITTS_S3_ACCESS_KEY'' [], s3_SecretKey = config_value lookup ''VITTS_S3_SECRET_KEY'' []\<rparr>,
     cf_ShutdownTimeout = defaultShutdownTimeout\<rparr>"

definition refuse :: "string \<Rightarrow> string \<Rightarrow> config_error + Config" where
  "refuse variable reason = Inl \<lparr>ce_Variable = variable, ce_Reason = reason\<rparr>"

text \<open>The checks on the values read, in the order the code makes them.\<close>

definition validate_config :: "platform \<Rightarrow> Config \<Rightarrow> config_error + Config" where
  "validate_config pf cfg =
    (if cf_Env cfg \<noteq> EnvDev \<and> cf_Env cfg \<noteq> EnvProd then refuse ''VITTS_ENV'' ''must be \"dev\" or \"prod\"''
     else if cf_HTTPAddr cfg = [] then refuse ''VITTS_HTTP_ADDR'' ''must not be empty''
     else if cf_LogLevel cfg \<notin> set validLogLevels then refuse ''VITTS_LOG_LEVEL'' ''must be one of trace, debug, info, warn, error''
     else if cf_DatabaseURL cfg = [] then refuse ''VITTS_DATABASE_URL'' ''is required; the gateway does not run without its system of record''
     else if pf_url pf (cf_DatabaseURL cfg) = None then refuse ''VITTS_DATABASE_URL'' ''must be a URL''
     else if length (cf_AdminKey cfg) < minAdminKeyLen then refuse ''VITTS_ADMIN_KEY'' (''must be at least '' @ Itoa (int minAdminKeyLen) @ '' characters'')
     else if cf_AdminAllowlist cfg = [] then refuse ''VITTS_ADMIN_IP_ALLOWLIST'' ''must list at least one CIDR; admin endpoints are never open''
     else if length (cf_WebhookSecret cfg) < minWebhookSecretLen
       then refuse ''VITTS_WEBHOOK_SIGNING_SECRET'' (''must be at least '' @ Itoa (int minWebhookSecretLen) @ '' characters'')
     else if cf_RedisURL cfg = [] then refuse ''VITTS_REDIS_URL'' ''is required; rate limits and quota are enforced from Redis''
     else if s3_Bucket (cf_S3 cfg) = [] then refuse ''VITTS_S3_BUCKET'' ''is required; synthesized audio is cached in object storage''
     else if cf_WorkerAddrs cfg = [] then refuse ''VITTS_WORKER_ADDRS'' ''must list at least one worker address''
     else case find (\<lambda>origin. \<not> bare_origin pf origin) (cf_ConsoleOrigins cfg) of
       Some origin \<Rightarrow> refuse ''VITTS_CONSOLE_ORIGIN'' (pf_quote pf origin @ '' must be a bare origin such as https://console.example.com'')
     | None \<Rightarrow>
         if cf_OTLPEndpoint cfg \<noteq> [] \<and> pf_url pf (cf_OTLPEndpoint cfg) = None then refuse ''OTEL_EXPORTER_OTLP_ENDPOINT'' ''must be a URL''
         else Inr cfg)"

definition config_Load :: "platform \<Rightarrow> (string \<Rightarrow> string option) \<Rightarrow> config_error + Config" where
  "config_Load pf lookup =
    (case parsePrefixes pf (config_value lookup ''VITTS_ADMIN_IP_ALLOWLIST'' []) of
       Inl reason \<Rightarrow> refuse ''VITTS_ADMIN_IP_ALLOWLIST'' reason
     | Inr allowlist \<Rightarrow> validate_config pf ((initial_config pf lookup)\<lparr>cf_AdminAllowlist := allowlist\<rparr>))"

section \<open>What a usable environment is\<close>

text \<open>The requirements of the deployment, one per variable.\<close>

definition requirements :: "platform \<Rightarrow> (string \<Rightarrow> string option) \<Rightarrow> (string \<times> bool) list" where
  "requirements pf lookup =
    [(''VITTS_ENV'', config_value lookup ''VITTS_ENV'' ''dev'' \<in> {''dev'', ''prod''}),
     (''VITTS_LOG_LEVEL'', pf_lower pf (config_value lookup ''VITTS_LOG_LEVEL'' ''info'') \<in> {''trace'', ''debug'', ''info'', ''warn'', ''error''}),
     (''VITTS_DATABASE_URL'', config_value lookup ''VITTS_DATABASE_URL'' [] \<noteq> [] \<and> pf_url pf (config_value lookup ''VITTS_DATABASE_URL'' []) \<noteq> None),
     (''VITTS_ADMIN_KEY'', 32 \<le> length (config_value lookup ''VITTS_ADMIN_KEY'' [])),
     (''VITTS_ADMIN_IP_ALLOWLIST'', splitList (config_value lookup ''VITTS_ADMIN_IP_ALLOWLIST'' []) \<noteq> []
        \<and> list_all (\<lambda>entry. parse_entry pf entry \<noteq> None) (splitList (config_value lookup ''VITTS_ADMIN_IP_ALLOWLIST'' []))),
     (''VITTS_WEBHOOK_SIGNING_SECRET'', 32 \<le> length (config_value lookup ''VITTS_WEBHOOK_SIGNING_SECRET'' [])),
     (''VITTS_REDIS_URL'', config_value lookup ''VITTS_REDIS_URL'' [] \<noteq> []),
     (''VITTS_S3_BUCKET'', config_value lookup ''VITTS_S3_BUCKET'' [] \<noteq> []),
     (''VITTS_WORKER_ADDRS'', splitList (config_value lookup ''VITTS_WORKER_ADDRS'' []) \<noteq> []),
     (''VITTS_CONSOLE_ORIGIN'', list_all (bare_origin pf) (splitList (config_value lookup ''VITTS_CONSOLE_ORIGIN'' []))),
     (''OTEL_EXPORTER_OTLP_ENDPOINT'', config_value lookup ''OTEL_EXPORTER_OTLP_ENDPOINT'' [] = []
        \<or> pf_url pf (config_value lookup ''OTEL_EXPORTER_OTLP_ENDPOINT'' []) \<noteq> None)]"

section \<open>Lemmas\<close>

lemma Split_comma_not_Nil [simp]: "Split_comma s \<noteq> []"
  by (cases s) (auto split: list.splits)

text \<open>Joining the parts gives the text back: nothing is lost or invented between the commas.\<close>

lemma Split_comma_Join: "Join (Split_comma s) '','' = s"
proof (induction s)
  case (Cons c cs)
  have head: "Join ((d # a) # ps) sep = d # Join (a # ps) sep" for d a ps and sep :: string by (cases ps) auto
  obtain p ps where "Split_comma cs = p # ps" by (meson Split_comma_not_Nil neq_Nil_conv)
  then show ?case using Cons by (auto simp: head)
qed simp

lemma config_value_default: "fallback \<noteq> [] \<Longrightarrow> config_value lookup name fallback \<noteq> []"
  by (simp add: config_value_def split: option.splits)

lemma parse_parts_spec:
  "parse_parts pf parts = (let entries = filter (\<lambda>e. e \<noteq> []) (map TrimSpace parts)
     in case find (\<lambda>e. parse_entry pf e = None) entries of
          Some e \<Rightarrow> Inl (pf_quote pf e @ '' is not a CIDR or an IP address'')
        | None \<Rightarrow> Inr (map (the \<circ> parse_entry pf) entries))"
  by (induction parts) (auto simp: Let_def split: option.splits)

lemma parsePrefixes_spec:
  "parsePrefixes pf raw = (case find (\<lambda>e. parse_entry pf e = None) (splitList raw) of
     Some e \<Rightarrow> Inl (pf_quote pf e @ '' is not a CIDR or an IP address'')
   | None \<Rightarrow> Inr (map (the \<circ> parse_entry pf) (splitList raw)))"
  by (cases "raw = []") (simp_all add: parsePrefixes_def splitList_def parse_parts_spec Let_def split: option.splits)

text \<open>The chain of checks as a list, of which the first that fails decides.\<close>

fun first_failing :: "(string \<times> bool \<times> string) list \<Rightarrow> Config \<Rightarrow> config_error + Config" where
  "first_failing [] cfg = Inr cfg"
| "first_failing ((variable, ok, reason) # checks) cfg = (if \<not> ok then refuse variable reason else first_failing checks cfg)"

definition config_checks :: "platform \<Rightarrow> Config \<Rightarrow> (string \<times> bool \<times> string) list" where
  "config_checks pf cfg =
    [(''VITTS_ENV'', cf_Env cfg = EnvDev \<or> cf_Env cfg = EnvProd, ''must be \"dev\" or \"prod\"''),
     (''VITTS_HTTP_ADDR'', cf_HTTPAddr cfg \<noteq> [], ''must not be empty''),
     (''VITTS_LOG_LEVEL'', cf_LogLevel cfg \<in> set validLogLevels, ''must be one of trace, debug, info, warn, error''),
     (''VITTS_DATABASE_URL'', cf_DatabaseURL cfg \<noteq> [], ''is required; the gateway does not run without its system of record''),
     (''VITTS_DATABASE_URL'', pf_url pf (cf_DatabaseURL cfg) \<noteq> None, ''must be a URL''),
     (''VITTS_ADMIN_KEY'', minAdminKeyLen \<le> length (cf_AdminKey cfg), ''must be at least '' @ Itoa (int minAdminKeyLen) @ '' characters''),
     (''VITTS_ADMIN_IP_ALLOWLIST'', cf_AdminAllowlist cfg \<noteq> [], ''must list at least one CIDR; admin endpoints are never open''),
     (''VITTS_WEBHOOK_SIGNING_SECRET'', minWebhookSecretLen \<le> length (cf_WebhookSecret cfg), ''must be at least '' @ Itoa (int minWebhookSecretLen) @ '' characters''),
     (''VITTS_REDIS_URL'', cf_RedisURL cfg \<noteq> [], ''is required; rate limits and quota are enforced from Redis''),
     (''VITTS_S3_BUCKET'', s3_Bucket (cf_S3 cfg) \<noteq> [], ''is required; synthesized audio is cached in object storage''),
     (''VITTS_WORKER_ADDRS'', cf_WorkerAddrs cfg \<noteq> [], ''must list at least one worker address''),
     (''VITTS_CONSOLE_ORIGIN'', list_all (bare_origin pf) (cf_ConsoleOrigins cfg),
        pf_quote pf (the (find (\<lambda>origin. \<not> bare_origin pf origin) (cf_ConsoleOrigins cfg))) @ '' must be a bare origin such as https://console.example.com''),
     (''OTEL_EXPORTER_OTLP_ENDPOINT'', cf_OTLPEndpoint cfg = [] \<or> pf_url pf (cf_OTLPEndpoint cfg) \<noteq> None, ''must be a URL'')]"

lemma find_none_list_all: "find (\<lambda>x. \<not> P x) xs = None \<longleftrightarrow> list_all P xs"
  by (auto simp: find_None_iff list_all_iff)

lemma validate_as_checks: "validate_config pf cfg = first_failing (config_checks pf cfg) cfg"
  by (cases "find (\<lambda>origin. \<not> bare_origin pf origin) (cf_ConsoleOrigins cfg)")
    (simp_all add: validate_config_def config_checks_def find_none_list_all [symmetric] not_less linorder_not_le de_Morgan_disj de_Morgan_conj del: not_None_eq)

lemma first_failing_refuses: "first_failing cs cfg = Inl e \<Longrightarrow> \<exists>reason. (ce_Variable e, False, reason) \<in> set cs"
  by (induction cs cfg rule: first_failing.induct) (auto simp: refuse_def split: if_splits)

lemma first_failing_accepts: "first_failing cs cfg = Inr c \<longleftrightarrow> c = cfg \<and> list_all (\<lambda>(_, ok, _). ok) cs"
  by (induction cs cfg rule: first_failing.induct) (auto simp: refuse_def)

lemmas config_consts = EnvDev_def EnvProd_def defaultLogLevel_def defaultHTTPAddr_def validLogLevels_def minAdminKeyLen_def minWebhookSecretLen_def

text \<open>The checks of the configuration read from an environment are the requirements on it.\<close>

lemma config_checks_require:
  assumes "\<forall>entry \<in> set (splitList (config_value lookup ''VITTS_ADMIN_IP_ALLOWLIST'' [])). parse_entry pf entry \<noteq> None"
    and "(v, ok, reason) \<in> set (config_checks pf ((initial_config pf lookup)\<lparr>cf_AdminAllowlist :=
      map (the \<circ> parse_entry pf) (splitList (config_value lookup ''VITTS_ADMIN_IP_ALLOWLIST'' []))\<rparr>))"
    and "\<not> ok"
  shows "(v, False) \<in> set (requirements pf lookup)"
  using assms(2,3,1) config_value_default [of defaultHTTPAddr lookup "''VITTS_HTTP_ADDR''"]
  unfolding config_checks_def requirements_def initial_config_def config_consts
  by (simp only: list.set insert_iff empty_iff prod.inject Config.select_convs Config.update_convs s3_Config.select_convs) (elim disjE; simp add: list_all_iff not_le)

lemma config_refused:
  assumes "config_Load pf lookup = Inl e"
  shows "(ce_Variable e, False) \<in> set (requirements pf lookup)"
proof (cases "find (\<lambda>e. parse_entry pf e = None) (splitList (config_value lookup ''VITTS_ADMIN_IP_ALLOWLIST'' []))")
  case None
  then have "first_failing (config_checks pf ((initial_config pf lookup)\<lparr>cf_AdminAllowlist :=
      map (the \<circ> parse_entry pf) (splitList (config_value lookup ''VITTS_ADMIN_IP_ALLOWLIST'' []))\<rparr>))
      ((initial_config pf lookup)\<lparr>cf_AdminAllowlist := map (the \<circ> parse_entry pf) (splitList (config_value lookup ''VITTS_ADMIN_IP_ALLOWLIST'' []))\<rparr>) = Inl e"
    using assms by (simp add: config_Load_def parsePrefixes_spec validate_as_checks)
  from first_failing_refuses [OF this] show ?thesis
    using config_checks_require [of lookup pf "ce_Variable e" False] None by (auto simp: find_None_iff)
next
  case (Some entry)
  then have "ce_Variable e = ''VITTS_ADMIN_IP_ALLOWLIST''" using assms by (auto simp: config_Load_def parsePrefixes_spec refuse_def)
  moreover have "\<not> list_all (\<lambda>entry. parse_entry pf entry \<noteq> None) (splitList (config_value lookup ''VITTS_ADMIN_IP_ALLOWLIST'' []))"
    using Some by (auto simp: find_Some_iff list_all_length)
  ultimately show ?thesis by (simp add: requirements_def)
qed

lemma config_accepted:
  assumes "config_Load pf lookup = Inr cfg"
  shows "cfg = (initial_config pf lookup)\<lparr>cf_AdminAllowlist := map (the \<circ> parse_entry pf) (splitList (config_value lookup ''VITTS_ADMIN_IP_ALLOWLIST'' []))\<rparr>"
    and "list_all snd (requirements pf lookup)"
proof -
  let ?cfg = "(initial_config pf lookup)\<lparr>cf_AdminAllowlist := map (the \<circ> parse_entry pf) (splitList (config_value lookup ''VITTS_ADMIN_IP_ALLOWLIST'' []))\<rparr>"
  have none: "find (\<lambda>e. parse_entry pf e = None) (splitList (config_value lookup ''VITTS_ADMIN_IP_ALLOWLIST'' [])) = None"
    and v: "validate_config pf ?cfg = Inr cfg"
    using assms by (simp_all add: config_Load_def parsePrefixes_spec refuse_def split: option.split_asm)
  then show cfg: "cfg = ?cfg" by (simp add: validate_as_checks first_failing_accepts)
  have "list_all (\<lambda>(_, ok, _). ok) (config_checks pf ?cfg)" using v by (simp add: validate_as_checks first_failing_accepts)
  then show "list_all snd (requirements pf lookup)"
    using none by (simp add: config_checks_def requirements_def initial_config_def config_consts find_None_iff list_all_iff)
qed

section \<open>Properties\<close>

text \<open>
  C14: the process boots exactly with a usable environment, and then its operator surface is closed. Loading
  fails only with the name of a variable whose requirement does not hold, and succeeds only when all hold. The guard
  built from the loaded configuration runs the handler of an operator request only when the request carries the
  configured key, of at least 32 bytes, and comes from an address inside an entry of the allowlist; every other request gets one problem
  document.
\<close>

theorem booted_gateway_guards_operators:
  assumes "unsent x"
  shows "case config_Load pf lookup of
      Inl e \<Rightarrow> (ce_Variable e, False) \<in> set (requirements pf lookup)
    | Inr cfg \<Rightarrow> list_all snd (requirements pf lookup) \<and> 32 \<le> length (cf_AdminKey cfg)
        \<and> gated (AdminMiddleware sha256 split_host parse_addr (NewAdminGuard sha256 (cf_AdminKey cfg) (cf_AdminAllowlist cfg))) r x
            (\<lambda>r' x'. r' = r \<and> x' = x \<and> sha256 (hr_Header r HeaderAdminKey) = sha256 (config_value lookup ''VITTS_ADMIN_KEY'' [])
              \<and> (\<exists>peer entry p. peerAddr split_host parse_addr r = Some peer
                  \<and> entry \<in> set (splitList (config_value lookup ''VITTS_ADMIN_IP_ALLOWLIST'' [])) \<and> parse_entry pf entry = Some p \<and> Contains p peer))"
proof (cases "config_Load pf lookup")
  case (Inl e)
  then show ?thesis using config_refused by simp
next
  case (Inr cfg)
  note ok = config_accepted [OF Inr]
  have key: "cf_AdminKey cfg = config_value lookup ''VITTS_ADMIN_KEY'' []" by (simp add: ok(1) initial_config_def)
  have long: "32 \<le> length (cf_AdminKey cfg)" using ok(2) key by (simp add: requirements_def)
  have parsed: "\<exists>entry \<in> set (splitList (config_value lookup ''VITTS_ADMIN_IP_ALLOWLIST'' [])). parse_entry pf entry = Some p"
    if "p \<in> set (cf_AdminAllowlist cfg)" for p
    using that ok by (auto simp: requirements_def list_all_iff)
  have "gated (AdminMiddleware sha256 split_host parse_addr (NewAdminGuard sha256 (cf_AdminKey cfg) (cf_AdminAllowlist cfg))) r x
      (\<lambda>r' x'. r' = r \<and> x' = x \<and> sha256 (hr_Header r HeaderAdminKey) = sha256 (config_value lookup ''VITTS_ADMIN_KEY'' [])
        \<and> (\<exists>peer entry p. peerAddr split_host parse_addr r = Some peer
            \<and> entry \<in> set (splitList (config_value lookup ''VITTS_ADMIN_IP_ALLOWLIST'' [])) \<and> parse_entry pf entry = Some p \<and> Contains p peer))"
    by (rule gated_weaken [OF admin_guard_admits [OF assms]]) (use parsed key in fastforce)
  then show ?thesis using Inr ok(2) long by simp
qed

text \<open>An environment with everything set, and one operator address.\<close>

definition example_environment :: "string \<Rightarrow> string option" where
  "example_environment = map_of [(''VITTS_DATABASE_URL'', ''postgres://db''), (''VITTS_ADMIN_KEY'', replicate 32 (CHR ''k'')),
     (''VITTS_WEBHOOK_SIGNING_SECRET'', replicate 32 (CHR ''w'')), (''VITTS_ADMIN_IP_ALLOWLIST'', ''127.0.0.1''), (''VITTS_REDIS_URL'', ''redis://r''),
     (''VITTS_S3_BUCKET'', ''audio''), (''VITTS_WORKER_ADDRS'', ''w1:50051'')]"

definition example_platform :: platform where
  "example_platform = \<lparr>pf_url = (\<lambda>_. Some \<lparr>pu_Scheme = ''http'', pu_Host = ''h'', pu_Path = [], pu_RawQuery = []\<rparr>), pf_prefix = (\<lambda>_. None),
     pf_addr = (\<lambda>s. if s = ''127.0.0.1'' then Some (V4 0x7F000001) else None), pf_lower = map ascii_lower, pf_quote = (\<lambda>s. s)\<rparr>"

lemma example_values:
  "config_value example_environment ''VITTS_ENV'' f = f" "config_value example_environment ''VITTS_LOG_LEVEL'' f = f"
  "config_value example_environment ''VITTS_DATABASE_URL'' f = ''postgres://db''" "config_value example_environment ''VITTS_ADMIN_KEY'' f = replicate 32 (CHR ''k'')"
  "config_value example_environment ''VITTS_WEBHOOK_SIGNING_SECRET'' f = replicate 32 (CHR ''w'')"
  "config_value example_environment ''VITTS_ADMIN_IP_ALLOWLIST'' f = ''127.0.0.1''" "config_value example_environment ''VITTS_REDIS_URL'' f = ''redis://r''"
  "config_value example_environment ''VITTS_S3_BUCKET'' f = ''audio''" "config_value example_environment ''VITTS_WORKER_ADDRS'' f = ''w1:50051''"
  "config_value example_environment ''VITTS_CONSOLE_ORIGIN'' f = f" "config_value example_environment ''OTEL_EXPORTER_OTLP_ENDPOINT'' f = f"
  by (simp_all add: config_value_def example_environment_def TrimSpace_plain plain_def IsSpace_def list_all_iff)

lemma example_lists: "splitList ''127.0.0.1'' = [''127.0.0.1'']" "splitList ''w1:50051'' = [''w1:50051'']" "splitList [] = []"
  by (simp_all add: splitList_def TrimSpace_plain plain_def IsSpace_def)

lemma example_environment_usable: "list_all snd (requirements example_platform example_environment)"
  by (simp add: requirements_def example_values example_lists example_platform_def parse_entry_def ascii_lower_def)

theorem booted_gateway_guards_operators_witness:
  "\<exists>cfg. config_Load example_platform example_environment = Inr cfg \<and> cf_AdminAllowlist cfg = [Prefix (V4 0x7F000001) 32]
    \<and> list_all snd (requirements example_platform example_environment)"
proof -
  have u: "unsent (\<lparr>x_writer = fresh_response, x_world = ()\<rparr> :: (unit, unit) exchange)" by (simp add: unsent_def fresh_response_def)
  obtain cfg where cfg: "config_Load example_platform example_environment = Inr cfg"
    using config_refused [of example_platform example_environment] example_environment_usable by (cases "config_Load example_platform example_environment") (auto simp: list_all_iff)
  have "cf_AdminAllowlist cfg = [Prefix (V4 0x7F000001) 32]"
    by (simp add: config_accepted(1) [OF cfg] example_values example_lists example_platform_def parse_entry_def)
  then show ?thesis using booted_gateway_guards_operators [OF u, of example_platform example_environment] cfg by auto
qed

end
