(* ===== verification/Job_Queue.thy ===== *)
theory Job_Queue
  imports Orchestrator
begin

text \<open>
  The work queue over Redis Streams (\<^verbatim>\<open>storage/redis/jobqueue.go\<close> and its adapter to the orchestrator's
  port, \<^verbatim>\<open>jobqueue_adapter.go\<close>). The server is a parameter, a record of the stream commands the queue
  sends; what the queue relies on is their documented effect on the entries of a stream and of its consumer group,
  stated as the locale \<open>stream_server\<close>. Waiting and idle times are arguments the server interprets.
\<close>

section \<open>Commands and messages\<close>

datatype stream_value = VString string | VInt64 int | VOther

record XMessage =
  xm_ID :: string
  xm_Values :: "string \<Rightarrow> stream_value option"

record 'w streams =
  XGroupCreateMkStream :: "string \<Rightarrow> string \<Rightarrow> ('w, string, unit) op"
  XAdd :: "string \<Rightarrow> nat \<Rightarrow> (string \<times> string) list \<Rightarrow> ('w, string, string) op"
  XReadGroup :: "string \<Rightarrow> string \<Rightarrow> string \<Rightarrow> nat \<Rightarrow> int \<Rightarrow> ('w, string, (string \<times> XMessage list) list) op"
  XAutoClaim :: "string \<Rightarrow> string \<Rightarrow> string \<Rightarrow> int \<Rightarrow> nat \<Rightarrow> ('w, string, XMessage list) op"
  XAck :: "string \<Rightarrow> string \<Rightarrow> string \<Rightarrow> ('w, string, int) op"

definition StreamJobsPending :: string where "StreamJobsPending = ''jobs:pending''"
definition StreamSegments :: string where "StreamSegments = ''jobs:segments''"
definition GroupOrchestrator :: string where "GroupOrchestrator = ''orchestrators''"
definition maxStreamLen :: nat where "maxStreamLen = 100000"

text \<open>The error the client library returns when nothing is waiting.\<close>

definition redis_Nil :: string where "redis_Nil = ''redis: nil''"

section \<open>Operations (\<^verbatim>\<open>jobqueue.go\<close>)\<close>

definition isBusyGroup :: "string \<Rightarrow> bool" where
  "isBusyGroup err \<longleftrightarrow> err = ''BUSYGROUP Consumer Group name already exists''"

fun ensure_groups :: "'w streams \<Rightarrow> string list \<Rightarrow> ('w, job_error, unit) op" where
  "ensure_groups S [] = returnE ()"
| "ensure_groups S (stream # rest) =
    catchE (XGroupCreateMkStream S stream GroupOrchestrator)
      (\<lambda>err. if \<not> isBusyGroup err then failE StorageFailed else ensure_groups S rest) (\<lambda>_. ensure_groups S rest)"

definition EnsureGroups :: "'w streams \<Rightarrow> ('w, job_error, unit) op" where
  "EnsureGroups S = ensure_groups S [StreamJobsPending, StreamSegments]"

definition queue_add :: "'w streams \<Rightarrow> string \<Rightarrow> (string \<times> string) list \<Rightarrow> ('w, job_error, unit) op" where
  "queue_add S stream values = catchE (XAdd S stream maxStreamLen values) (\<lambda>_. failE StorageFailed) (\<lambda>_. returnE ())"

definition Queue_Enqueue :: "'w streams \<Rightarrow> (uuid \<Rightarrow> string) \<Rightarrow> uuid \<Rightarrow> ('w, job_error, unit) op" where
  "Queue_Enqueue S us jobID = queue_add S StreamJobsPending [(''job_id'', us jobID)]"

definition Queue_EnqueueSegment :: "'w streams \<Rightarrow> (uuid \<Rightarrow> string) \<Rightarrow> uuid \<Rightarrow> int \<Rightarrow> ('w, job_error, unit) op" where
  "Queue_EnqueueSegment S us jobID seq = queue_add S StreamSegments [(''job_id'', us jobID), (''seq'', Itoa seq)]"

definition Queue_Ack :: "'w streams \<Rightarrow> string \<Rightarrow> string \<Rightarrow> ('w, job_error, unit) op" where
  "Queue_Ack S stream i = catchE (XAck S stream GroupOrchestrator i) (\<lambda>_. failE StorageFailed) (\<lambda>_. returnE ())"

text \<open>
  \<^verbatim>\<open>fmt.Sscanf(v, "%d", &parsed)\<close> into an \<^verbatim>\<open>int32\<close>: leading spaces but no newline, a sign, the longest
  run of digits, the range of the width; what follows is not looked at.
\<close>

definition Sscanf_int32 :: "string \<Rightarrow> int option" where
  "Sscanf_int32 v =
    (let t = concat (map snd (dropWhile (\<lambda>(r, _). IsSpace r \<and> r \<noteq> 10) (decode_runes v)));
         sg = (if t \<noteq> [] \<and> (hd t = CHR ''-'' \<or> hd t = CHR ''+'') then [hd t] else [])
     in ParseInt 32 (sg @ takeWhile is_digit (drop (length sg) t)))"

fun toInt32 :: "stream_value \<Rightarrow> int option" where
  "toInt32 (VString v) = Sscanf_int32 v"
| "toInt32 (VInt64 v) = (if MaxInt32 < v \<or> v < - MaxInt32 - 1 then None else Some v)"
| "toInt32 VOther = None"

record stream_entry =
  se_ID :: string
  se_JobID :: uuid
  se_Seq :: int
  se_Stream :: string

text \<open>\<open>parse\<close> is \<^verbatim>\<open>uuid.Parse\<close>.\<close>

definition toEntry :: "(string \<Rightarrow> uuid option) \<Rightarrow> string \<Rightarrow> XMessage \<Rightarrow> stream_entry option" where
  "toEntry parse stream message =
    (case xm_Values message ''job_id'' of
       Some (VString raw) \<Rightarrow>
         (case parse raw of
            None \<Rightarrow> None
          | Some jobID \<Rightarrow>
              Some \<lparr>se_ID = xm_ID message, se_JobID = jobID,
                se_Seq = (case Option.bind (xm_Values message ''seq'') toInt32 of None \<Rightarrow> 0 | Some parsed \<Rightarrow> parsed), se_Stream = stream\<rparr>)
     | _ \<Rightarrow> None)"

fun claim_messages :: "'w streams \<Rightarrow> (string \<Rightarrow> uuid option) \<Rightarrow> string \<Rightarrow> XMessage list \<Rightarrow> ('w, job_error, stream_entry list) op" where
  "claim_messages S parse stream [] = returnE []"
| "claim_messages S parse stream (message # messages) =
    (case toEntry parse stream message of
       None \<Rightarrow> bindE (ignoreE (Queue_Ack S stream (xm_ID message))) (\<lambda>_. claim_messages S parse stream messages)
     | Some entry \<Rightarrow> bindE (claim_messages S parse stream messages) (\<lambda>entries. returnE (entry # entries)))"

fun claim_streams :: "'w streams \<Rightarrow> (string \<Rightarrow> uuid option) \<Rightarrow> (string \<times> XMessage list) list \<Rightarrow> ('w, job_error, stream_entry list) op" where
  "claim_streams S parse [] = returnE []"
| "claim_streams S parse ((stream, messages) # rest) =
    bindE (claim_messages S parse stream messages) (\<lambda>entries. bindE (claim_streams S parse rest) (\<lambda>more. returnE (entries @ more)))"

definition claim :: "'w streams \<Rightarrow> (string \<Rightarrow> uuid option) \<Rightarrow> string \<Rightarrow> string \<Rightarrow> nat \<Rightarrow> int \<Rightarrow> ('w, job_error, stream_entry list) op" where
  "claim S parse stream consumer batch block =
    catchE (XReadGroup S GroupOrchestrator consumer stream batch block)
      (\<lambda>err. if err = redis_Nil then returnE [] else failE StorageFailed) (claim_streams S parse)"

definition claimStale :: "'w streams \<Rightarrow> (string \<Rightarrow> uuid option) \<Rightarrow> string \<Rightarrow> string \<Rightarrow> int \<Rightarrow> nat \<Rightarrow> ('w, job_error, stream_entry list) op" where
  "claimStale S parse stream consumer idle batch =
    catchE (XAutoClaim S stream GroupOrchestrator consumer idle batch) (\<lambda>_. failE StorageFailed)
      (\<lambda>messages. returnE (List.map_filter (toEntry parse stream) messages))"

section \<open>The orchestrator's port (\<^verbatim>\<open>jobqueue_adapter.go\<close>)\<close>

definition toJobEntries :: "stream_entry list \<Rightarrow> QueueEntry list" where
  "toJobEntries = map (\<lambda>e. \<lparr>qe_ID = se_ID e, qe_JobID = se_JobID e, qe_Seq = se_Seq e, qe_Stream = se_Stream e\<rparr>)"

definition Claim :: "'w streams \<Rightarrow> (string \<Rightarrow> uuid option) \<Rightarrow> string \<Rightarrow> string \<Rightarrow> nat \<Rightarrow> int \<Rightarrow> ('w, job_error, QueueEntry list) op" where
  "Claim S parse stream consumer batch block = bindE (claim S parse stream consumer batch block) (\<lambda>entries. returnE (toJobEntries entries))"

definition ClaimStale :: "'w streams \<Rightarrow> (string \<Rightarrow> uuid option) \<Rightarrow> string \<Rightarrow> string \<Rightarrow> int \<Rightarrow> nat \<Rightarrow> ('w, job_error, QueueEntry list) op" where
  "ClaimStale S parse stream consumer idle batch = bindE (claimStale S parse stream consumer idle batch) (\<lambda>entries. returnE (toJobEntries entries))"

section \<open>What the queue relies on\<close>

text \<open>
  The view of a stream that its group has: an entry, by its id, has its values and is not yet delivered, pending
  with a consumer, or acknowledged.
\<close>

datatype delivery = Fresh | Pending | Acked

text \<open>Deliveries are ordered: an entry is first new, then pending, then acknowledged.\<close>

instantiation delivery :: linorder
begin

fun delivery_rank :: "delivery \<Rightarrow> nat" where
  "delivery_rank Fresh = 0"
| "delivery_rank Pending = 1"
| "delivery_rank Acked = 2"

definition less_eq_delivery :: "delivery \<Rightarrow> delivery \<Rightarrow> bool" where
  "less_eq_delivery a b \<longleftrightarrow> delivery_rank a \<le> delivery_rank b"

definition less_delivery :: "delivery \<Rightarrow> delivery \<Rightarrow> bool" where
  "less_delivery a b \<longleftrightarrow> delivery_rank a < delivery_rank b"

instance
proof
  fix a b :: delivery
  show "a \<le> b \<Longrightarrow> b \<le> a \<Longrightarrow> a = b" by (cases a; cases b) (simp_all add: less_eq_delivery_def)
qed (auto simp: less_eq_delivery_def less_delivery_def)

end

type_synonym stream_view = "string \<Rightarrow> ((string \<Rightarrow> stream_value option) \<times> delivery) option"

definition values_of :: "(string \<times> string) list \<Rightarrow> string \<Rightarrow> stream_value option" where
  "values_of fs k = map_option VString (map_of fs k)"

definition mark :: "delivery \<Rightarrow> string set \<Rightarrow> stream_view \<Rightarrow> stream_view" where
  "mark d ids f i = (if i \<in> ids then map_option (\<lambda>(v, _). (v, d)) (f i) else f i)"

text \<open>
  A command whose reply was lost may have taken effect. Entries stay as long as the stream is shorter than the length
  \<^verbatim>\<open>XADD\<close> trims it to.
\<close>

locale stream_server =
  fixes S :: "'w streams"
    and view :: "'w \<Rightarrow> string \<Rightarrow> stream_view"
    and len :: "'w \<Rightarrow> string \<Rightarrow> nat"
  assumes group_frame: "XGroupCreateMkStream S st g w = (created, w') \<Longrightarrow> view w' = view w"
    and add_reply: "XAdd S st n fs w = (Inr i, w') \<Longrightarrow> len w st < n \<Longrightarrow>
      view w st i = None \<and> view w' = (view w)(st := (view w st)(i \<mapsto> (values_of fs, Fresh)))"
    and add_lost: "XAdd S st n fs w = (Inl e, w') \<Longrightarrow> len w st < n \<Longrightarrow>
      view w' = view w \<or> (\<exists>i. view w st i = None \<and> view w' = (view w)(st := (view w st)(i \<mapsto> (values_of fs, Fresh))))"
    and read_reply: "XReadGroup S g c st n b w = (Inr ss, w') \<Longrightarrow>
      \<exists>ms. ss = [(st, ms)] \<and> (\<forall>m \<in> set ms. view w st (xm_ID m) = Some (xm_Values m, Fresh))
        \<and> view w' = (view w)(st := mark Pending (xm_ID ` set ms) (view w st))"
    and read_lost: "XReadGroup S g c st n b w = (Inl e, w') \<Longrightarrow>
      \<exists>ids. (\<forall>i \<in> ids. \<exists>v. view w st i = Some (v, Fresh)) \<and> view w' = (view w)(st := mark Pending ids (view w st))"
    and steal_reply: "XAutoClaim S st g c idle n w = (Inr ms, w') \<Longrightarrow>
      (\<forall>m \<in> set ms. view w st (xm_ID m) = Some (xm_Values m, Pending)) \<and> view w' = view w"
    and steal_lost: "XAutoClaim S st g c idle n w = (Inl e, w') \<Longrightarrow> view w' = view w"
    and ack_effect: "XAck S st g i w = (acked, w') \<Longrightarrow>
      view w' = view w \<or> (\<exists>v. view w st i = Some (v, Pending) \<and> view w' = (view w)(st := mark Acked {i} (view w st)))"

section \<open>A server in memory\<close>

text \<open>The list of entries of each stream. It satisfies the laws, and the witness below evaluates on it.\<close>

type_synonym stream_memory = "string \<Rightarrow> (string \<times> (string \<Rightarrow> stream_value option) \<times> delivery) list"

definition in_state :: "delivery \<Rightarrow> (string \<times> (string \<Rightarrow> stream_value option) \<times> delivery) list \<Rightarrow> XMessage list" where
  "in_state d l = map (\<lambda>i. \<lparr>xm_ID = i, xm_Values = fst (the (map_of l i))\<rparr>) (filter (\<lambda>i. snd (the (map_of l i)) = d) (remdups (map fst l)))"

definition move :: "delivery \<Rightarrow> string set \<Rightarrow> (string \<times> (string \<Rightarrow> stream_value option) \<times> delivery) list
    \<Rightarrow> (string \<times> (string \<Rightarrow> stream_value option) \<times> delivery) list" where
  "move d ids l = map (\<lambda>(i, v, old). (i, v, if i \<in> ids then d else old)) l"

definition memory_streams :: "stream_memory streams" where
  "memory_streams = \<lparr>XGroupCreateMkStream = (\<lambda>st g. returnE ()),
     XAdd = (\<lambda>st n fs w. let i = replicate (Suc (sum_list (map (length \<circ> fst) (w st)))) (CHR ''0'') in (Inr i, w(st := w st @ [(i, values_of fs, Fresh)]))),
     XReadGroup = (\<lambda>g c st n b w. let ms = take n (in_state Fresh (w st))
       in if ms = [] then (Inl redis_Nil, w) else (Inr [(st, ms)], w(st := move Pending (xm_ID ` set ms) (w st)))),
     XAutoClaim = (\<lambda>st g c idle n w. (Inr (take n (in_state Pending (w st))), w)),
     XAck = (\<lambda>st g i w. if i \<in> xm_ID ` set (in_state Pending (w st)) then (Inr 1, w(st := move Acked {i} (w st))) else (Inr 0, w))\<rparr>"

definition memory_view :: "stream_memory \<Rightarrow> string \<Rightarrow> stream_view" where
  "memory_view w st = map_of (w st)"

lemma mark_none [simp]: "mark d {} f = f"
  by (simp add: mark_def fun_eq_iff)

lemma map_of_move: "map_of (move d ids l) = mark d ids (map_of l)"
  by (induction l) (auto simp: move_def mark_def fun_eq_iff)

lemma memory_view_move: "memory_view (w(st := move d ids (w st))) = (memory_view w)(st := mark d ids (memory_view w st))"
  by (auto simp: memory_view_def map_of_move fun_eq_iff)

lemma in_state_entry: "m \<in> set (in_state d l) \<Longrightarrow> map_of l (xm_ID m) = Some (xm_Values m, d)"
proof -
  assume "m \<in> set (in_state d l)"
  then obtain i where i: "i \<in> fst ` set l" "snd (the (map_of l i)) = d" "m = \<lparr>xm_ID = i, xm_Values = fst (the (map_of l i))\<rparr>"
    by (auto simp: in_state_def)
  then obtain v where "map_of l i = Some v" by (metis map_of_eq_None_iff option.exhaust)
  then show ?thesis using i by (cases v) simp
qed

lemma fresh_id: "map_of l (replicate (Suc (sum_list (map (length \<circ> fst) l))) c) = None"
proof -
  have "length (fst p) \<le> sum_list (map (length \<circ> fst) l)" if "p \<in> set l" for p
    using that member_le_sum_list [of "length (fst p)" "map (length \<circ> fst) l"] by auto
  then have "replicate (Suc (sum_list (map (length \<circ> fst) l))) c \<notin> fst ` set l"
    by (metis (no_types, lifting) Suc_n_not_le_n imageE length_replicate)
  then show ?thesis by (simp add: map_of_eq_None_iff del: replicate_Suc)
qed

interpretation memory: stream_server memory_streams memory_view "\<lambda>w st. length (w st)"
proof unfold_locales
  fix st n fs w i w'
  assume "XAdd memory_streams st n fs w = (Inr i, w')"
  then have *: "map_of (w st) i = None" "w' = w(st := w st @ [(i, values_of fs, Fresh)])"
    by (auto simp: memory_streams_def Let_def fresh_id simp del: replicate_Suc)
  then show "memory_view w st i = None \<and> memory_view w' = (memory_view w)(st := (memory_view w st)(i \<mapsto> (values_of fs, Fresh)))"
    by (auto simp: memory_view_def fun_eq_iff map_add_def split: option.splits)
next
  fix g c st n b w ss w'
  assume "XReadGroup memory_streams g c st n b w = (Inr ss, w')"
  then show "\<exists>ms. ss = [(st, ms)] \<and> (\<forall>m \<in> set ms. memory_view w st (xm_ID m) = Some (xm_Values m, Fresh))
      \<and> memory_view w' = (memory_view w)(st := mark Pending (xm_ID ` set ms) (memory_view w st))"
    by (auto simp: memory_streams_def Let_def memory_view_move memory_view_def [of w st] dest!: in_set_takeD in_state_entry split: if_splits)
next
  fix g c st n b w e w'
  assume "XReadGroup memory_streams g c st n b w = (Inl e, w')"
  then show "\<exists>ids. (\<forall>i \<in> ids. \<exists>v. memory_view w st i = Some (v, Fresh)) \<and> memory_view w' = (memory_view w)(st := mark Pending ids (memory_view w st))"
    by (intro exI [of _ "{}"]) (auto simp: memory_streams_def Let_def split: if_splits)
next
  fix st g i w r w'
  assume "XAck memory_streams st g i w = (r, w')"
  then show "memory_view w' = memory_view w \<or> (\<exists>v. memory_view w st i = Some (v, Pending) \<and> memory_view w' = (memory_view w)(st := mark Acked {i} (memory_view w st)))"
    by (auto simp: memory_streams_def memory_view_move memory_view_def [of w st] dest!: in_state_entry split: if_splits)
qed (auto simp: memory_streams_def go_simps memory_view_def Let_def dest!: in_set_takeD in_state_entry)

section \<open>Runs of the queue\<close>

text \<open>
  What producers and consumers do to the queue, in order: an enqueue of a job or a segment and whether it was answered; the entries a claim
  or a takeover handed to a consumer; the acknowledgement of an entry. The orchestrators acknowledge what
  they were handed (\<^verbatim>\<open>handle_entries\<close>); a consumer that dies acknowledges nothing.
\<close>

datatype queue_event = Enqueued string uuid int bool | Handed string "QueueEntry list" | Acknowledged string string

definition handed :: "string \<Rightarrow> job_error + QueueEntry list \<Rightarrow> queue_event list" where
  "handed st r = (case r of Inl _ \<Rightarrow> [] | Inr es \<Rightarrow> [Handed st es])"

inductive queue_run :: "'w streams \<Rightarrow> (uuid \<Rightarrow> string) \<Rightarrow> (string \<Rightarrow> uuid option) \<Rightarrow> ('w \<Rightarrow> string \<Rightarrow> nat) \<Rightarrow> 'w \<Rightarrow> queue_event list \<Rightarrow> 'w \<Rightarrow> bool"
  for S us parse len w0 where
  started: "queue_run S us parse len w0 [] w0"
| ensured: "queue_run S us parse len w0 tr w \<Longrightarrow> EnsureGroups S w = (r, w') \<Longrightarrow> queue_run S us parse len w0 tr w'"
| enqueued: "queue_run S us parse len w0 tr w \<Longrightarrow> len w StreamJobsPending < maxStreamLen \<Longrightarrow> Queue_Enqueue S us j w = (r, w')
    \<Longrightarrow> queue_run S us parse len w0 (tr @ [Enqueued StreamJobsPending j 0 (r = Inr ())]) w'"
| enqueued_segment: "queue_run S us parse len w0 tr w \<Longrightarrow> len w StreamSegments < maxStreamLen \<Longrightarrow> - (2 ^ 31) \<le> q \<Longrightarrow> q < 2 ^ 31
    \<Longrightarrow> Queue_EnqueueSegment S us j q w = (r, w') \<Longrightarrow> queue_run S us parse len w0 (tr @ [Enqueued StreamSegments j q (r = Inr ())]) w'"
| claimed: "queue_run S us parse len w0 tr w \<Longrightarrow> Claim S parse st consumer n block w = (r, w')
    \<Longrightarrow> queue_run S us parse len w0 (tr @ handed st r) w'"
| claimed_stale: "queue_run S us parse len w0 tr w \<Longrightarrow> ClaimStale S parse st consumer idle n w = (r, w')
    \<Longrightarrow> queue_run S us parse len w0 (tr @ handed st r) w'"
| acknowledged: "queue_run S us parse len w0 tr w \<Longrightarrow> Handed st es \<in> set tr \<Longrightarrow> e \<in> set es \<Longrightarrow> Queue_Ack S st (qe_ID e) w = (r, w')
    \<Longrightarrow> queue_run S us parse len w0 (tr @ [Acknowledged st (qe_ID e)]) w'"

text \<open>The job and segment an entry stands for, the entries of a stream that stand for one, and the enqueues of it.\<close>

definition work_of :: "(string \<Rightarrow> uuid option) \<Rightarrow> string \<Rightarrow> string \<Rightarrow> (string \<Rightarrow> stream_value option) \<Rightarrow> (uuid \<times> int) option" where
  "work_of parse st i v = map_option (\<lambda>e. (se_JobID e, se_Seq e)) (toEntry parse st \<lparr>xm_ID = i, xm_Values = v\<rparr>)"

definition entries_for :: "(string \<Rightarrow> uuid option) \<Rightarrow> string \<Rightarrow> stream_view \<Rightarrow> uuid \<times> int \<Rightarrow> string set" where
  "entries_for parse st f c = {i. \<exists>v d. f i = Some (v, d) \<and> work_of parse st i v = Some c}"

definition attempts :: "queue_event list \<Rightarrow> string \<Rightarrow> uuid \<times> int \<Rightarrow> nat" where
  "attempts tr st c = length (filter (\<lambda>ev. ev = Enqueued st (fst c) (snd c) True \<or> ev = Enqueued st (fst c) (snd c) False) tr)"

definition successes :: "queue_event list \<Rightarrow> string \<Rightarrow> uuid \<times> int \<Rightarrow> nat" where
  "successes tr st c = length (filter (\<lambda>ev. ev = Enqueued st (fst c) (snd c) True) tr)"

section \<open>Round trips\<close>

lemma Itoa_plain: "list_all plain (Itoa n)"
  using Itoa_chars [of _ n] by (fastforce simp: list_all_iff plain_def IsSpace_def)

lemma Sscanf_Itoa: "- (2 ^ 31) \<le> n \<Longrightarrow> n < 2 ^ 31 \<Longrightarrow> Sscanf_int32 (Itoa n) = Some n"
proof -
  assume r: "- (2 ^ 31) \<le> n" "n < 2 ^ 31"
  have d: "dropWhile (\<lambda>(r, _). IsSpace r \<and> r \<noteq> 10) (decode_runes (Itoa n)) = decode_runes (Itoa n)"
    using Itoa_plain [of n] by (intro dropWhile_id) (auto simp: decode_runes_plain plain_def list_all_iff)
  have digits: "takeWhile is_digit (dec m) = dec m" for m using dec_all_digits [of m] by (simp add: list_all_iff)
  have "(let sg = (if Itoa n \<noteq> [] \<and> (hd (Itoa n) = CHR ''-'' \<or> hd (Itoa n) = CHR ''+'') then [hd (Itoa n)] else [])
      in ParseInt 32 (sg @ takeWhile is_digit (drop (length sg) (Itoa n)))) = ParseInt 32 (Itoa n)"
    using dec_hd [of "nat n"] by (cases "n < 0") (simp_all add: Let_def Itoa_def digits)
  moreover have "ParseInt 32 (Itoa n) = Some n" using ParseInt_Itoa [of 32 n] r by simp
  ultimately show ?thesis by (simp only: Sscanf_int32_def d decode_runes_concat Let_def)
qed

lemma work_of_job: "parse (us j) = Some j \<Longrightarrow> work_of parse st i (values_of [(''job_id'', us j)]) = Some (j, 0)"
  by (simp add: work_of_def toEntry_def values_of_def)

lemma work_of_segment:
  "parse (us j) = Some j \<Longrightarrow> - (2 ^ 31) \<le> q \<Longrightarrow> q < 2 ^ 31 \<Longrightarrow> work_of parse st i (values_of [(''job_id'', us j), (''seq'', Itoa q)]) = Some (j, q)"
  by (simp add: work_of_def toEntry_def values_of_def Sscanf_Itoa del: power_numeral)

section \<open>The work a queue holds\<close>

text \<open>
  Between two states the entries are the same, and no entry that stands for work was newly acknowledged: what every claim, takeover and group
  creation keeps.
\<close>

definition same_work :: "(string \<Rightarrow> uuid option) \<Rightarrow> (string \<Rightarrow> stream_view) \<Rightarrow> (string \<Rightarrow> stream_view) \<Rightarrow> bool" where
  "same_work parse f g \<longleftrightarrow> (\<forall>st i. map_option fst (g st i) = map_option fst (f st i)
     \<and> (\<forall>v. g st i = Some (v, Acked) \<longrightarrow> f st i = Some (v, Acked) \<or> work_of parse st i v = None))"

lemma same_work_refl [simp]: "same_work parse f f"
  by (simp add: same_work_def)

lemma same_work_trans: "same_work parse f g \<Longrightarrow> same_work parse g h \<Longrightarrow> same_work parse f h"
  unfolding same_work_def by metis

lemma same_work_mark: "d \<noteq> Acked \<Longrightarrow> same_work parse f (f(st := mark d ids (f st)))"
  by (auto simp: same_work_def mark_def option.map_comp comp_def split_def map_option_case split: option.splits)

lemma same_work_entries: "same_work parse f g \<Longrightarrow> entries_for parse st (g st) c = entries_for parse st (f st) c"
proof -
  assume s: "same_work parse f g"
  have same: "map_option fst (g st i) = map_option fst (f st i)" for i using s by (simp add: same_work_def)
  have "(\<exists>d. g st i = Some (v, d)) \<longleftrightarrow> (\<exists>d. f st i = Some (v, d))" for i v
    using same [of i] by (cases "g st i"; cases "f st i") auto
  then show ?thesis unfolding entries_for_def by blast
qed

lemma entries_for_new:
  "f i = None \<Longrightarrow> entries_for parse st (f(i \<mapsto> (v, d))) c = (if work_of parse st i v = Some c then insert i (entries_for parse st f c) else entries_for parse st f c)"
  by (auto simp: entries_for_def)

lemma entries_for_same: "entries_for parse st (mark d ids f) c = entries_for parse st f c"
  by (auto simp: entries_for_def mark_def map_option_case split: option.splits if_splits)

lemma handed_entries:
  assumes "e \<in> set (toJobEntries (List.map_filter (toEntry parse st) ms))" and "\<forall>m \<in> set ms. f (xm_ID m) = Some (xm_Values m, d)"
  shows "qe_Stream e = st \<and> qe_ID e \<in> entries_for parse st f (qe_JobID e, qe_Seq e)"
proof -
  obtain m x where m: "m \<in> set ms" "toEntry parse st m = Some x"
    and e: "e = \<lparr>qe_ID = se_ID x, qe_JobID = se_JobID x, qe_Seq = se_Seq x, qe_Stream = se_Stream x\<rparr>"
    using assms(1) by (auto simp: toJobEntries_def map_filter_def)
  have x: "se_ID x = xm_ID m" "se_Stream x = st"
    using m(2) by (auto simp: toEntry_def split: option.splits stream_value.splits)
  have "work_of parse st (xm_ID m) (xm_Values m) = Some (se_JobID x, se_Seq x)" using m(2) by (cases m) (simp add: work_of_def)
  then show ?thesis using assms(2) m(1) x e by (auto simp: entries_for_def)
qed

text \<open>How a view evolves: no entry disappears or changes its values, and its delivery only advances.\<close>

definition advances :: "(string \<Rightarrow> stream_view) \<Rightarrow> (string \<Rightarrow> stream_view) \<Rightarrow> bool" where
  "advances f g \<longleftrightarrow> (\<forall>st i v d. f st i = Some (v, d) \<longrightarrow> (\<exists>d' \<ge> d. g st i = Some (v, d')))"

lemma advances_refl [simp]: "advances f f"
  by (auto simp: advances_def)

lemma advances_trans: "advances f g \<Longrightarrow> advances g h \<Longrightarrow> advances f h"
  unfolding advances_def by (meson order_trans)

lemma advances_mark: "(\<And>i v e. i \<in> ids \<Longrightarrow> f st i = Some (v, e) \<Longrightarrow> e \<le> d) \<Longrightarrow> advances f (f(st := mark d ids (f st)))"
  by (auto simp: advances_def mark_def)

lemma advances_new: "f st i = None \<Longrightarrow> advances f (f(st := (f st)(i \<mapsto> x)))"
  by (auto simp: advances_def)

sublocale stream_server \<subseteq> deliveries: state_order "\<lambda>w w'. advances (view w) (view w')"
  by unfold_locales (auto intro: advances_trans)

context stream_server
begin

text \<open>Every command but \<^verbatim>\<open>XADD\<close>, which may trim, advances the view, and so does what the queue makes of them.\<close>

lemma commands_advance:
  "keeps (\<lambda>w w'. advances (view w) (view w')) (XGroupCreateMkStream S st g)" "keeps (\<lambda>w w'. advances (view w) (view w')) (XReadGroup S g c st n b)"
  "keeps (\<lambda>w w'. advances (view w) (view w')) (XAutoClaim S st g c idle n)" "keeps (\<lambda>w w'. advances (view w) (view w')) (XAck S st g i)"
proof -
  have late: "e \<le> Acked" "Fresh \<le> e" for e by (cases e; simp add: less_eq_delivery_def)+
  show "keeps (\<lambda>w w'. advances (view w) (view w')) (XGroupCreateMkStream S st g)" unfolding keeps_def by (metis advances_refl group_frame prod.collapse)
  show "keeps (\<lambda>w w'. advances (view w) (view w')) (XAutoClaim S st g c idle n)"
    unfolding keeps_def by (metis advances_refl prod.collapse steal_lost steal_reply sum.exhaust)
  show "keeps (\<lambda>w w'. advances (view w) (view w')) (XAck S st g i)" unfolding keeps_def
  proof
    fix w
    show "advances (view w) (view (snd (XAck S st g i w)))" using ack_effect [of st g i w] late by (cases "XAck S st g i w") (auto intro!: advances_mark)
  qed
  show "keeps (\<lambda>w w'. advances (view w) (view w')) (XReadGroup S g c st n b)" unfolding keeps_def
  proof
    fix w
    obtain q w' where q: "XReadGroup S g c st n b w = (q, w')" by fastforce
    have "\<exists>ids. (\<forall>i \<in> ids. \<exists>v. view w st i = Some (v, Fresh)) \<and> view w' = (view w)(st := mark Pending ids (view w st))"
    proof (cases q)
      case (Inl e)
      show ?thesis by (rule read_lost [OF q [unfolded Inl]])
    next
      case (Inr ss)
      obtain ms :: "XMessage list" where "\<forall>m \<in> set ms. view w st (xm_ID m) = Some (xm_Values m, Fresh)"
        "view w' = (view w)(st := mark Pending (xm_ID ` set ms) (view w st))" using read_reply [OF q [unfolded Inr]] by blast
      then show ?thesis by (intro exI [of _ "xm_ID ` set ms"]) auto
    qed
    then show "advances (view w) (view (snd (XReadGroup S g c st n b w)))" using q late(2) by (auto intro!: advances_mark) (metis Pair_inject option.inject)
  qed
qed

lemma queue_advances:
  "keeps (\<lambda>w w'. advances (view w) (view w')) (Queue_Ack S st i)" "keeps (\<lambda>w w'. advances (view w) (view w')) (EnsureGroups S)"
  "keeps (\<lambda>w w'. advances (view w) (view w')) (Claim S parse st c n b)" "keeps (\<lambda>w w'. advances (view w) (view w')) (ClaimStale S parse st c idle n)"
proof -
  show ack: "keeps (\<lambda>w w'. advances (view w) (view w')) (Queue_Ack S st i)" for st i
    unfolding Queue_Ack_def by (intro deliveries.keeps_catchE deliveries.keeps_failE deliveries.keeps_returnE commands_advance)
  have "keeps (\<lambda>w w'. advances (view w) (view w')) (ensure_groups S sts)" for sts
    by (induction sts) (auto intro!: deliveries.keeps_catchE deliveries.keeps_failE deliveries.keeps_returnE commands_advance)
  then show "keeps (\<lambda>w w'. advances (view w) (view w')) (EnsureGroups S)" by (simp only: EnsureGroups_def)
  have "keeps (\<lambda>w w'. advances (view w) (view w')) (claim_messages S parse st ms)" for st ms
    by (induction ms) (auto intro!: deliveries.keeps_bindE deliveries.keeps_ignoreE deliveries.keeps_returnE ack split: option.split)
  then have "keeps (\<lambda>w w'. advances (view w) (view w')) (claim_streams S parse ss)" for ss
    by (induction ss) (auto intro!: deliveries.keeps_bindE deliveries.keeps_returnE)
  then show "keeps (\<lambda>w w'. advances (view w) (view w')) (Claim S parse st c n b)"
    unfolding Claim_def claim_def
    by (intro deliveries.keeps_bindE deliveries.keeps_catchE deliveries.keeps_if deliveries.keeps_failE deliveries.keeps_returnE commands_advance)
  show "keeps (\<lambda>w w'. advances (view w) (view w')) (ClaimStale S parse st c idle n)"
    unfolding ClaimStale_def claimStale_def
    by (intro deliveries.keeps_bindE deliveries.keeps_catchE deliveries.keeps_failE deliveries.keeps_returnE commands_advance)
qed

lemma Queue_Ack_effect:
  assumes "Queue_Ack S st i w = (r, w')"
  shows "view w' = view w \<or> (\<exists>v. view w st i = Some (v, Pending) \<and> view w' = (view w)(st := mark Acked {i} (view w st)))"
  using assms ack_effect [of st GroupOrchestrator i w]
  by (auto simp: Queue_Ack_def go_simps split: prod.splits sum.splits)

lemma malformed_acked:
  assumes "Queue_Ack S st i w = (r, w')" and "map_option fst (view w st i) = Some v" and "work_of parse st i v = None"
  shows "same_work parse (view w) (view w')"
  using Queue_Ack_effect [OF assms(1)] assms(2,3)
  by (auto simp: same_work_def mark_def map_option_case split: option.splits if_splits)

lemma claim_messages_effect:
  assumes "claim_messages S parse st ms w = (r, w')" and "\<forall>m \<in> set ms. map_option fst (view w st (xm_ID m)) = Some (xm_Values m)"
  shows "r = Inr (List.map_filter (toEntry parse st) ms) \<and> same_work parse (view w) (view w')"
  using assms
proof (induction ms arbitrary: w r w')
  case Nil
  then show ?case by (simp add: go_simps)
next
  case (Cons m ms)
  show ?case
  proof (cases "toEntry parse st m")
    case None
    obtain r1 w1 where 1: "Queue_Ack S st (xm_ID m) w = (r1, w1)" by fastforce
    have "work_of parse st (xm_ID m) (xm_Values m) = None" using None by (cases m) (simp add: work_of_def)
    with malformed_acked [OF 1] Cons.prems(2) have s: "same_work parse (view w) (view w1)" by simp
    then have "\<forall>m \<in> set ms. map_option fst (view w1 st (xm_ID m)) = Some (xm_Values m)"
      using Cons.prems(2) by (simp add: same_work_def)
    moreover have "claim_messages S parse st ms w1 = (r, w')"
      using Cons.prems(1) None 1 by (auto simp: go_simps split: prod.splits sum.splits)
    ultimately show ?thesis using Cons.IH [of w1 r w'] s None same_work_trans by (auto simp: map_filter_simps)
  next
    case (Some e)
    obtain r1 w1 where 1: "claim_messages S parse st ms w = (r1, w1)" by fastforce
    show ?thesis using Cons.IH [OF 1] Cons.prems Some 1 by (auto simp: go_simps map_filter_simps)
  qed
qed

lemma Claim_effect:
  assumes "Claim S parse st c n b w = (r, w')"
  shows "same_work parse (view w) (view w')"
    and "r = Inr es \<Longrightarrow> e \<in> set es \<Longrightarrow> qe_Stream e = st \<and> qe_ID e \<in> entries_for parse st (view w st) (qe_JobID e, qe_Seq e)"
proof -
  obtain q w1 where q: "XReadGroup S GroupOrchestrator c st n b w = (q, w1)" by fastforce
  have "same_work parse (view w) (view w')
    \<and> (\<forall>es. r = Inr es \<longrightarrow> (\<forall>e \<in> set es. qe_Stream e = st \<and> qe_ID e \<in> entries_for parse st (view w st) (qe_JobID e, qe_Seq e)))"
  proof (cases q)
    case (Inl err)
    with q read_lost same_work_mark [of Pending parse "view w" st] have "same_work parse (view w) (view w1)" by fastforce
    moreover have "w' = w1" and "r = Inr [] \<or> r = Inl StorageFailed"
      using assms q Inl by (auto simp: Claim_def claim_def go_simps toJobEntries_def split: if_splits)
    ultimately show ?thesis by auto
  next
    case (Inr ss)
    with q read_reply obtain ms where ms: "ss = [(st, ms)]" "\<forall>m \<in> set ms. view w st (xm_ID m) = Some (xm_Values m, Fresh)"
        "view w1 = (view w)(st := mark Pending (xm_ID ` set ms) (view w st))" by blast
    obtain r2 w2 where 2: "claim_messages S parse st ms w1 = (r2, w2)" by fastforce
    have r2: "r2 = Inr (List.map_filter (toEntry parse st) ms)" "same_work parse (view w1) (view w2)"
      using claim_messages_effect [OF 2] ms by (auto simp: mark_def)
    then have "same_work parse (view w) (view w2)" using ms(3) same_work_mark same_work_trans by (metis delivery.distinct(5))
    moreover have "w' = w2" "r = Inr (toJobEntries (List.map_filter (toEntry parse st) ms))"
      using assms q Inr ms(1) 2 r2(1) by (auto simp: Claim_def claim_def go_simps)
    ultimately show ?thesis using ms(2) handed_entries by blast
  qed
  then show "same_work parse (view w) (view w')"
    and "r = Inr es \<Longrightarrow> e \<in> set es \<Longrightarrow> qe_Stream e = st \<and> qe_ID e \<in> entries_for parse st (view w st) (qe_JobID e, qe_Seq e)" by auto
qed

lemma ClaimStale_effect:
  assumes "ClaimStale S parse st c idle n w = (r, w')"
  shows "view w' = view w"
    and "r = Inr es \<Longrightarrow> e \<in> set es \<Longrightarrow> qe_Stream e = st \<and> qe_ID e \<in> entries_for parse st (view w st) (qe_JobID e, qe_Seq e)"
proof -
  obtain q w1 where q: "XAutoClaim S st GroupOrchestrator c idle n w = (q, w1)" by fastforce
  show "view w' = view w"
    using assms q steal_reply steal_lost by (cases q) (auto simp: ClaimStale_def claimStale_def go_simps)
  assume r: "r = Inr es" "e \<in> set es"
  then obtain ms where ms: "q = Inr ms" "es = toJobEntries (List.map_filter (toEntry parse st) ms)"
    using assms q by (cases q) (auto simp: ClaimStale_def claimStale_def go_simps)
  then have "\<forall>m \<in> set ms. view w st (xm_ID m) = Some (xm_Values m, Pending)" using q steal_reply by blast
  then show "qe_Stream e = st \<and> qe_ID e \<in> entries_for parse st (view w st) (qe_JobID e, qe_Seq e)"
    using handed_entries r(2) ms(2) by blast
qed

lemma queue_add_effect:
  assumes "queue_add S st fs w = (r, w')" and "len w st < maxStreamLen"
  shows "r \<noteq> Inr () \<and> view w' = view w \<or> (\<exists>i. view w st i = None \<and> view w' = (view w)(st := (view w st)(i \<mapsto> (values_of fs, Fresh))))"
proof -
  obtain q w1 where q: "XAdd S st maxStreamLen fs w = (q, w1)" by fastforce
  show ?thesis
  proof (cases q)
    case (Inl e)
    with q assms have "w' = w1" "r = Inl StorageFailed" by (auto simp: queue_add_def go_simps)
    then show ?thesis using q Inl add_lost assms(2) by blast
  next
    case (Inr i)
    with q assms have "w' = w1" by (auto simp: queue_add_def go_simps)
    then show ?thesis using q Inr add_reply assms(2) by blast
  qed
qed

lemma EnsureGroups_effect: "EnsureGroups S w = (r, w') \<Longrightarrow> view w' = view w"
proof -
  have "ensure_groups S sts w = (r, w') \<Longrightarrow> view w' = view w" for sts w
    by (induction sts arbitrary: w) (auto simp: go_simps dest: group_frame split: prod.splits sum.splits if_splits)
  then show "EnsureGroups S w = (r, w') \<Longrightarrow> view w' = view w" by (simp only: EnsureGroups_def)
qed

end

section \<open>The invariant of a run\<close>

definition queue_inv :: "(string \<Rightarrow> uuid option) \<Rightarrow> (string \<Rightarrow> stream_view) \<Rightarrow> queue_event list \<Rightarrow> bool" where
  "queue_inv parse f tr \<longleftrightarrow>
    (\<forall>st c. finite (entries_for parse st (f st) c) \<and> successes tr st c \<le> card (entries_for parse st (f st) c) \<and> card (entries_for parse st (f st) c) \<le> attempts tr st c)
    \<and> (\<forall>st i v. f st i = Some (v, Acked) \<longrightarrow> work_of parse st i v = None \<or> Acknowledged st i \<in> set tr)
    \<and> (\<forall>st es e. Handed st es \<in> set tr \<longrightarrow> e \<in> set es \<longrightarrow> qe_Stream e = st \<and> qe_ID e \<in> entries_for parse st (f st) (qe_JobID e, qe_Seq e))
    \<and> (\<forall>st i. Acknowledged st i \<in> set tr \<longrightarrow> (\<exists>es. Handed st es \<in> set tr \<and> i \<in> qe_ID ` set es))"

lemma queue_inv_start: "\<forall>st i. f st i = None \<Longrightarrow> queue_inv parse f []"
  by (simp add: queue_inv_def entries_for_def successes_def attempts_def)

lemma queue_inv_same: "queue_inv parse f tr \<Longrightarrow> same_work parse f g \<Longrightarrow> queue_inv parse g tr"
proof -
  assume i: "queue_inv parse f tr" and s: "same_work parse f g"
  have "entries_for parse st (g st) c = entries_for parse st (f st) c" for st c by (rule same_work_entries [OF s])
  moreover have "work_of parse st i v = None \<or> Acknowledged st i \<in> set tr" if "g st i = Some (v, Acked)" for st i v
    using that i s unfolding queue_inv_def same_work_def by blast
  ultimately show ?thesis using i unfolding queue_inv_def by simp
qed

lemma counts_other [simp]:
  "successes (tr @ [Handed st es]) st' c = successes tr st' c" "attempts (tr @ [Handed st es]) st' c = attempts tr st' c"
  "successes (tr @ [Acknowledged st i]) st' c = successes tr st' c" "attempts (tr @ [Acknowledged st i]) st' c = attempts tr st' c"
  by (simp_all add: successes_def attempts_def)

lemma counts_enqueued [simp]:
  "successes (tr @ [Enqueued st j q ok]) st' c = successes tr st' c + (if st' = st \<and> c = (j, q) \<and> ok then 1 else 0)"
  "attempts (tr @ [Enqueued st j q ok]) st' c = attempts tr st' c + (if st' = st \<and> c = (j, q) then 1 else 0)"
  by (cases c; cases ok; auto simp: successes_def attempts_def)+

lemma queue_inv_handed:
  assumes "queue_inv parse f tr" and "\<And>es e. r = Inr es \<Longrightarrow> e \<in> set es \<Longrightarrow> qe_Stream e = st \<and> qe_ID e \<in> entries_for parse st (f st) (qe_JobID e, qe_Seq e)"
  shows "queue_inv parse f (tr @ handed st r)"
  using assms unfolding queue_inv_def handed_def by (cases r) (simp, simp, blast)

lemma queue_inv_refused: "queue_inv parse f tr \<Longrightarrow> queue_inv parse f (tr @ [Enqueued st j q False])"
  unfolding queue_inv_def by (auto simp: le_SucI)

lemma queue_inv_added:
  assumes "queue_inv parse f tr" and "f st i = None" and "work_of parse st i v = Some (j, q)"
  shows "queue_inv parse (f(st := (f st)(i \<mapsto> (v, Fresh)))) (tr @ [Enqueued st j q ok])"
proof -
  let ?g = "f(st := (f st)(i \<mapsto> (v, Fresh)))"
  have new: "entries_for parse s (?g s) c = (if s = st \<and> c = (j, q) then insert i (entries_for parse s (f s) c) else entries_for parse s (f s) c)" for s c
    using assms(2,3) by (simp add: entries_for_new)
  have notin: "i \<notin> entries_for parse st (f st) (j, q)" using assms(2) by (simp add: entries_for_def)
  have old: "finite (entries_for parse s (f s) c)" "successes tr s c \<le> card (entries_for parse s (f s) c)"
    "card (entries_for parse s (f s) c) \<le> attempts tr s c" for s c
    using assms(1) unfolding queue_inv_def by blast+
  have counts: "finite (entries_for parse s (?g s) c) \<and> successes (tr @ [Enqueued st j q ok]) s c \<le> card (entries_for parse s (?g s) c)
      \<and> card (entries_for parse s (?g s) c) \<le> attempts (tr @ [Enqueued st j q ok]) s c" for s c
    using old [of s c] notin unfolding new by (auto simp: le_SucI)
  have acked: "f s k = Some (u, Acked)" if "?g s k = Some (u, Acked)" for s k u
    using that by (auto split: if_splits)
  have old_ack: "work_of parse s k u = None \<or> Acknowledged s k \<in> set tr" if "f s k = Some (u, Acked)" for s k u
    using that assms(1) unfolding queue_inv_def by blast
  have kept: "k \<in> entries_for parse s (?g s) c" if "k \<in> entries_for parse s (f s) c" for s c k
    using that unfolding new by auto
  show ?thesis unfolding queue_inv_def
  proof (intro conjI allI impI)
    fix s k u assume "?g s k = Some (u, Acked)"
    then show "work_of parse s k u = None \<or> Acknowledged s k \<in> set (tr @ [Enqueued st j q ok])"
      using old_ack [OF acked] by auto
  qed (use counts kept assms(1) in \<open>auto simp: queue_inv_def\<close>)
qed

lemma queue_inv_acked:
  assumes "queue_inv parse f tr" and "Handed st es \<in> set tr" and "e \<in> set es" and "g = f \<or> g = f(st := mark Acked {qe_ID e} (f st))"
  shows "queue_inv parse g (tr @ [Acknowledged st (qe_ID e)])"
proof -
  have "entries_for parse s (g s) c = entries_for parse s (f s) c" for s c using assms(4) by (cases "s = st") (auto simp: entries_for_same)
  moreover have "g s i = Some (v, Acked) \<Longrightarrow> f s i = Some (v, Acked) \<or> s = st \<and> i = qe_ID e" for s i v
    using assms(4) by (auto simp: mark_def split: if_splits)
  ultimately show ?thesis using assms(1-3) unfolding queue_inv_def by simp blast
qed

context stream_server
begin

lemma enqueue_inv:
  assumes "queue_inv parse (view w) tr" and "queue_add S st fs w = (r, w')" and "len w st < maxStreamLen"
    and "\<And>i. work_of parse st i (values_of fs) = Some (j, q)"
  shows "queue_inv parse (view w') (tr @ [Enqueued st j q (r = Inr ())])"
  using queue_add_effect [OF assms(2,3)]
proof
  assume "r \<noteq> Inr () \<and> view w' = view w"
  then show ?thesis using queue_inv_refused [OF assms(1)] by simp
next
  assume "\<exists>i. view w st i = None \<and> view w' = (view w)(st := (view w st)(i \<mapsto> (values_of fs, Fresh)))"
  then obtain i where i: "view w st i = None" "view w' = (view w)(st := (view w st)(i \<mapsto> (values_of fs, Fresh)))" by blast
  show ?thesis using queue_inv_added [where f = "view w" and ok = "r = Inr ()", OF assms(1) i(1) assms(4)] i(2) by simp
qed

lemma run_inv:
  assumes "queue_run S us parse len w tr w'" and uuids: "\<And>i. parse (us i) = Some i" and "\<forall>st i. view w st i = None"
  shows "queue_inv parse (view w') tr"
  using assms(1)
proof (induction rule: queue_run.induct)
  case started
  then show ?case using assms(3) queue_inv_start by blast
next
  case (ensured tr w r w')
  then show ?case using EnsureGroups_effect by metis
next
  case (enqueued tr w j r w')
  show ?case
    by (rule enqueue_inv [OF enqueued.IH enqueued.hyps(3) [unfolded Queue_Enqueue_def] enqueued.hyps(2)]) (rule work_of_job [of parse us j], rule uuids)
next
  case (enqueued_segment tr w q j r w')
  show ?case
    by (rule enqueue_inv [OF enqueued_segment.IH enqueued_segment.hyps(5) [unfolded Queue_EnqueueSegment_def] enqueued_segment.hyps(2)])
      (rule work_of_segment [of parse us j, OF uuids enqueued_segment.hyps(3,4)])
next
  case (claimed tr w st consumer n block r w')
  note eff = Claim_effect [OF claimed.hyps(2)]
  show ?case
    by (rule queue_inv_handed [OF queue_inv_same [OF claimed.IH eff(1)]]) (use eff(2) same_work_entries [OF eff(1)] in simp)
next
  case (claimed_stale tr w st consumer idle n r w')
  note eff = ClaimStale_effect [OF claimed_stale.hyps(2)]
  show ?case using queue_inv_handed [OF claimed_stale.IH eff(2)] eff(1) by simp
next
  case (acknowledged tr w st es e r w')
  show ?case
    using queue_inv_acked [OF acknowledged.IH acknowledged.hyps(2,3)] Queue_Ack_effect [OF acknowledged.hyps(4)] by blast
qed

end

text \<open>In a run no entry disappears, and none that was delivered is ever new again.\<close>

context stream_server
begin

lemma deliveries_only_advance: "queue_run S us parse len w tr w' \<Longrightarrow> advances (view w) (view w')"
proof (induction rule: queue_run.induct)
  case (enqueued tr w1 j r w')
  have "advances (view w1) (view w')"
    using queue_add_effect [OF enqueued.hyps(3) [unfolded Queue_Enqueue_def] enqueued.hyps(2)] by (auto intro: advances_new)
  then show ?case using enqueued.IH advances_trans by blast
next
  case (enqueued_segment tr w1 q j r w')
  have "advances (view w1) (view w')"
    using queue_add_effect [OF enqueued_segment.hyps(5) [unfolded Queue_EnqueueSegment_def] enqueued_segment.hyps(2)] by (auto intro: advances_new)
  then show ?case using enqueued_segment.IH advances_trans by blast
qed (auto intro: advances_trans keepsD [OF queue_advances(1)] keepsD [OF queue_advances(2)] keepsD [OF queue_advances(3)] keepsD [OF queue_advances(4)])

end

section \<open>Properties\<close>



end
