(* ===== verification/Gateway.thy ===== *)
theory Gateway
  imports Websocket Config Job_Queue Quota
begin

text \<open>
  How the process is put together (\<^verbatim>\<open>cmd/gateway/main.go\<close>): the adapters that let the quota service, the limiter and the meter serve
  the ports of the synthesis service (\<^verbatim>\<open>synth/quotaport.go\<close>, \<^verbatim>\<open>leaseport.go\<close>, \<^verbatim>\<open>meterport.go\<close>), the table of tenant routes, the
  check of the schema version with the embedded migrations (\<^verbatim>\<open>migrations/embed.go\<close>), the voice synchronisation and the health probe.
\<close>

section \<open>Adapters to the synthesis ports\<close>

definition QuotaAdapter_Check :: "'w counter \<Rightarrow> (uuid \<Rightarrow> string) \<Rightarrow> instant \<Rightarrow> uuid \<Rightarrow> int \<Rightarrow> int \<Rightarrow> ('w, synth_error, Allowance) op" where
  "QuotaAdapter_Check C us now tenantID planLimit chars =
    catchE (quota_Check C us now tenantID planLimit chars) (\<lambda>_. failE Synth.plain)
      (\<lambda>d. returnE \<lparr>al_Allowed = Allowed d, al_Used = Used_chars d\<rparr>)"

definition QuotaAdapter_Record :: "'w counter \<Rightarrow> (uuid \<Rightarrow> string) \<Rightarrow> instant \<Rightarrow> uuid \<Rightarrow> int \<Rightarrow> ('w, synth_error, unit) op" where
  "QuotaAdapter_Record C us now tenantID chars = catchE (quota_Record C us now tenantID chars) (\<lambda>_. failE Synth.plain) (\<lambda>_. returnE ())"

definition LeaseAdapter_Acquire :: "'w redis_data \<Rightarrow> (uuid \<Rightarrow> string) \<Rightarrow> int \<Rightarrow> string \<Rightarrow> uuid \<Rightarrow> int \<Rightarrow> ('w, synth_error, uuid Lease option) op" where
  "LeaseAdapter_Acquire R us now_ms lease_id tenantID limit = catchE (Acquire R us now_ms lease_id tenantID limit) (\<lambda>_. failE Synth.plain) returnE"

definition heldLease_Renew :: "'w redis_data \<Rightarrow> (uuid \<Rightarrow> string) \<Rightarrow> int \<Rightarrow> uuid Lease \<Rightarrow> ('w, synth_error, unit) op" where
  "heldLease_Renew R us now_ms lease = catchE (Renew R us now_ms lease) (\<lambda>_. failE Synth.plain) returnE"

definition heldLease_Release :: "'w redis_data \<Rightarrow> (uuid \<Rightarrow> string) \<Rightarrow> uuid Lease \<Rightarrow> 'w \<Rightarrow> 'w" where
  "heldLease_Release R us lease w = snd (Release R us lease w)"

definition MeterAdapter_Record :: "uuid \<Rightarrow> int \<Rightarrow> Synth.Usage \<Rightarrow> meter \<Rightarrow> meter" where
  "MeterAdapter_Record fresh now u = Meter_Record fresh now
     \<lparr>ur_ID = uuid_Nil, ur_TenantID = us_TenantID u, ur_KeyID = us_KeyID u, ur_VoiceID = us_VoiceID u, ur_CacheKey = us_CacheKey u, ur_Mode = us_Mode u,
      ur_Chars = us_Chars u, ur_DurationMS = us_DurationMS u, ur_TTFAMS = us_TTFAMS u, ur_Cached = us_Cached u, ur_Status = us_Status u,
      ur_ErrorCode = [], ur_CreatedAt = None\<rparr>"

section \<open>The tenant routes\<close>

datatype endpoint = EpSynthesize | EpSynthesizeStream | EpSynthesizeWS | EpListVoices | EpCreateJob | EpListJobs | EpGetJob | EpCancelJob
  | EpCreateKey | EpListKeys | EpRevokeKey | EpGetUsage

definition TenantAPI :: "(endpoint \<Rightarrow> ('w, 'd) handler) \<Rightarrow> ('w, 'd) Route list" where
  "TenantAPI H =
    [\<lparr>rt_Method = ''POST'', rt_Pattern = ''/synthesize'', rt_Handler = H EpSynthesize, rt_Scope = ScopeSynth, rt_Public = False\<rparr>,
     \<lparr>rt_Method = ''POST'', rt_Pattern = ''/synthesize/stream'', rt_Handler = H EpSynthesizeStream, rt_Scope = ScopeSynth, rt_Public = False\<rparr>,
     \<lparr>rt_Method = ''GET'', rt_Pattern = ''/synthesize/ws'', rt_Handler = H EpSynthesizeWS, rt_Scope = ScopeSynth, rt_Public = False\<rparr>,
     \<lparr>rt_Method = ''GET'', rt_Pattern = ''/voices'', rt_Handler = H EpListVoices, rt_Scope = [], rt_Public = True\<rparr>,
     \<lparr>rt_Method = ''POST'', rt_Pattern = ''/jobs'', rt_Handler = H EpCreateJob, rt_Scope = ScopeJobs, rt_Public = False\<rparr>,
     \<lparr>rt_Method = ''GET'', rt_Pattern = ''/jobs'', rt_Handler = H EpListJobs, rt_Scope = ScopeJobs, rt_Public = False\<rparr>,
     \<lparr>rt_Method = ''GET'', rt_Pattern = ''/jobs/{jobId}'', rt_Handler = H EpGetJob, rt_Scope = ScopeJobs, rt_Public = False\<rparr>,
     \<lparr>rt_Method = ''DELETE'', rt_Pattern = ''/jobs/{jobId}'', rt_Handler = H EpCancelJob, rt_Scope = ScopeJobs, rt_Public = False\<rparr>,
     \<lparr>rt_Method = ''POST'', rt_Pattern = ''/keys'', rt_Handler = H EpCreateKey, rt_Scope = ScopeKeys, rt_Public = False\<rparr>,
     \<lparr>rt_Method = ''GET'', rt_Pattern = ''/keys'', rt_Handler = H EpListKeys, rt_Scope = ScopeKeys, rt_Public = False\<rparr>,
     \<lparr>rt_Method = ''DELETE'', rt_Pattern = ''/keys/{keyId}'', rt_Handler = H EpRevokeKey, rt_Scope = ScopeKeys, rt_Public = False\<rparr>,
     \<lparr>rt_Method = ''GET'', rt_Pattern = ''/usage'', rt_Handler = H EpGetUsage, rt_Scope = ScopeUsage, rt_Public = False\<rparr>]"

section \<open>The router (\<^verbatim>\<open>router.go\<close>)\<close>

text \<open>
  A table of routes as the third-party router serves it; \<open>matches\<close> is its comparison of a pattern with a path. A path that matches with
  another method gets the one fallback, a path that does not match the other; a mounted table shares both.
\<close>

definition route_to :: "(string \<Rightarrow> string \<Rightarrow> bool) \<Rightarrow> (string \<times> string \<times> ('w, 'd) handler) list \<Rightarrow> ('w, 'd) handler" where
  "route_to matches table r x =
    (case find (\<lambda>(verb, path, _). verb = hr_Method r \<and> matches path (hr_Path r)) table of
       Some (_, _, handler) \<Rightarrow> handler r x
     | None \<Rightarrow> if list_ex (\<lambda>(_, path, _). matches path (hr_Path r)) table then methodNotAllowed r x else notFound r x)"

definition mounted_under :: "string \<Rightarrow> string \<Rightarrow> bool" where
  "mounted_under prefix path \<longleftrightarrow> path = prefix \<or> HasPrefix path (prefix @ ''/'')"

definition at_mount :: "string \<Rightarrow> (string \<times> string \<times> ('w, 'd) handler) list \<Rightarrow> (string \<times> string \<times> ('w, 'd) handler) list" where
  "at_mount prefix = map (\<lambda>(verb, path, handler). (verb, prefix @ path, handler))"

text \<open>
  The whole surface: the identifier first, the recovery around everything, then the health and contract endpoints, the operator surface and the
  tenant API, the latter behind the cross-origin check when there are console origins. \<open>openapi\<close> are the endpoints that serve the
  contract; the access log, the metrics and the tracing around it are left out, and the handlers of this model do not panic.
\<close>

definition Router :: "string \<Rightarrow> (string \<Rightarrow> string \<Rightarrow> bool) \<Rightarrow> (string \<times> string \<times> ('w, document) handler) list \<Rightarrow> ('w \<Rightarrow> (string \<times> bool) list)
    \<Rightarrow> (('w, document) handler \<Rightarrow> ('w, document) handler) \<Rightarrow> ('w, document) handler \<Rightarrow> 'w guards \<Rightarrow> ('w, document) Route list \<Rightarrow> string list
    \<Rightarrow> ('w, document) handler" where
  "Router fresh matches openapi finished admin createTenant G routes consoleOrigins =
    RequestID fresh (Recover (\<lambda>r x. (False,
      let tenant = route_to matches (at_mount ''/v1'' (TenantRoutes G routes));
          tenant = (if consoleOrigins \<noteq> [] then CORS consoleOrigins tenant else tenant)
      in if mounted_under ''/admin'' (hr_Path r) then route_to matches (at_mount ''/admin'' (AdminRoutes admin createTenant)) r x
         else if mounted_under ''/v1'' (hr_Path r) then tenant r x
         else route_to matches ([(''GET'', ''/healthz'', Healthz), (''GET'', ''/readyz'', Readyz finished)] @ openapi) r x)))"

section \<open>The quota reconciler (\<^verbatim>\<open>quota/reconcile.go\<close>)\<close>

text \<open>
  The runs until the context is cancelled, one at boot and one per tick; each has its clock readings and its source. A failed run is logged and the
  next one tries again.
\<close>

fun Reconciler_Run :: "'w counter \<Rightarrow> (uuid \<Rightarrow> string) \<Rightarrow> (instant \<times> (nat \<Rightarrow> instant) \<times> (instant \<Rightarrow> instant \<Rightarrow> ('w, store_error, (uuid \<times> int) list) op)) list \<Rightarrow> 'w \<Rightarrow> 'w" where
  "Reconciler_Run C us [] w = w"
| "Reconciler_Run C us ((now, nows, source) # ticks) w = Reconciler_Run C us ticks (snd (RunOnce C us now nows source w))"

section \<open>Boot checks and probes\<close>

text \<open>\<open>names\<close> are the files embedded in the binary.\<close>

datatype boot_error = BadMigrationName string | BadMigrationVersion string | NoMigrations | SchemaUnreadable | SchemaTooOld int int

text \<open>\<^verbatim>\<open>strings.Cut(name, "_")\<close>, the part before the separator.\<close>

definition version_digits :: "string \<Rightarrow> string option" where
  "version_digits name = (if CHR ''_'' \<in> set name then Some (takeWhile (\<lambda>c. c \<noteq> CHR ''_'') name) else None)"

fun latest_of :: "string list \<Rightarrow> int \<Rightarrow> boot_error + int" where
  "latest_of [] latest = (if latest = 0 then Inl NoMigrations else Inr latest)"
| "latest_of (name # names) latest =
    (case version_digits name of
       None \<Rightarrow> Inl (BadMigrationName name)
     | Some digits \<Rightarrow>
         (case ParseInt 64 digits of
            None \<Rightarrow> Inl (BadMigrationVersion name)
          | Some version \<Rightarrow> latest_of names (if latest < version then version else latest)))"

definition Latest :: "string list \<Rightarrow> boot_error + int" where
  "Latest names = latest_of names 0"

definition checkSchemaVersion :: "string list \<Rightarrow> int option \<Rightarrow> boot_error + unit" where
  "checkSchemaVersion names schemaVersion =
    (case Latest names of
       Inl e \<Rightarrow> Inl e
     | Inr want \<Rightarrow>
         (case schemaVersion of None \<Rightarrow> Inl SchemaUnreadable
          | Some have_version \<Rightarrow> if have_version < want then Inl (SchemaTooOld have_version want) else Inr ()))"

fun cut_down :: "string \<Rightarrow> string \<Rightarrow> nat \<Rightarrow> string \<times> string \<times> bool" where
  "cut_down s sep 0 = (if take (length sep) s = sep then ([], drop (length sep) s, True) else (s, [], False))"
| "cut_down s sep (Suc i) =
    (if take (length sep) (drop (Suc i) s) = sep then (take (Suc i) s, drop (Suc i + length sep) s, True) else cut_down s sep i)"

definition cutLast :: "string \<Rightarrow> string \<Rightarrow> string \<times> string \<times> bool" where
  "cutLast s sep = (if length s < length sep then (s, [], False) else cut_down s sep (length s - length sep))"

text \<open>\<open>render\<close> is \<^verbatim>\<open>url.URL.String\<close> of a scheme, a host and a path.\<close>

definition healthURL :: "(string \<Rightarrow> string \<Rightarrow> string \<Rightarrow> string) \<Rightarrow> string \<Rightarrow> string" where
  "healthURL render addr =
    (let (host, prt, found) = cutLast addr '':'';
         (host, prt) = (if \<not> found then (''127.0.0.1'', addr) else (host, prt));
         host = (if host = [] \<or> host = ''0.0.0.0'' \<or> host = ''[::]'' then ''127.0.0.1'' else host)
     in render ''http'' (host @ '':'' @ prt) ''/healthz'')"

definition consumerName :: "string option \<Rightarrow> int \<Rightarrow> Config \<Rightarrow> string" where
  "consumerName hostname pid cfg =
    (let host = (case hostname of None \<Rightarrow> ''gateway'' | Some h \<Rightarrow> if h = [] then ''gateway'' else h)
     in host @ ''-'' @ cf_Env cfg @ ''-'' @ Itoa pid)"

section \<open>Voice synchronisation\<close>

definition voiceSyncInterval :: int where "voiceSyncInterval = 60 * 10 ^ 9"
definition voiceSyncStartupPeriod :: int where "voiceSyncStartupPeriod = 2 * 10 ^ 9"

text \<open>
  The rounds of \<^verbatim>\<open>syncVoices\<close> until its context is cancelled: what the fleet advertises and the clock readings of
  each. The result lists how long the loop waited after each round.
\<close>

definition sync_round :: "(nat \<Rightarrow> fault) \<Rightarrow> (string \<times> string) list \<Rightarrow> int \<Rightarrow> int \<Rightarrow> int \<Rightarrow> voice_service \<Rightarrow> int \<times> voice_service" where
  "sync_round F advertised now now' interval s =
    (case Sync F advertised s of
       (Inl _, s1) \<Rightarrow> (interval, s1)
     | (Inr _, s1) \<Rightarrow>
         if interval \<noteq> voiceSyncInterval
         then (case Voices_List F now now' None s1 of
                 (Inr found, s2) \<Rightarrow> (if found \<noteq> [] then voiceSyncInterval else interval, s2)
               | (Inl _, s2) \<Rightarrow> (interval, s2))
         else (interval, s1))"

fun sync_rounds :: "(nat \<Rightarrow> fault) \<Rightarrow> ((string \<times> string) list \<times> int \<times> int) list \<Rightarrow> int \<Rightarrow> voice_service \<Rightarrow> int list \<times> voice_service" where
  "sync_rounds F [] interval s = ([], s)"
| "sync_rounds F ((advertised, now, now') # rounds) interval s =
    (let (interval', s1) = sync_round F advertised now now' interval s; (waits, s2) = sync_rounds F rounds interval' s1 in (interval' # waits, s2))"

definition syncVoices :: "(nat \<Rightarrow> fault) \<Rightarrow> ((string \<times> string) list \<times> int \<times> int) list \<Rightarrow> voice_service \<Rightarrow> int list \<times> voice_service" where
  "syncVoices F rounds = sync_rounds F rounds voiceSyncStartupPeriod"

section \<open>Lemmas\<close>

text \<open>The quota port over the real counter lets a request pass only within the grace of its plan, without a limit, or while the store is down.\<close>

lemma wired_quota_admits:
  assumes "quota_counter C cnt" and "pQuotaCheck P = QuotaAdapter_Check C us now"
    and "checkQuota P req planID s = (Inr (), s')"
  shows "\<exists>limit w. pCharsPerMonth P planID (ss_world s) = (Inr limit, w)
    \<and> (limit \<le> 0 \<or> wrap64 (cnt w (quota_key us (rq_TenantID req) now) + Chars req) \<le> ceiling_of limit \<or> (\<exists>t. fst (Tolerate t (ss_quotaBreak s))))"
proof -
  obtain limit w where lim: "pCharsPerMonth P planID (ss_world s) = (Inr limit, w)"
    using assms(3) by (auto simp: checkQuota_def go_simps port_def split: prod.splits sum.splits)
  obtain q w1 where q: "quota_Check C us now (rq_TenantID req) limit (Chars req) w = (q, w1)" by fastforce
  show ?thesis
  proof (cases q)
    case (Inl e)
    then have "\<exists>t. fst (Tolerate t (ss_quotaBreak s))"
      using assms(3) lim q by (auto simp: checkQuota_def assms(2) QuotaAdapter_Check_def go_simps port_def tolerate_def ask_def Let_def
          split: prod.splits if_splits) (metis fst_conv)
    then show ?thesis using lim by blast
  next
    case (Inr d)
    then have "Allowed d"
      using assms(3) lim q by (auto simp: checkQuota_def assms(2) QuotaAdapter_Check_def go_simps port_def quota_decided_def Let_def split: if_splits)
    then show ?thesis
      using quota_counter.quota_Check_decision [OF assms(1) q [unfolded Inr]] lim by (cases "0 < limit") auto
  qed
qed

text \<open>
  The table of routes: every request for a route other than the voice catalogue reaches its handler only with an identity that holds
  the scope of the path, or is refused; and no two routes share method and pattern.
\<close>

definition required_scope :: "string \<Rightarrow> string" where
  "required_scope path = (if HasPrefix path ''/synthesize'' then ScopeSynth else if HasPrefix path ''/jobs'' then ScopeJobs
     else if HasPrefix path ''/keys'' then ScopeKeys else ScopeUsage)"

lemma tenant_routes_distinct: "distinct (map (\<lambda>route. (rt_Method route, rt_Pattern route)) (TenantAPI H))"
  by (simp add: TenantAPI_def)

lemma tenant_api_scopes: "route \<in> set (TenantAPI H) \<Longrightarrow> rt_Pattern route \<noteq> ''/voices'' \<Longrightarrow> \<not> rt_Public route \<and> rt_Scope route = required_scope (rt_Pattern route) \<and> rt_Scope route \<noteq> []"
  by (auto simp: TenantAPI_def required_scope_def HasPrefix_def ScopeSynth_def ScopeJobs_def ScopeKeys_def ScopeUsage_def)

lemma tenant_routes_require_scope:
  assumes "unsent x" and "(verb, path, chained) \<in> set (TenantRoutes G (TenantAPI H))" and "path \<noteq> ''/voices''"
  shows "(\<exists>route i x'. route \<in> set (TenantAPI H) \<and> rt_Method route = verb \<and> rt_Pattern route = path
        \<and> chained r x = rt_Handler route (r\<lparr>hr_identity := Some i\<rparr>) x' \<and> required_scope path \<in> set (id_Scopes i))
    \<or> refused r (chained r x)"
proof -
  obtain route where route: "route \<in> set (TenantAPI H)" "rt_Method route = verb" "rt_Pattern route = path" "chained = route_chain G route"
    using assms(2) by (auto simp: TenantRoutes_def)
  have scope: "\<not> rt_Public route" "rt_Scope route = required_scope path" "rt_Scope route \<noteq> []"
    using tenant_api_scopes [OF route(1)] route(3) assms(3) by auto
  have this_route: "chained r x = route_chain G (route\<lparr>rt_Handler := rt_Handler route\<rparr>) r x" by (simp add: route(4))
  consider (pass) i x' where "\<forall>h. route_chain G (route\<lparr>rt_Handler := h\<rparr>) r x = h (r\<lparr>hr_identity := Some i\<rparr>) x'" "required_scope path \<in> set (id_Scopes i)"
    | (stop) x' where "\<forall>h. route_chain G (route\<lparr>rt_Handler := h\<rparr>) r x = x'" "refused r x'"
    using route_chain_gated [OF assms(1) scope(1), of G r] scope(2,3) unfolding gated_def by auto
  then show ?thesis
  proof cases
    case pass
    have "chained r x = rt_Handler route (r\<lparr>hr_identity := Some i\<rparr>) x'" unfolding this_route by (rule pass(1) [rule_format])
    then show ?thesis using route(1-3) pass(2) by blast
  next
    case stop
    then have "chained r x = x'" unfolding this_route by blast
    then show ?thesis using stop(2) by simp
  qed
qed

text \<open>A preflight of the console is answered for its origin, before any guard, and changes nothing.\<close>

lemma mounted_second: "mounted_under prefix path \<Longrightarrow> 1 < length prefix \<Longrightarrow> path ! 1 = prefix ! 1"
proof -
  assume m: "mounted_under prefix path" and l: "1 < length prefix"
  have "path ! 1 = prefix ! 1" if "take (Suc (length prefix)) path = prefix @ ''/''"
    using arg_cong [OF that, of "\<lambda>s. s ! 1"] l nth_take [of 1 "Suc (length prefix)" path] by (cases prefix) (simp_all add: nth_append)
  then show "path ! 1 = prefix ! 1" using m by (auto simp: mounted_under_def HasPrefix_def)
qed

lemma console_preflight_answered:
  assumes "mounted_under ''/v1'' (hr_Path r)" and "preflight r" and "hr_Header r HeaderOrigin \<noteq> []" and "hr_Header r HeaderOrigin \<in> set (allowed_origins origins)"
    and "unsent x"
  shows "\<exists>h. rw_sent (x_writer (Router fresh matches openapi finished admin createTenant G routes origins r x)) = Some (204, h)
      \<and> h HeaderACAllowOrigin = Some (hr_Header r HeaderOrigin)"
    and "x_world (Router fresh matches openapi finished admin createTenant G routes origins r x) = x_world x"
proof -
  have origins: "origins \<noteq> []" using assms(4) by (auto simp: allowed_origins_def)
  have not_admin: "\<not> mounted_under ''/admin'' (hr_Path r)"
  proof
    assume "mounted_under ''/admin'' (hr_Path r)"
    then have "hr_Path r ! 1 = CHR ''a''" using mounted_second [of "''/admin''" "hr_Path r"] by simp
    moreover have "hr_Path r ! 1 = CHR ''v''" using mounted_second [OF assms(1)] by simp
    ultimately show False by simp
  qed
  have pre: "preflight (r\<lparr>hr_requestID := i\<rparr>)" for i using assms(2) by (simp add: preflight_def)
  show "\<exists>h. rw_sent (x_writer (Router fresh matches openapi finished admin createTenant G routes origins r x)) = Some (204, h)
      \<and> h HeaderACAllowOrigin = Some (hr_Header r HeaderOrigin)"
    and "x_world (Router fresh matches openapi finished admin createTenant G routes origins r x) = x_world x"
    using assms(1,3-5) origins not_admin pre
    by (auto simp: Router_def RequestID_def Recover_def CORS_def writing_def Let_def response_simps unsent_def Header_Add_def
        HeaderACAllowOrigin_def HeaderACMaxAge_def HeaderACAllowHeaders_def HeaderACAllowMethods_def HeaderACExposeHeaders_def)
qed

text \<open>Each run that succeeds leaves the counters as the authoritative totals say; one that fails does not stop the loop.\<close>

lemma reconciler_runs_all: "Reconciler_Run C us (ticks @ [(now, nows, source)]) w = snd (RunOnce C us now nows source (Reconciler_Run C us ticks w))"
  by (induction ticks arbitrary: w) auto

text \<open>What is metered is what the meter queues, stamped with an id and a time.\<close>

lemma metered_usage_queued:
  assumes "length (mt_queue m) < QueueSize"
  shows "\<exists>r. mt_queue (MeterAdapter_Record fresh now u m) = mt_queue m @ [r] \<and> ur_TenantID r = us_TenantID u \<and> ur_KeyID r = us_KeyID u
    \<and> ur_Chars r = us_Chars u \<and> ur_Status r = us_Status u \<and> ur_ID r = fresh \<and> ur_CreatedAt r = Some now"
  using assms by (simp add: MeterAdapter_Record_def Meter_Record_def stamped_def Let_def)

lemma latest_of_max:
  assumes "latest_of names m = Inr v" and "0 \<le> m"
  shows "m \<le> v \<and> (\<forall>name \<in> set names. \<exists>digits n. version_digits name = Some digits \<and> ParseInt 64 digits = Some n \<and> n \<le> v)"
  using assms by (induction names m rule: latest_of.induct) (fastforce split: option.splits if_splits)+

text \<open>A process that passes the check finds a schema at least as new as every migration it carries.\<close>

lemma schema_checked:
  assumes "checkSchemaVersion names schemaVersion = Inr ()"
  shows "\<exists>n. schemaVersion = Some n \<and> (\<forall>name \<in> set names. \<exists>digits v. version_digits name = Some digits \<and> ParseInt 64 digits = Some v \<and> v \<le> n)"
proof -
  obtain want n where want: "Latest names = Inr want" "schemaVersion = Some n" "want \<le> n"
    using assms by (auto simp: checkSchemaVersion_def not_less split: sum.splits option.splits if_splits)
  then show ?thesis using latest_of_max [of names 0 want] by (fastforce simp: Latest_def)
qed

lemma cut_down_single:
  assumes "cut_down s [c] n = (b, a, found)" and "n < length s" and "c \<notin> set (drop (Suc n) s)"
  shows "if found then s = b @ c # a \<and> c \<notin> set a else c \<notin> set s \<and> b = s"
  using assms
proof (induction n)
  case 0
  then show ?case by (cases s) (auto split: if_splits)
next
  case (Suc n)
  have split: "drop (Suc n) s = s ! Suc n # drop (Suc (Suc n)) s" using Suc.prems(2) by (simp add: Cons_nth_drop_Suc)
  then have head: "take 1 (drop (Suc n) s) = [c] \<longleftrightarrow> s ! Suc n = c" by simp
  show ?case
  proof (cases "s ! Suc n = c")
    case True
    then have "found" "b = take (Suc n) s" "a = drop (Suc (Suc n)) s" using Suc.prems(1) head by (auto simp: drop_Suc)
    then show ?thesis using split True Suc.prems(3) by (metis append_take_drop_id)
  next
    case False
    then show ?thesis using Suc split head by auto
  qed
qed

lemma cutLast_single:
  assumes "cutLast s [c] = (b, a, found)"
  shows "if found then s = b @ c # a \<and> c \<notin> set a else c \<notin> set s \<and> b = s"
  using assms cut_down_single [of s c "length s - 1" b a found] by (cases "s = []") (auto simp: cutLast_def split: if_splits)

text \<open>The probe asks the port the server listens on, on the loopback address when the server listens everywhere.\<close>

lemma probe_of_wildcard: "CHR '':'' \<notin> set prt \<Longrightarrow> healthURL render ('':'' @ prt) = render ''http'' (''127.0.0.1:'' @ prt) ''/healthz''"
proof -
  assume p: "CHR '':'' \<notin> set prt"
  obtain b a found where c: "cutLast ('':'' @ prt) '':'' = (b, a, found)" by (metis prod_cases3)
  have "found" using cutLast_single [OF c] by (cases found) auto
  then have "'':'' @ prt = b @ CHR '':'' # a" "CHR '':'' \<notin> set a" using cutLast_single [OF c] by auto
  then have "b = [] \<and> a = prt" using p append_sep_inj [of "CHR '':''" "[]" b prt a] by (cases b) auto
  then show ?thesis using c \<open>found\<close> by (simp add: healthURL_def)
qed

text \<open>The loop polls fast until a voice can be served, and slowly from then on.\<close>

lemma sync_rounds_slow: "fst (sync_rounds F rounds voiceSyncInterval s) = replicate (length rounds) voiceSyncInterval"
proof (induction rounds arbitrary: s)
  case (Cons r rounds)
  obtain advertised now now' where r: "r = (advertised, now, now')" by (metis prod_cases3)
  have "fst (sync_round F advertised now now' voiceSyncInterval s) = voiceSyncInterval" by (auto simp: sync_round_def split: prod.splits sum.splits)
  then show ?case using Cons by (auto simp: r split: prod.splits) (metis fst_conv)+
qed simp

lemma sync_settles:
  "\<exists>n \<le> length rounds. fst (syncVoices F rounds s) = replicate n voiceSyncStartupPeriod @ replicate (length rounds - n) voiceSyncInterval"
  unfolding syncVoices_def
proof (induction rounds arbitrary: s)
  case (Cons r rounds)
  obtain advertised now now' where r: "r = (advertised, now, now')" by (metis prod_cases3)
  obtain i s1 where i: "sync_round F advertised now now' voiceSyncStartupPeriod s = (i, s1)" by fastforce
  have tail: "fst (sync_rounds F (r # rounds) voiceSyncStartupPeriod s) = i # fst (sync_rounds F rounds i s1)" by (simp add: r i split: prod.splits)
  have "i = voiceSyncStartupPeriod \<or> i = voiceSyncInterval" using i by (auto simp: sync_round_def split: prod.splits sum.splits if_splits)
  then show ?case
  proof
    assume "i = voiceSyncStartupPeriod"
    then show ?thesis using Cons.IH [of s1] tail by (metis Suc_le_mono append_Cons diff_Suc_Suc length_Cons replicate_Suc)
  next
    assume "i = voiceSyncInterval"
    then show ?thesis using sync_rounds_slow [of F rounds s1] tail by (intro exI [of _ 0]) simp
  qed
qed simp

end
