(* ===== verification/Spec2Isabelle.thy ===== *)
theory Spec2Isabelle
  imports Audio Quota Ratelimit Cache Auth Degrade Dispatch Job_Merge Webhook Maintenance Gateway
begin

text \<open>
  \<^bold>\<open>The ViTTS gateway.\<close> A model of the Go program under \<^verbatim>\<open>src/gateway\<close>, an HTTP gateway in front of a fleet of text-to-speech
  workers, and the properties that make it correct. Tenants authenticate with API keys, synthesize text in one
  response, as a stream or over a WebSocket, and create long jobs that orchestrators work off in segments. Usage is metered
  and limited by plan; audio is cached; operators create tenants.

  \<^bold>\<open>Parts and how they interact.\<close> A request passes the edge (\<^verbatim>\<open>http/\<close>: request id, recovery, authentication, rate limit, scope) and
  reaches a handler, which calls a service. The synthesis service asks the quota, the audio cache, the dispatcher and a worker, charges and
  meters. The job service writes a row and enqueues; orchestrators claim entries, segment the text, synthesize the
  segments through the dispatcher, merge and notify a webhook. Reconcilers repair the queue and the quota counters; a scheduler
  runs the maintenance tasks under a lock. PostgreSQL holds the tables, Redis the counters, buckets, leases, locks, cache index and streams, S3
  the objects.

  \<^bold>\<open>How the code is modelled.\<close> A struct is a record with the fields of the code, an enumeration a datatype, a method a function on
  the state it changes. Fallible code has type \<open>('s, 'e, 'a) op\<close>, from a state to an error or a result and the
  new state (theory \<open>Prelude\<close>). A call to a service across the network is one step of a fault schedule: it succeeds, fails before it took effect, or
  takes effect and loses its answer. What other processes do between two calls of a handler is a parameter of the environment, so a
  theorem about a handler holds for all interleavings; the dispatcher, the leases, the queue and the WebSocket session are step
  relations. Integers are unbounded where the code cannot overflow and wrap, or are words, where it can (\<open>wrap32\<close>, \<open>wrap64\<close>,
  \<^verbatim>\<open>32 word\<close> sizes in WAV headers and addresses); doubles are rounded to 53 bits after each operation (\<open>Go_Float\<close>). Third-party
  code (hashes, HMAC, UUIDs, URL and address parsers, JSON, Redis, the workers) are arguments; what is relied on of them is a
  hypothesis or a locale of laws.

  \<^bold>\<open>Theories.\<close>
  \<^item> \<open>Prelude\<close>, \<open>Go_Strings\<close>, \<open>Go_Float\<close>, \<open>Go_Time\<close>: operations with errors, faults and transactions, the locale \<open>state_order\<close> with the
    relations that operations keep, and what the code uses of Go's packages \<^verbatim>\<open>strings\<close>, \<^verbatim>\<open>strconv\<close>, \<^verbatim>\<open>unicode/utf8\<close>, \<^verbatim>\<open>math\<close> and \<^verbatim>\<open>time\<close>.
  \<^item> \<open>Audio\<close> (\<^verbatim>\<open>audio/wav.go\<close>): the header and durations; the header describes the audio, the duration is exact.
  \<^item> \<open>Degrade\<close> (\<^verbatim>\<open>degrade/\<close>): the breaker that tolerates an outage for a window; it measures one continuous outage.
  \<^item> \<open>Redis\<close> (\<^verbatim>\<open>storage/redis/counter.go\<close>, \<^verbatim>\<open>lock.go\<close>), \<open>Quota\<close> (\<^verbatim>\<open>quota/\<close>), \<open>Ratelimit\<close> (\<^verbatim>\<open>ratelimit/\<close> with its Lua scripts): the grace bound of the quota check, the
    reconcile, the rate bound of the token bucket and the bound on leases under every interleaving.
  \<^item> \<open>Cache\<close> (\<^verbatim>\<open>cache/\<close>, \<^verbatim>\<open>cacheindex.go\<close>, \<^verbatim>\<open>cacherepo.go\<close>): the key separates what may sound different, a hit returns what was stored, store and lookup round trip.
  \<^item> \<open>Accounts\<close>, \<open>Auth\<close> (\<^verbatim>\<open>plans/\<close>, \<^verbatim>\<open>auth/\<close>, \<^verbatim>\<open>tenants/\<close> and their repositories): authentication accepts live keys only, a revoked key never
    again, a created key works without escalation, tenants and plan files are created whole or not at all.
  \<^item> \<open>Dispatch\<close> (\<^verbatim>\<open>dispatch/\<close>): exact accounting under every interleaving, the stream reserve, least-busy selection, ejection, and an answer within the budget.
  \<^item> \<open>Jobs\<close>, \<open>Job_Tables\<close>, \<open>Job_Service\<close>, \<open>Orchestrator\<close>, \<open>Engine\<close>, \<open>Job_Lifecycle\<close>, \<open>Job_Completion\<close>, \<open>Job_Merge\<close> (\<^verbatim>\<open>jobs/\<close>, \<^verbatim>\<open>jobrepo.go\<close>,
    \<^verbatim>\<open>db/jobs.sql.go\<close>, \<^verbatim>\<open>jobtexts.go\<close>): the tables and statements, the tenant-facing service, the handlers and the worker engine; status only advances, the
    tables stay consistent, creation is idempotent, handlers do not panic, a job completes when the engine answers, and only through one merge of all segments.
  \<^item> \<open>Job_Queue\<close> (\<^verbatim>\<open>jobqueue.go\<close>, \<^verbatim>\<open>jobqueue_adapter.go\<close>): work put into the streams is not lost.
  \<^item> \<open>Webhook\<close> (\<^verbatim>\<open>webhook_guard.go\<close>, \<^verbatim>\<open>webhook/\<close>): the guard agrees with a range specification of public addresses; delivery is guarded, bounded and signed.
  \<^item> \<open>Voices\<close>, \<open>Usage\<close>, \<open>Maintenance\<close> (\<^verbatim>\<open>voices/\<close>, \<^verbatim>\<open>usage/\<close>, \<^verbatim>\<open>maintenance/\<close>): tenant-scoped resolution, the account of every metered request, the eviction sweep.
  \<^item> \<open>Synth\<close> (\<^verbatim>\<open>synth/\<close>): complete and streamed synthesis over their ports; what is billed is what is delivered.
  \<^item> \<open>Http\<close>, \<open>Handlers\<close>, \<open>Websocket\<close> (\<^verbatim>\<open>http/\<close>): the guard chain on the gateway's own components, all endpoint handlers with their problem
    documents, and the session of the WebSocket endpoint as a refinement of a sequential speaker.
  \<^item> \<open>Config\<close> (\<^verbatim>\<open>config/\<close>), \<open>Gateway\<close> (\<^verbatim>\<open>cmd/gateway/main.go\<close>, the port adapters, \<^verbatim>\<open>router.go\<close>, \<^verbatim>\<open>migrations/embed.go\<close>): the environment is checked at boot, and the
    parts as the process composes them.

  \<^bold>\<open>Interfaces.\<close> The locales name what one part relies on of another and are interpreted on the models that provide it:
  \<open>state_order\<close> (what operations keep), \<open>redis_server\<close> and \<open>quota_counter\<close> (\<^verbatim>\<open>sublocale\<close>), \<open>redis_leases\<close>, \<open>plan_rate\<close>, \<open>cache_ports\<close>, \<open>job_environment\<close>,
  \<open>orchestration\<close>, \<open>reliable\<close>, \<open>own_job\<close>, \<open>stream_server\<close> and \<open>forward_simulation\<close>.

  \<^bold>\<open>Bounds and fuel.\<close> Loops over lists are structural recursions. A loop with a retry count recurses on it (\<^verbatim>\<open>workerAttempts\<close>, \<^verbatim>\<open>MaxAttempts\<close>); a loop
  that ends with its input or its context recurses on the list of what it receives (frames, claims, ticks). The waiting loop of \<^verbatim>\<open>Reserve\<close>
  takes one turn per wake-up, and the property shows that it has answered as soon as a turn reads a clock past its deadline. Hypotheses on sizes (plan limits up to \<open>2 ^ 46\<close>, counters
  up to \<open>2 ^ 62\<close>, streams below their trimming length) are far beyond what the program reaches, and are named in the properties.

  \<^bold>\<open>Not modelled.\<close> Telemetry and access logs, which no other part reads; the generated protobuf code, whose messages appear as
  arguments and results of the worker; the connections to PostgreSQL, Redis and S3, which are the fault schedules; the files served from the
  binary; the path matching of the third-party router, an argument; construction, listening, signals and shutdown in \<^verbatim>\<open>main.go\<close> and its one-shot
  migration and seeding commands; the tickers that call the modelled steps. Connection deadlines appear only where the code branches on them.
\<close>

end
